(* ===== verification/BTree_Map.thy ===== *)
theory BTree_Map
  imports Main
begin

text \<open>
  \<^verbatim>\<open>std::collections::BTreeMap\<close> and \<^verbatim>\<open>BTreeSet\<close> as the server uses them: the entries in strictly
  increasing key order, which is the order iteration visits. The locale \<open>ordered_map\<close> is the
  contract the components rely on; it is interpreted on the sorted association list. A \<^verbatim>\<open>BTreeSet\<close>
  is the map to \<open>unit\<close>, as it is in the standard library.
\<close>

section \<open>Operations\<close>

type_synonym ('k, 'v) btree = "('k \<times> 'v) list"

definition bt_ok :: "('k::linorder, 'v) btree \<Rightarrow> bool" where
  "bt_ok m \<longleftrightarrow> sorted_wrt (<) (map fst m)"

definition bt_empty :: "('k, 'v) btree" where
  "bt_empty = []"

definition bt_get :: "('k, 'v) btree \<Rightarrow> 'k \<Rightarrow> 'v option" where
  "bt_get m k = map_of m k"

fun bt_insert :: "'k::linorder \<Rightarrow> 'v \<Rightarrow> ('k, 'v) btree \<Rightarrow> ('k, 'v) btree" where
  "bt_insert k v [] = [(k, v)]"
| "bt_insert k v ((a, b) # m) =
     (if k < a then (k, v) # (a, b) # m else if k = a then (k, v) # m else (a, b) # bt_insert k v m)"

fun bt_remove :: "'k \<Rightarrow> ('k, 'v) btree \<Rightarrow> ('k, 'v) btree" where
  "bt_remove k [] = []"
| "bt_remove k ((a, b) # m) = (if k = a then m else (a, b) # bt_remove k m)"

definition bt_keys :: "('k, 'v) btree \<Rightarrow> 'k list" where
  "bt_keys m = map fst m"

definition bt_values :: "('k, 'v) btree \<Rightarrow> 'v list" where
  "bt_values m = map snd m"

definition bt_len :: "('k, 'v) btree \<Rightarrow> nat" where
  "bt_len m = length m"

text \<open>\<^verbatim>\<open>for v in m.values_mut() { ... }\<close>\<close>

definition bt_map_values :: "('v \<Rightarrow> 'v) \<Rightarrow> ('k, 'v) btree \<Rightarrow> ('k, 'v) btree" where
  "bt_map_values f m = map (\<lambda>(k, v). (k, f v)) m"

section \<open>The contract\<close>

locale ordered_map =
  fixes ok :: "'m \<Rightarrow> bool"
    and empty :: 'm
    and get :: "'m \<Rightarrow> 'k::linorder \<Rightarrow> 'v option"
    and ins :: "'k \<Rightarrow> 'v \<Rightarrow> 'm \<Rightarrow> 'm"
    and del :: "'k \<Rightarrow> 'm \<Rightarrow> 'm"
    and keys :: "'m \<Rightarrow> 'k list"
    and vals :: "'m \<Rightarrow> 'v list"
  assumes ok_empty [simp]: "ok empty"
    and ok_ins [simp]: "ok m \<Longrightarrow> ok (ins k v m)"
    and ok_del [simp]: "ok m \<Longrightarrow> ok (del k m)"
    and get_empty [simp]: "get empty k = None"
    and get_ins: "ok m \<Longrightarrow> get (ins k v m) j = (if j = k then Some v else get m j)"
    and get_del: "ok m \<Longrightarrow> get (del k m) j = (if j = k then None else get m j)"
    and keys_sorted: "ok m \<Longrightarrow> sorted_wrt (<) (keys m)"
    and keys_get: "ok m \<Longrightarrow> k \<in> set (keys m) \<longleftrightarrow> get m k \<noteq> None"
    and vals_get: "ok m \<Longrightarrow> map Some (vals m) = map (get m) (keys m)"
begin

definition all_vals :: "('v \<Rightarrow> bool) \<Rightarrow> 'm \<Rightarrow> bool" where
  "all_vals P m \<longleftrightarrow> (\<forall>k v. get m k = Some v \<longrightarrow> P v)"

lemma all_vals_get: "all_vals P m \<Longrightarrow> get m k = Some v \<Longrightarrow> P v"
  by (auto simp: all_vals_def)

lemma all_vals_empty: "all_vals P empty"
  by (simp add: all_vals_def)

lemma all_vals_ins: "ok m \<Longrightarrow> all_vals P m \<Longrightarrow> P v \<Longrightarrow> all_vals P (ins k v m)"
  by (auto simp: all_vals_def get_ins)

lemma all_vals_del: "ok m \<Longrightarrow> all_vals P m \<Longrightarrow> all_vals P (del k m)"
  by (auto simp: all_vals_def get_del)

lemma keys_distinct: "ok m \<Longrightarrow> distinct (keys m)"
  using keys_sorted [of m] by (simp add: strict_sorted_iff)

lemma keys_ins: "ok m \<Longrightarrow> set (keys (ins k v m)) = insert k (set (keys m))"
  by (auto simp: keys_get get_ins split: if_splits)

lemma keys_del: "ok m \<Longrightarrow> set (keys (del k m)) = set (keys m) - {k}"
  by (auto simp: keys_get get_del split: if_splits)

lemma vals_len: "ok m \<Longrightarrow> length (vals m) = length (keys m)"
  using vals_get [of m] by (auto dest: map_eq_imp_length_eq)

lemma len_ins: "ok m \<Longrightarrow> length (keys (ins k v m)) = (if get m k = None then 1 else 0) + length (keys m)"
proof -
  assume ok: "ok m"
  have "card (set (keys (ins k v m))) = card (insert k (set (keys m)))" using keys_ins [OF ok] by simp
  then show ?thesis
    using keys_distinct [OF ok] keys_distinct [OF ok_ins [OF ok]] keys_get [OF ok, of k]
    by (simp add: distinct_card card_insert_if)
qed

lemma len_del: "ok m \<Longrightarrow> length (keys (del k m)) = length (keys m) - (if get m k = None then 0 else 1)"
proof -
  assume ok: "ok m"
  have "card (set (keys (del k m))) = card (set (keys m) - {k})" using keys_del [OF ok] by simp
  then show ?thesis
    using keys_distinct [OF ok] keys_distinct [OF ok_del [OF ok]] keys_get [OF ok, of k]
    by (simp add: distinct_card card_Diff_singleton_if)
qed

lemma ext: "ok m \<Longrightarrow> ok n \<Longrightarrow> (\<And>k. get m k = get n k) \<Longrightarrow> keys m = keys n \<and> vals m = vals n"
proof -
  assume ok: "ok m" "ok n" and eq: "\<And>k. get m k = get n k"
  have "set (keys m) = set (keys n)" using keys_get ok eq by auto
  then have keys: "keys m = keys n"
    using keys_sorted [OF ok(1)] keys_sorted [OF ok(2)] by (simp add: strict_sorted_iff sorted_distinct_set_unique)
  have "map Some (vals m) = map Some (vals n)"
    using vals_get [OF ok(1)] vals_get [OF ok(2)] keys eq by simp
  then have "vals m = vals n" by (simp add: inj_map_eq_map)
  with keys show ?thesis ..
qed

end

section \<open>The sorted association list\<close>

lemma bt_ok_Cons [simp]: "bt_ok ((k, v) # m) \<longleftrightarrow> (\<forall>a \<in> fst ` set m. k < a) \<and> bt_ok m"
  by (auto simp: bt_ok_def)

lemma bt_ok_Nil [simp]: "bt_ok []"
  by (simp add: bt_ok_def)

lemma fst_bt_insert: "fst ` set (bt_insert k v m) = insert k (fst ` set m)"
  by (induction k v m rule: bt_insert.induct) auto

lemma fst_bt_remove: "fst ` set (bt_remove k m) \<subseteq> fst ` set m"
  by (induction k m rule: bt_remove.induct) auto

lemma bt_ok_insert [simp]: "bt_ok m \<Longrightarrow> bt_ok (bt_insert k v m)"
proof (induction k v m rule: bt_insert.induct)
  case (2 k v a b m)
  have "\<forall>x \<in> fst ` set m. k < x" if "k < a" using 2 that by (auto intro: less_trans)
  moreover have "\<forall>x \<in> fst ` set (bt_insert k v m). a < x" if "\<not> k < a" "k \<noteq> a"
    unfolding fst_bt_insert using 2 that by simp
  ultimately show ?case using 2 by (cases "k = a"; cases "k < a") (simp_all del: ball_simps image_iff add: Ball_def)
qed simp

lemma bt_ok_remove [simp]: "bt_ok m \<Longrightarrow> bt_ok (bt_remove k m)"
proof (induction k m rule: bt_remove.induct)
  case (2 k a b m)
  have "\<forall>x \<in> fst ` set (bt_remove k m). a < x" if "\<forall>x \<in> fst ` set m. a < x"
    by (rule ballI) (rule bspec [OF that], rule subsetD [OF fst_bt_remove])
  with 2 show ?case by (cases "k = a") (simp_all del: ball_simps image_iff)
qed simp

lemma map_of_none: "\<forall>a \<in> fst ` set m. k < (a :: 'k::linorder) \<Longrightarrow> map_of m k = None"
  by (metis less_irrefl map_of_eq_None_iff)

lemma bt_get_insert: "bt_ok m \<Longrightarrow> bt_get (bt_insert k v m) j = (if j = k then Some v else bt_get m j)"
  by (induction k v m rule: bt_insert.induct) (auto simp: bt_get_def)

lemma bt_get_remove: "bt_ok m \<Longrightarrow> bt_get (bt_remove k m) j = (if j = k then None else bt_get m j)"
  by (induction k m rule: bt_remove.induct) (auto simp: bt_get_def map_of_none)

lemma bt_values_get: "bt_ok m \<Longrightarrow> map Some (bt_values m) = map (bt_get m) (bt_keys m)"
proof -
  assume "bt_ok m"
  then have "distinct (map fst m)" by (simp add: bt_ok_def strict_sorted_iff)
  then show ?thesis by (simp add: bt_values_def bt_keys_def bt_get_def)
qed

lemma bt_keys_get: "k \<in> set (bt_keys m) \<longleftrightarrow> bt_get m k \<noteq> None"
  by (simp add: bt_keys_def bt_get_def map_of_eq_None_iff)

lemma bt_keys_sorted: "bt_ok m \<Longrightarrow> sorted_wrt (<) (bt_keys m)"
  by (simp add: bt_ok_def bt_keys_def)

lemma bt_get_empty: "bt_ok bt_empty" "bt_get bt_empty k = None"
  by (simp_all add: bt_empty_def bt_get_def)

interpretation bt: ordered_map bt_ok bt_empty bt_get bt_insert bt_remove bt_keys bt_values
  by unfold_locales
    (rule bt_get_empty bt_ok_insert bt_ok_remove bt_get_insert bt_get_remove bt_keys_sorted
      bt_keys_get bt_values_get; assumption?)+

lemma bt_get_map_values [simp]: "bt_get (bt_map_values f m) k = map_option f (bt_get m k)"
  by (induction m) (auto simp: bt_get_def bt_map_values_def)

lemma bt_keys_map_values [simp]: "bt_keys (bt_map_values f m) = bt_keys m"
  by (simp add: bt_keys_def bt_map_values_def comp_def case_prod_unfold)

lemma bt_values_map_values [simp]: "bt_values (bt_map_values f m) = map f (bt_values m)"
  by (simp add: bt_values_def bt_map_values_def comp_def case_prod_unfold)

lemma bt_ok_map_values [simp]: "bt_ok (bt_map_values f m) = bt_ok m"
  using bt_keys_map_values [of f m] by (simp add: bt_ok_def bt_keys_def)

lemma bt_len_keys: "bt_len m = length (bt_keys m)"
  by (simp add: bt_len_def bt_keys_def)

lemma bt_len_values: "bt_len m = length (bt_values m)"
  by (simp add: bt_len_def bt_values_def)

lemma bt_vals_all: "bt_ok m \<Longrightarrow> bt.all_vals P m \<longleftrightarrow> list_all P (bt_values m)"
proof -
  assume ok: "bt_ok m"
  then have "distinct (map fst m)" by (simp add: bt_ok_def strict_sorted_iff)
  then show ?thesis
    by (auto simp: bt.all_vals_def bt_get_def bt_values_def list_all_iff)
qed

lemma all_vals_map_values: "bt.all_vals P m \<Longrightarrow> (\<And>v. P v \<Longrightarrow> P (f v)) \<Longrightarrow> bt.all_vals P (bt_map_values f m)"
  by (auto simp: bt.all_vals_def)

end
