(* ===== verification/Prelude.thy ===== *)
theory Prelude
  imports Complex_Main "HOL-Library.Word"
begin

text \<open>
  Shared material: the names of Rust's integer types, strings as their UTF-8 bytes, and generic
  lemmas on integers, lists and words that several components use.
\<close>

section \<open>Machine integers\<close>

type_synonym u8 = "8 word"
type_synonym u16 = "16 word"
type_synonym u32 = "32 word"
type_synonym u64 = "64 word"
type_synonym usize = "64 word"

text \<open>
  A Rust \<^verbatim>\<open>String\<close> is its UTF-8 bytes; Isabelle's \<open>char\<close> is an 8-bit byte, so an Isabelle
  \<open>string\<close> holds exactly those bytes.
\<close>

definition byte_of_char :: "char \<Rightarrow> u8" where
  "byte_of_char c = of_nat (of_char c)"

definition char_of_byte :: "u8 \<Rightarrow> char" where
  "char_of_byte b = char_of (unat b)"

definition bytes_of_string :: "string \<Rightarrow> u8 list" where
  "bytes_of_string s = map byte_of_char s"

definition string_of_bytes :: "u8 list \<Rightarrow> string" where
  "string_of_bytes bs = map char_of_byte bs"

lemma char_of_byte_of_char [simp]: "char_of_byte (byte_of_char c) = c"
  using nat_of_char_less_256 [of c]
  by (simp add: byte_of_char_def char_of_byte_def unat_of_nat)

lemma byte_of_char_of_byte [simp]: "byte_of_char (char_of_byte b) = b"
  using unsigned_less [of b, where 'a = nat]
  by (simp add: byte_of_char_def char_of_byte_def)

lemma string_of_bytes_of_string [simp]: "string_of_bytes (bytes_of_string s) = s"
  by (simp add: string_of_bytes_def bytes_of_string_def comp_def)

lemma bytes_of_string_of_bytes [simp]: "bytes_of_string (string_of_bytes bs) = bs"
  by (simp add: string_of_bytes_def bytes_of_string_def comp_def)

lemma length_bytes_of_string [simp]: "length (bytes_of_string s) = length s"
  by (simp add: bytes_of_string_def)

lemma length_string_of_bytes [simp]: "length (string_of_bytes bs) = length bs"
  by (simp add: string_of_bytes_def)

section \<open>Bit length\<close>

text \<open>The number of binary digits of a non-negative integer.\<close>

function nbits :: "int \<Rightarrow> nat" where
  "nbits n = (if n \<le> 0 then 0 else Suc (nbits (n div 2)))"
  by pat_completeness auto
termination
  by (relation "measure nat") auto

declare nbits.simps [simp del]

text \<open>On numerals the length is read off the binary representation, with no division.\<close>

primrec num_bits :: "num \<Rightarrow> int" where
  "num_bits num.One = 1"
| "num_bits (num.Bit0 k) = num_bits k + 1"
| "num_bits (num.Bit1 k) = num_bits k + 1"

lemma num_bits_pos: "0 < num_bits k"
  by (induction k) simp_all

lemma nbits_numeral [simp]:
  "nbits 0 = 0" "nbits 1 = 1" "nbits (numeral k) = nat (num_bits k)"
proof -
  show "nbits 0 = 0" "nbits 1 = 1" by (simp_all add: nbits.simps [of 0] nbits.simps [of 1])
  then show "nbits (numeral k) = nat (num_bits k)"
  proof (induction k)
    case (Bit0 k)
    then show ?case using num_bits_pos [of k]
      by (simp add: nbits.simps [of "numeral (num.Bit0 k)"] nat_add_distrib)
  next
    case (Bit1 k)
    then show ?case using num_bits_pos [of k]
      by (simp add: nbits.simps [of "numeral (num.Bit1 k)"] nat_add_distrib)
  qed simp
qed

lemma nbits_0_iff [simp]: "nbits n = 0 \<longleftrightarrow> n \<le> 0"
  by (subst nbits.simps) simp

lemma nbits_upper: "n < 2 ^ nbits n"
proof (induction n rule: nbits.induct)
  case (1 n)
  show ?case
  proof (cases "n \<le> 0")
    case True
    then show ?thesis by (simp add: nbits.simps [of n])
  next
    case False
    with "1" have "n div 2 < 2 ^ nbits (n div 2)" by simp
    then have "n < 2 * 2 ^ nbits (n div 2)" by linarith
    with False show ?thesis by (simp add: nbits.simps [of n])
  qed
qed

lemma nbits_lower: "0 < n \<Longrightarrow> 2 ^ (nbits n - 1) \<le> n"
proof (induction n rule: nbits.induct)
  case (1 n)
  show ?case
  proof (cases "n = 1")
    case False
    with "1" have pos: "0 < n div 2" and IH: "2 ^ (nbits (n div 2) - 1) \<le> n div 2" by auto
    from pos obtain m where "nbits (n div 2) = Suc m"
      using nbits_0_iff [of "n div 2"] by (cases "nbits (n div 2)") (auto simp del: nbits_0_iff)
    with IH have "2 ^ nbits (n div 2) \<le> n" by simp
    with "1.prems" show ?thesis by (simp add: nbits.simps [of n])
  qed simp
qed

lemma nbits_le_iff: "0 \<le> n \<Longrightarrow> nbits n \<le> k \<longleftrightarrow> n < 2 ^ k"
proof
  assume "nbits n \<le> k"
  then have "(2::int) ^ nbits n \<le> 2 ^ k" by simp
  then show "n < 2 ^ k" using nbits_upper [of n] by linarith
next
  assume n: "0 \<le> n" "n < 2 ^ k"
  show "nbits n \<le> k"
  proof (cases "n = 0")
    case False
    with n have "2 ^ (nbits n - 1) \<le> n" using nbits_lower [of n] by simp
    with n have "(2::int) ^ (nbits n - 1) < 2 ^ k" by linarith
    then have "nbits n - 1 < k" by simp
    then show ?thesis by simp
  qed simp
qed

lemma nbits_mono: "m \<le> n \<Longrightarrow> nbits m \<le> nbits n"
proof (cases "m \<le> 0")
  case False
  assume "m \<le> n"
  then have "m < 2 ^ nbits n" using nbits_upper [of n] by linarith
  with False show ?thesis by (simp add: nbits_le_iff)
qed (simp add: nbits.simps [of m])

lemma nbits_shift: "0 < m \<Longrightarrow> nbits (m * 2 ^ k) = nbits m + k"
proof (induction k)
  case (Suc k)
  then have "m * 2 ^ Suc k div 2 = m * 2 ^ k" by simp
  moreover from Suc.prems have "0 < m * 2 ^ Suc k" by simp
  ultimately have "nbits (m * 2 ^ Suc k) = Suc (nbits (m * 2 ^ k))"
    by (subst nbits.simps) (simp del: power_Suc)
  with Suc show ?case by simp
qed simp

end
