(* ===== verification/Utf8.thy ===== *)
theory Utf8
  imports Prelude
begin

text \<open>
  UTF-8 as \<^verbatim>\<open>core::str::from_utf8\<close> accepts it: \<open>utf8_ok\<close> is the byte-range automaton of the
  standard library, \<open>utf8_encode\<close> the encoder of one Unicode scalar value. The main lemma says
  that the automaton accepts exactly the encodings of sequences of scalar values.
\<close>

section \<open>The validator\<close>

definition byte_in :: "nat \<Rightarrow> nat \<Rightarrow> u8 \<Rightarrow> bool" where
  "byte_in lo hi b \<longleftrightarrow> lo \<le> unat b \<and> unat b \<le> hi"

definition cont_byte :: "u8 \<Rightarrow> bool" where
  "cont_byte b \<longleftrightarrow> byte_in 0x80 0xBF b"

text \<open>The admissible second bytes after a three- or four-byte lead byte.\<close>

definition second3 :: "u8 \<Rightarrow> u8 \<Rightarrow> bool" where
  "second3 a b \<longleftrightarrow>
     (if unat a = 0xE0 then byte_in 0xA0 0xBF b
      else if unat a = 0xED then byte_in 0x80 0x9F b else cont_byte b)"

definition second4 :: "u8 \<Rightarrow> u8 \<Rightarrow> bool" where
  "second4 a b \<longleftrightarrow>
     (if unat a = 0xF0 then byte_in 0x90 0xBF b
      else if unat a = 0xF4 then byte_in 0x80 0x8F b else cont_byte b)"

fun utf8_ok :: "u8 list \<Rightarrow> bool" where
  "utf8_ok [] = True"
| "utf8_ok (a # bs) =
     (if unat a < 0x80 then utf8_ok bs
      else case bs of [] \<Rightarrow> False
      | b # cs \<Rightarrow>
        if byte_in 0xC2 0xDF a then cont_byte b \<and> utf8_ok cs
        else case cs of [] \<Rightarrow> False
        | c # ds \<Rightarrow>
          if byte_in 0xE0 0xEF a then second3 a b \<and> cont_byte c \<and> utf8_ok ds
          else case ds of [] \<Rightarrow> False
          | d # es \<Rightarrow> byte_in 0xF0 0xF4 a \<and> second4 a b \<and> cont_byte c \<and> cont_byte d \<and> utf8_ok es)"

section \<open>The encoder\<close>

definition scalar_value :: "nat \<Rightarrow> bool" where
  "scalar_value c \<longleftrightarrow> c < 0x110000 \<and> \<not> (0xD800 \<le> c \<and> c \<le> 0xDFFF)"

definition mk_byte :: "nat \<Rightarrow> u8" where
  "mk_byte n = of_nat n"

definition utf8_encode :: "nat \<Rightarrow> u8 list" where
  "utf8_encode c =
     (if c < 0x80 then [mk_byte c]
      else if c < 0x800 then [mk_byte (0xC0 + c div 64), mk_byte (0x80 + c mod 64)]
      else if c < 0x10000 then
        [mk_byte (0xE0 + c div 4096), mk_byte (0x80 + c div 64 mod 64), mk_byte (0x80 + c mod 64)]
      else [mk_byte (0xF0 + c div 262144), mk_byte (0x80 + c div 4096 mod 64),
            mk_byte (0x80 + c div 64 mod 64), mk_byte (0x80 + c mod 64)])"

lemma unat_byte: "n < 256 \<Longrightarrow> unat (mk_byte n) = n"
  by (simp add: mk_byte_def unat_of_nat)

lemma byte_eqI: "unat a = n \<Longrightarrow> mk_byte n = a"
  by (auto simp: mk_byte_def)

lemma mod64_le: "n mod 64 \<le> (63::nat)"
  using mod_less_divisor [of 64 n] by linarith

lemma div_4096: "n div 4096 = n div 64 div (64::nat)" and div_262144: "n div 262144 = n div 64 div 64 div (64::nat)"
  by (simp_all add: div_mult2_eq [symmetric])

section \<open>Encodings are accepted\<close>

lemma utf8_ok_encode: "scalar_value c \<Longrightarrow> utf8_ok (utf8_encode c @ bs) = utf8_ok bs"
proof -
  assume c: "scalar_value c"
  consider "c < 0x80" | "0x80 \<le> c" "c < 0x800" | "0x800 \<le> c" "c < 0x10000" | "0x10000 \<le> c" by linarith
  then show ?thesis
  proof cases
    case 1
    then show ?thesis by (simp add: utf8_encode_def unat_byte)
  next
    case 2
    then have "c div 64 < 32" "2 \<le> c div 64" by simp_all
    with 2 show ?thesis by (simp add: utf8_encode_def unat_byte byte_in_def cont_byte_def mod64_le)
  next
    case 3
    have a: "c div 4096 < 16" using 3 by simp
    have dm: "c div 64 = c div 4096 * 64 + c div 64 mod 64"
      using div_mult_mod_eq [of "c div 64" 64] by (simp add: div_4096)
    have low: "0x20 \<le> c div 64 mod 64" if "c div 4096 = 0" using 3 that dm by linarith
    have sur: "c div 64 mod 64 \<le> 0x1F" if "c div 4096 = 0xD"
      using c that dm unfolding scalar_value_def by linarith
    define x y z where xyz: "x = c div 4096" "y = c div 64 mod 64" "z = c mod 64"
    have e: "utf8_encode c = [mk_byte (0xE0 + x), mk_byte (0x80 + y), mk_byte (0x80 + z)]"
      using 3 by (simp add: utf8_encode_def xyz)
    have "x < 16" "y \<le> 63" "z \<le> 63" "x = 0 \<longrightarrow> 0x20 \<le> y" "x = 0xD \<longrightarrow> y \<le> 0x1F"
      using a low sur by (simp_all add: xyz mod64_le)
    then show ?thesis unfolding e
      by (auto simp: unat_byte byte_in_def cont_byte_def second3_def)
  next
    case 4
    have a: "c div 262144 < 5" using c unfolding scalar_value_def by linarith
    have dm: "c div 4096 = c div 262144 * 64 + c div 4096 mod 64"
      using div_mult_mod_eq [of "c div 4096" 64] by (simp add: div_4096 div_262144)
    have low: "0x10 \<le> c div 4096 mod 64" if "c div 262144 = 0" using 4 that dm by linarith
    have high: "c div 4096 mod 64 \<le> 0xF" if "c div 262144 = 4"
      using c that dm unfolding scalar_value_def by linarith
    define x y z w where xyz: "x = c div 262144" "y = c div 4096 mod 64" "z = c div 64 mod 64" "w = c mod 64"
    have e: "utf8_encode c = [mk_byte (0xF0 + x), mk_byte (0x80 + y), mk_byte (0x80 + z), mk_byte (0x80 + w)]"
      using 4 by (simp add: utf8_encode_def xyz)
    have "x < 5" "y \<le> 63" "z \<le> 63" "w \<le> 63" "x = 0 \<longrightarrow> 0x10 \<le> y" "x = 4 \<longrightarrow> y \<le> 0xF"
      using a low high by (simp_all add: xyz mod64_le)
    then show ?thesis unfolding e
      by (auto simp: unat_byte byte_in_def cont_byte_def second4_def)
  qed
qed

lemma utf8_ok_encodes:
  "(\<And>c. c \<in> set cps \<Longrightarrow> scalar_value c) \<Longrightarrow> utf8_ok (concat (map utf8_encode cps))"
  by (induction cps) (simp_all add: utf8_ok_encode)

section \<open>Accepted bytes are encodings\<close>

lemma digit64: "y < 64 \<Longrightarrow> (q * 64 + y) div 64 = (q::nat)" "y < 64 \<Longrightarrow> (q * 64 + y) mod 64 = y"
  by simp_all

lemma decode2:
  assumes "byte_in 0xC2 0xDF a" "cont_byte b"
  shows "\<exists>c. scalar_value c \<and> utf8_encode c = [a, b]"
proof (intro exI conjI)
  define x y where "x = unat a - 0xC0" and "y = unat b - 0x80"
  let ?c = "x * 64 + y"
  have r: "unat a = 0xC0 + x" "unat b = 0x80 + y" "x < 32" "y < 64" "2 \<le> x"
    using assms by (auto simp: byte_in_def cont_byte_def x_def y_def)
  note d = digit64 [OF r(4)]
  have b: "0x80 \<le> ?c" "?c < 0x800" using r(3-5) by linarith+
  show "scalar_value ?c" using b by (simp add: scalar_value_def)
  show "utf8_encode ?c = [a, b]" using b r(1,2) unfolding utf8_encode_def d by (simp add: byte_eqI)
qed

lemma decode3:
  assumes "byte_in 0xE0 0xEF a" "second3 a b" "cont_byte c"
  shows "\<exists>n. scalar_value n \<and> utf8_encode n = [a, b, c]"
proof (intro exI conjI)
  define x y z where "x = unat a - 0xE0" and "y = unat b - 0x80" and "z = unat c - 0x80"
  let ?c = "(x * 64 + y) * 64 + z"
  have r: "unat a = 0xE0 + x" "unat b = 0x80 + y" "unat c = 0x80 + z" "x < 16" "y < 64" "z < 64"
    "x = 0 \<Longrightarrow> 0x20 \<le> y" "x = 0xD \<Longrightarrow> y < 0x20"
    using assms
    by (auto simp: byte_in_def cont_byte_def second3_def x_def y_def z_def split: if_splits)
  have d: "?c div 4096 = x" "?c div 64 mod 64 = y" "?c mod 64 = z"
    unfolding div_4096 by (simp_all only: digit64 r)
  have b: "0x800 \<le> ?c" "?c < 0x10000" using r(4-7) by (cases "x = 0", auto)
  have "\<not> (0xD800 \<le> ?c \<and> ?c \<le> 0xDFFF)"
  proof (cases "x = 0xD")
    case True
    then show ?thesis using r(5-8) by simp
  next
    case False
    then have "x \<le> 12 \<or> 14 \<le> x" by linarith
    then show ?thesis using r(5,6) by auto
  qed
  then show "scalar_value ?c" using b by (simp add: scalar_value_def)
  show "utf8_encode ?c = [a, b, c]" using b r(1-3) unfolding utf8_encode_def d by (simp add: byte_eqI)
qed

lemma decode4:
  assumes "byte_in 0xF0 0xF4 a" "second4 a b" "cont_byte c" "cont_byte d"
  shows "\<exists>n. scalar_value n \<and> utf8_encode n = [a, b, c, d]"
proof (intro exI conjI)
  define x y z w where "x = unat a - 0xF0" and "y = unat b - 0x80"
    and "z = unat c - 0x80" and "w = unat d - 0x80"
  let ?c = "((x * 64 + y) * 64 + z) * 64 + w"
  have r: "unat a = 0xF0 + x" "unat b = 0x80 + y" "unat c = 0x80 + z" "unat d = 0x80 + w"
    "x < 5" "y < 64" "z < 64" "w < 64" "x = 0 \<Longrightarrow> 0x10 \<le> y" "x = 4 \<Longrightarrow> y < 0x10"
    using assms
    by (auto simp: byte_in_def cont_byte_def second4_def x_def y_def z_def w_def split: if_splits)
  have d: "?c div 262144 = x" "?c div 4096 mod 64 = y" "?c div 64 mod 64 = z" "?c mod 64 = w"
    unfolding div_4096 div_262144 by (simp_all only: digit64 r)
  have b: "0x10000 \<le> ?c" using r(5,6,9) by (cases "x = 0") simp_all
  have "?c < 0x110000"
  proof (cases "x = 4")
    case True
    then show ?thesis using r(7,8,10) by simp
  next
    case False
    then show ?thesis using r(5-8) by simp
  qed
  then show "scalar_value ?c" using b by (simp add: scalar_value_def)
  show "utf8_encode ?c = [a, b, c, d]" using b r(1-4) unfolding utf8_encode_def d by (simp add: byte_eqI)
qed

lemma utf8_ok_decompose:
  "utf8_ok bs \<Longrightarrow> \<exists>cps. (\<forall>c \<in> set cps. scalar_value c) \<and> bs = concat (map utf8_encode cps)"
proof (induction bs rule: utf8_ok.induct)
  case 1
  show ?case by (rule exI [of _ "[]"]) simp
next
  case (2 a bs)
  have add: "\<exists>cps. (\<forall>c \<in> set cps. scalar_value c) \<and> a # bs = concat (map utf8_encode cps)"
    if "scalar_value c" "a # bs = utf8_encode c @ rest"
      "\<exists>cps. (\<forall>c \<in> set cps. scalar_value c) \<and> rest = concat (map utf8_encode cps)" for c rest
  proof -
    from that(3) obtain cps where "\<forall>c \<in> set cps. scalar_value c" "rest = concat (map utf8_encode cps)"
      by blast
    with that(1,2) show ?thesis by (intro exI [of _ "c # cps"]) simp
  qed
  show ?case
  proof (cases "unat a < 0x80")
    case True
    then have "scalar_value (unat a)" "utf8_encode (unat a) = [a]"
      by (simp_all add: scalar_value_def utf8_encode_def byte_eqI)
    with True "2" show ?thesis by (intro add [of "unat a" bs]) simp_all
  next
    case F1: False
    with "2.prems" obtain b cs where bs: "bs = b # cs" by (auto split: list.splits)
    show ?thesis
    proof (cases "byte_in 0xC2 0xDF a")
      case True
      with F1 "2.prems" bs have "cont_byte b" "utf8_ok cs" by simp_all
      with True decode2 obtain c where "scalar_value c" "utf8_encode c = [a, b]" by blast
      with "2.IH"(2) [OF F1 bs True] \<open>utf8_ok cs\<close> bs show ?thesis by (intro add [of c cs]) simp_all
    next
      case F2: False
      with F1 "2.prems" bs obtain c ds where cs: "cs = c # ds" by (auto split: list.splits)
      show ?thesis
      proof (cases "byte_in 0xE0 0xEF a")
        case True
        with F1 F2 "2.prems" bs cs have "second3 a b" "cont_byte c" "utf8_ok ds" by simp_all
        with True decode3 obtain n where "scalar_value n" "utf8_encode n = [a, b, c]" by blast
        with "2.IH"(3) [OF F1 bs F2 cs True] \<open>utf8_ok ds\<close> bs cs show ?thesis
          by (intro add [of n ds]) simp_all
      next
        case F3: False
        with F1 F2 "2.prems" bs cs obtain d es where ds: "ds = d # es" by (auto split: list.splits)
        with F1 F2 F3 "2.prems" bs cs have ok: "byte_in 0xF0 0xF4 a" "second4 a b" "cont_byte c"
          "cont_byte d" "utf8_ok es" by simp_all
        with decode4 obtain n where "scalar_value n" "utf8_encode n = [a, b, c, d]" by blast
        with "2.IH"(4) [OF F1 bs F2 cs F3 ds] ok bs cs ds show ?thesis
          by (intro add [of n es]) simp_all
      qed
    qed
  qed
qed

lemma utf8_ok_iff:
  "utf8_ok bs \<longleftrightarrow> (\<exists>cps. (\<forall>c \<in> set cps. scalar_value c) \<and> bs = concat (map utf8_encode cps))"
  using utf8_ok_decompose utf8_ok_encodes by blast

end
