(* ===== verification/Float_Round.thy ===== *)
theory Float_Round
  imports Prelude
begin

text \<open>
  Rounding of a non-negative rational \<open>n / d\<close> to the nearest integer with at most \<open>p\<close>
  significant bits, ties to even: the one rounding that every IEEE 754 operation of the Rust
  code performs. Magnitudes are integers that count units in the last place of the format's
  smallest subnormal, so the gradual underflow of the format is the plain integer grid here.
\<close>

section \<open>Nearest-even integer division\<close>

lemma int_le_div_iff: "0 < d \<Longrightarrow> k \<le> n div d \<longleftrightarrow> k * d \<le> (n::int)"
proof
  assume d: "0 < d" and "k \<le> n div d"
  then have "k * d \<le> n div d * d" by (simp add: mult_right_mono)
  also have "\<dots> \<le> n" using d by (simp add: minus_mod_eq_div_mult [symmetric])
  finally show "k * d \<le> n" .
next
  assume d: "0 < d" and k: "k * d \<le> n"
  from zdiv_mono1 [OF k d] d show "k \<le> n div d" by simp
qed

lemma int_div_less_iff: "0 < d \<Longrightarrow> n div d < k \<longleftrightarrow> (n::int) < k * d"
  using int_le_div_iff [of d k n] by (simp add: linorder_not_le [symmetric])

definition rne :: "int \<Rightarrow> int \<Rightarrow> int" where
  "rne n d = (let q = n div d; r = n mod d in
     if 2 * r < d then q else if d < 2 * r then q + 1 else if even q then q else q + 1)"

lemma rne_bounds: "n div d \<le> rne n d" "rne n d \<le> n div d + 1"
  by (simp_all add: rne_def Let_def)

lemma rne_exact: "0 < d \<Longrightarrow> d dvd n \<Longrightarrow> rne n d = n div d"
  by (auto simp: rne_def Let_def)

lemma rne_ge: "0 < d \<Longrightarrow> k * d \<le> n \<Longrightarrow> k \<le> rne n d"
using rne_bounds(1) [of n d] by (auto simp: int_le_div_iff [symmetric])

lemma rne_le: "0 < d \<Longrightarrow> n \<le> k * d \<Longrightarrow> rne n d \<le> k"
proof (cases "n = k * d")
  case False
  assume d: "0 < d" and "n \<le> k * d"
  with False have "n < k * d" by simp
  then have "n div d < k" using d by (simp add: int_div_less_iff)
  then show ?thesis using rne_bounds(2) [of n d] by linarith
qed (simp add: rne_exact)

lemma rne_nonneg: "0 < d \<Longrightarrow> 0 \<le> n \<Longrightarrow> 0 \<le> rne n d"
  using rne_ge [of d 0 n] by simp

lemma rne_error: "0 < d \<Longrightarrow> \<bar>2 * n - 2 * (rne n d * d)\<bar> \<le> d"
proof -
  assume d: "0 < d"
  define q r where qr: "q = n div d" "r = n mod d"
  have n: "n = q * d + r" by (simp add: qr)
  have r: "0 \<le> r" "r < d" using d by (simp_all add: qr)
  have "rne n d = q \<and> 2 * r \<le> d \<or> rne n d = q + 1 \<and> d \<le> 2 * r"
    by (auto simp: rne_def Let_def qr)
  then show ?thesis using r by (auto simp: n algebra_simps abs_le_iff)
qed

lemma cross_div_le:
  fixes n d n' d' :: int
  assumes "0 < d" "0 < d'" "n * d' \<le> n' * d"
  shows "n div d \<le> n' div d'"
proof -
  have "n div d = (n * d') div (d * d')" using assms(2) by simp
  also have "\<dots> \<le> (n' * d) div (d * d')" using assms by (intro zdiv_mono1) simp_all
  also have "\<dots> = n' div d'" using assms(1) by (simp add: mult.commute)
  finally show ?thesis .
qed

lemma rne_mono:
  assumes d: "0 < d" "0 < d'" and le: "n * d' \<le> n' * d"
  shows "rne n d \<le> rne n' d'"
proof (cases "n div d = n' div d'")
  case False
  with cross_div_le [OF d le] have "n div d + 1 \<le> n' div d'" by simp
  then show ?thesis using rne_bounds [of n d] rne_bounds [of n' d'] by linarith
next
  case True
  define q r r' where q: "q = n div d" and r: "r = n mod d" and r': "r' = n' mod d'"
  have n: "n = q * d + r" "n' = q * d' + r'"
    using div_mult_mod_eq [of n d] div_mult_mod_eq [of n' d'] True by (simp_all add: q r r')
  from le have cross: "r * d' \<le> r' * d" by (simp add: n algebra_simps)
  have up: "d' < 2 * r'" if "d < 2 * r"
  proof -
    from that d have "d * d' < (2 * r) * d'" by simp
    with cross have "d' * d < (2 * r') * d" by (simp add: algebra_simps)
    then show ?thesis using d by simp
  qed
  have tie: "d' \<le> 2 * r'" if "d \<le> 2 * r"
  proof -
    from that d have "d * d' \<le> (2 * r) * d'" by simp
    with cross have "d' * d \<le> (2 * r') * d" by (simp add: algebra_simps)
    then show ?thesis using d by simp
  qed
  show ?thesis using up tie True
    by (auto simp: rne_def Let_def q [symmetric] r [symmetric] r' [symmetric])
qed

section \<open>Numbers with at most p significant bits\<close>

definition pdig :: "nat \<Rightarrow> int \<Rightarrow> bool" where
  "pdig p k \<longleftrightarrow> 0 \<le> k \<and> 2 ^ (nbits k - p) dvd k"

lemma pdig_nonneg: "pdig p k \<Longrightarrow> 0 \<le> k"
  by (simp add: pdig_def)

lemma pdig_0 [simp]: "pdig p 0"
  by (simp add: pdig_def)

lemma pdig_mult_power:
  assumes "0 \<le> m" "m \<le> 2 ^ p" "0 < p"
  shows "pdig p (m * 2 ^ e)"
proof (cases "m = 0 \<or> m = 2 ^ p")
  case True
  then show ?thesis
  proof
    assume "m = 2 ^ p"
    then have "nbits (m * 2 ^ e) - p = Suc e"
      using nbits_shift [of 1 "p + e"] by (simp add: power_add)
    moreover from \<open>m = 2 ^ p\<close> assms(3) have "(2::int) ^ Suc e dvd m * 2 ^ e"
      by (cases p) simp_all
    ultimately show ?thesis using assms(1) by (simp add: pdig_def)
  qed simp
next
  case False
  with assms have m: "0 < m" "m < 2 ^ p" by auto
  then have "nbits m \<le> p" by (simp add: nbits_le_iff)
  then have "(2::int) ^ (nbits (m * 2 ^ e) - p) dvd 2 ^ e"
    by (intro le_imp_power_dvd) (simp add: nbits_shift m)
  then show ?thesis using m by (auto simp: pdig_def intro: dvd_trans)
qed

lemma pdig_small: "0 \<le> k \<Longrightarrow> k \<le> 2 ^ p \<Longrightarrow> 0 < p \<Longrightarrow> pdig p k"
  using pdig_mult_power [of k p 0] by simp

lemma pdig_power: "0 < p \<Longrightarrow> pdig p (2 ^ e)"
  using pdig_mult_power [of 1 p e] by simp

section \<open>Rounding to p significant bits\<close>

definition round_units :: "nat \<Rightarrow> int \<Rightarrow> int \<Rightarrow> int" where
  "round_units p n d = (let e = nbits (n div d) - p in rne n (d * 2 ^ e) * 2 ^ e)"

lemma round_units_exact:
  assumes "0 < d" "pdig p k"
  shows "round_units p (k * d) d = k"
proof -
  let ?e = "nbits k - p"
  from assms(2) have "2 ^ ?e dvd k" by (simp add: pdig_def)
  then obtain m where m: "k = m * 2 ^ ?e" by (metis dvdE mult.commute)
  then have eq: "k * d = m * (d * 2 ^ ?e)" by simp
  have "rne (m * (d * 2 ^ ?e)) (d * 2 ^ ?e) = m"
    using assms(1) by (subst rne_exact) simp_all
  then have "rne (k * d) (d * 2 ^ ?e) = m" by (simp only: eq)
  then show ?thesis using assms(1) m by (simp add: round_units_def Let_def)
qed

lemma round_units_exact1: "pdig p k \<Longrightarrow> round_units p k 1 = k"
  using round_units_exact [of 1 p k] by simp

lemma round_units_nonneg: "0 < d \<Longrightarrow> 0 \<le> n \<Longrightarrow> 0 \<le> round_units p n d"
  by (simp add: round_units_def Let_def rne_nonneg)

lemma round_units_significand:
  assumes d: "0 < d" and n: "0 \<le> n" and e_def: "e = nbits (n div d) - p"
  shows "rne n (d * 2 ^ e) \<le> 2 ^ p"
    and "e = 0 \<or> (0 < p \<longrightarrow> 2 ^ (p - 1) \<le> rne n (d * 2 ^ e))"
proof -
  have q0: "0 \<le> n div d" using d n by (simp add: pos_imp_zdiv_nonneg_iff)
  have "n div d < 2 ^ (p + e)" using q0 by (simp add: nbits_le_iff [symmetric] e_def)
  then have "n < 2 ^ (p + e) * d" using d by (simp add: int_div_less_iff)
  then have "n \<le> 2 ^ p * (d * 2 ^ e)" by (simp add: power_add algebra_simps)
  then show "rne n (d * 2 ^ e) \<le> 2 ^ p" using d by (intro rne_le) simp_all
  show "e = 0 \<or> (0 < p \<longrightarrow> 2 ^ (p - 1) \<le> rne n (d * 2 ^ e))"
  proof (cases "e = 0")
    case False
    then have e: "nbits (n div d) = p + e" by (simp add: e_def)
    then have "n div d \<noteq> 0" using False by auto
    with q0 have "2 ^ (p + e - 1) \<le> n div d" using nbits_lower [of "n div d"] e by simp
    then have "2 ^ (p + e - 1) * d \<le> n" using d
      by (simp add: int_le_div_iff)
    moreover have "0 < p \<Longrightarrow> (2::int) ^ (p + e - 1) = 2 ^ (p - 1) * 2 ^ e"
      using False by (cases p) (simp_all add: power_add)
    ultimately have "0 < p \<Longrightarrow> 2 ^ (p - 1) * (d * 2 ^ e) \<le> n" by (simp add: algebra_simps)
    then show ?thesis using d by (auto intro: rne_ge)
  qed simp
qed

lemma pdig_round_units:
  "0 < d \<Longrightarrow> 0 \<le> n \<Longrightarrow> 0 < p \<Longrightarrow> pdig p (round_units p n d)"
  using round_units_significand(1) [of d n "nbits (n div d) - p" p]
  by (simp add: round_units_def Let_def pdig_mult_power rne_nonneg)


lemma round_units_mono:
  assumes d: "0 < d" "0 < d'" and n: "0 \<le> n" "0 \<le> n'" and le: "n * d' \<le> n' * d" and p: "0 < p"
  shows "round_units p n d \<le> round_units p n' d'"
proof -
  define e where "e = nbits (n div d) - p"
  define e' where "e' = nbits (n' div d') - p"
  define m where "m = rne n (d * 2 ^ e)"
  define m' where "m' = rne n' (d' * 2 ^ e')"
  have "n div d \<le> n' div d'" by (rule cross_div_le [OF d le])
  then have ee: "e \<le> e'" by (simp add: e_def e'_def nbits_mono diff_le_mono)
  have "m * 2 ^ e \<le> m' * 2 ^ e'"
  proof (cases "e = e'")
    case True
    from le have "n * (d' * 2 ^ e) \<le> n' * (d * 2 ^ e)" by (simp add: algebra_simps)
    then have "m \<le> m'" using d True unfolding m_def m'_def by (intro rne_mono) simp_all
    with True show ?thesis by simp
  next
    case False
    with ee have lt: "e < e'" by simp
    have "m * 2 ^ e \<le> 2 ^ p * 2 ^ e"
      using round_units_significand(1) [OF d(1) n(1) e_def] by (simp add: m_def)
    also have "\<dots> = 2 ^ (p + e)" by (simp add: power_add)
    also have "\<dots> \<le> 2 ^ (p - 1 + e')" using lt p by (intro power_increasing) simp_all
    also have "\<dots> = 2 ^ (p - 1) * 2 ^ e'" by (simp add: power_add)
    also have "\<dots> \<le> m' * 2 ^ e'"
      using round_units_significand(2) [OF d(2) n(2) e'_def] lt p by (simp add: m'_def)
    finally show ?thesis .
  qed
  then show ?thesis by (simp add: round_units_def Let_def e_def e'_def m_def m'_def)
qed

text \<open>
  Comparing with a representable bound: rounding never crosses it. Most range proofs about the
  game state use only these two facts.
\<close>

lemma round_units_le:
  "0 < d \<Longrightarrow> 0 \<le> n \<Longrightarrow> 0 < p \<Longrightarrow> pdig p k \<Longrightarrow> n \<le> k * d \<Longrightarrow> round_units p n d \<le> k"
  using round_units_mono [of d 1 n k p] by (simp add: round_units_exact1 pdig_nonneg)

lemma round_units_ge:
  "0 < d \<Longrightarrow> 0 < p \<Longrightarrow> pdig p k \<Longrightarrow> k * d \<le> n \<Longrightarrow> k \<le> round_units p n d"
  using round_units_mono [of 1 d k n p] pdig_nonneg [of p k]
  by (simp add: round_units_exact1) (meson mult_nonneg_nonneg order.trans less_imp_le)

text \<open>Rounding a multiple of \<open>2 ^ j\<close> units gives a multiple of \<open>2 ^ j\<close> units.\<close>

lemma round_units_grid:
  assumes d: "0 < d" and j: "2 ^ j * d dvd n"
  shows "2 ^ j dvd round_units p n d"
proof (cases "j \<le> nbits (n div d) - p")
  case True
  then show ?thesis by (auto simp: round_units_def Let_def le_imp_power_dvd intro: dvd_mult)
next
  case False
  let ?e = "nbits (n div d) - p"
  from j obtain t where t: "n = 2 ^ j * d * t" by blast
  from False have "(2::int) ^ j = 2 ^ (j - ?e) * 2 ^ ?e" by (simp flip: power_add)
  then have n: "n = (2 ^ (j - ?e) * t) * (d * 2 ^ ?e)" by (simp add: t)
  have "rne n (d * 2 ^ ?e) = n div (d * 2 ^ ?e)" using d
    by (intro rne_exact) (simp, metis n dvd_triv_right)
  also have "\<dots> = 2 ^ (j - ?e) * t" using d by (subst n) simp
  finally have "round_units p n d = 2 ^ j * t" using False
    by (simp add: round_units_def Let_def) (simp flip: power_add)
  then show ?thesis by simp
qed

text \<open>The error is at most half a unit in the last place of the result.\<close>

lemma round_units_error:
  "0 < d \<Longrightarrow> \<bar>2 * n - 2 * (round_units p n d * d)\<bar> \<le> d * 2 ^ (nbits (n div d) - p)"
  using rne_error [of "d * 2 ^ (nbits (n div d) - p)" n]
  by (simp add: round_units_def Let_def algebra_simps)

end
