(* ===== verification/Float_Ops.thy ===== *)
theory Float_Ops
  imports Float_Round
begin

text \<open>
  IEEE 754 binary arithmetic as Rust's \<^verbatim>\<open>f32\<close> and \<^verbatim>\<open>f64\<close> use it, over a format description. A
  finite value is a sign and a magnitude counted in units of the smallest subnormal
  (\<open>2\<^sup>-\<^sup>1\<^sup>4\<^sup>9\<close> for \<^verbatim>\<open>f32\<close>, \<open>2\<^sup>-\<^sup>1\<^sup>0\<^sup>7\<^sup>4\<close> for \<^verbatim>\<open>f64\<close>), so addition and remainder are integer
  operations and every rounding is \<^const>\<open>round_units\<close>. The result of an invalid operation is the
  one value \<open>NaN\<close>; Rust leaves the sign and payload of such a NaN unspecified.
\<close>

section \<open>Formats and values\<close>

record float_fmt =
  frac_bits :: nat
  exp_lim :: nat
  unit_bits :: nat

definition F32 :: float_fmt where
  "F32 = \<lparr>frac_bits = 23, exp_lim = 254, unit_bits = 149\<rparr>"

definition F64 :: float_fmt where
  "F64 = \<lparr>frac_bits = 52, exp_lim = 2046, unit_bits = 1074\<rparr>"

definition prec :: "float_fmt \<Rightarrow> nat" where
  "prec F = Suc (frac_bits F)"

definition funit :: "float_fmt \<Rightarrow> int" where
  "funit F = 2 ^ unit_bits F"

definition flimit :: "float_fmt \<Rightarrow> int" where
  "flimit F = 2 ^ (frac_bits F + exp_lim F)"

lemma F32_simps [simp]:
  "frac_bits F32 = 23" "exp_lim F32 = 254" "unit_bits F32 = 149" "prec F32 = 24"
  by (simp_all add: F32_def prec_def)

lemma F64_simps [simp]:
  "frac_bits F64 = 52" "exp_lim F64 = 2046" "unit_bits F64 = 1074" "prec F64 = 53"
  by (simp_all add: F64_def prec_def)

datatype fval = NaN | Infty bool | Fin bool int

fun fv_ok :: "float_fmt \<Rightarrow> fval \<Rightarrow> bool" where
  "fv_ok F (Fin s k) \<longleftrightarrow> pdig (prec F) k \<and> k < flimit F"
| "fv_ok F x \<longleftrightarrow> True"

fun is_fin :: "fval \<Rightarrow> bool" where
  "is_fin (Fin s k) = True"
| "is_fin x = False"

fun units :: "fval \<Rightarrow> int" where
  "units (Fin s k) = (if s then - k else k)"
| "units x = 0"

section \<open>Bit patterns\<close>

definition mag_bits :: "float_fmt \<Rightarrow> int \<Rightarrow> int" where
  "mag_bits F k = (let e = nbits k - prec F in int e * 2 ^ frac_bits F + k div 2 ^ e)"

definition bits_mag :: "float_fmt \<Rightarrow> int \<Rightarrow> int" where
  "bits_mag F u = (let ex = u div 2 ^ frac_bits F; fr = u mod 2 ^ frac_bits F in
     if ex = 0 then fr else (2 ^ frac_bits F + fr) * 2 ^ nat (ex - 1))"

definition inf_bits :: "float_fmt \<Rightarrow> int" where
  "inf_bits F = (int (exp_lim F) + 1) * 2 ^ frac_bits F"

definition sign_bit :: "float_fmt \<Rightarrow> int" where
  "sign_bit F = (int (exp_lim F) + 2) * 2 ^ frac_bits F"

fun to_bits :: "float_fmt \<Rightarrow> fval \<Rightarrow> int" where
  "to_bits F NaN = inf_bits F + 2 ^ (frac_bits F - 1)"
| "to_bits F (Infty s) = (if s then sign_bit F else 0) + inf_bits F"
| "to_bits F (Fin s k) = (if s then sign_bit F else 0) + mag_bits F k"

definition from_bits :: "float_fmt \<Rightarrow> int \<Rightarrow> fval" where
  "from_bits F u = (let s = sign_bit F \<le> u; m = (if s then u - sign_bit F else u) in
     if inf_bits F < m then NaN else if m = inf_bits F then Infty s else Fin s (bits_mag F m))"

section \<open>Arithmetic\<close>

text \<open>The result of rounding: a magnitude beyond the format's range is an infinity.\<close>

definition fv_mk :: "float_fmt \<Rightarrow> bool \<Rightarrow> int \<Rightarrow> fval" where
  "fv_mk F s k = (if flimit F \<le> k then Infty s else Fin s k)"

definition fv_round :: "float_fmt \<Rightarrow> bool \<Rightarrow> int \<Rightarrow> int \<Rightarrow> fval" where
  "fv_round F s n d = fv_mk F s (round_units (prec F) n d)"

fun fv_neg :: "fval \<Rightarrow> fval" where
  "fv_neg NaN = NaN"
| "fv_neg (Infty s) = Infty (\<not> s)"
| "fv_neg (Fin s k) = Fin (\<not> s) k"

fun fv_abs :: "fval \<Rightarrow> fval" where
  "fv_abs NaN = NaN"
| "fv_abs (Infty s) = Infty False"
| "fv_abs (Fin s k) = Fin False k"

definition fv_of_units :: "float_fmt \<Rightarrow> int \<Rightarrow> fval" where
  "fv_of_units F v = fv_round F (v < 0) \<bar>v\<bar> 1"

fun fv_add :: "float_fmt \<Rightarrow> fval \<Rightarrow> fval \<Rightarrow> fval" where
  "fv_add F (Fin s a) (Fin t b) =
     (let v = units (Fin s a) + units (Fin t b) in
      if v = 0 then Fin (s \<and> t) 0 else fv_of_units F v)"
| "fv_add F (Infty s) (Infty t) = (if s = t then Infty s else NaN)"
| "fv_add F (Infty s) (Fin t b) = Infty s"
| "fv_add F (Fin s a) (Infty t) = Infty t"
| "fv_add F _ _ = NaN"

definition fv_sub :: "float_fmt \<Rightarrow> fval \<Rightarrow> fval \<Rightarrow> fval" where
  "fv_sub F x y = fv_add F x (fv_neg y)"

fun fv_mul :: "float_fmt \<Rightarrow> fval \<Rightarrow> fval \<Rightarrow> fval" where
  "fv_mul F (Fin s a) (Fin t b) = fv_round F (s \<noteq> t) (a * b) (funit F)"
| "fv_mul F (Infty s) (Infty t) = Infty (s \<noteq> t)"
| "fv_mul F (Infty s) (Fin t b) = (if b = 0 then NaN else Infty (s \<noteq> t))"
| "fv_mul F (Fin s a) (Infty t) = (if a = 0 then NaN else Infty (s \<noteq> t))"
| "fv_mul F _ _ = NaN"

fun fv_div :: "float_fmt \<Rightarrow> fval \<Rightarrow> fval \<Rightarrow> fval" where
  "fv_div F (Fin s a) (Fin t b) =
     (if b = 0 then (if a = 0 then NaN else Infty (s \<noteq> t))
      else fv_round F (s \<noteq> t) (a * funit F) b)"
| "fv_div F (Infty s) (Fin t b) = Infty (s \<noteq> t)"
| "fv_div F (Fin s a) (Infty t) = Fin (s \<noteq> t) 0"
| "fv_div F _ _ = NaN"

text \<open>Rust's \<^verbatim>\<open>%\<close> on floats is C's \<^verbatim>\<open>fmod\<close>: exact, with the sign of the dividend.\<close>

fun fv_rem :: "fval \<Rightarrow> fval \<Rightarrow> fval" where
  "fv_rem (Fin s a) (Fin t b) = (if b = 0 then NaN else Fin s (a mod b))"
| "fv_rem (Fin s a) (Infty t) = Fin s a"
| "fv_rem _ _ = NaN"

section \<open>Square root\<close>

function isqrt :: "int \<Rightarrow> int" where
  "isqrt n = (if n \<le> 0 then 0
     else let s = 2 * isqrt (n div 4) in if (s + 1) * (s + 1) \<le> n then s + 1 else s)"
  by pat_completeness auto
termination
  by (relation "measure nat") auto

declare isqrt.simps [simp del]

text \<open>The integer nearest to the square root of \<open>n\<close> with \<open>p\<close> significant bits, ties to even.\<close>

definition round_sqrt :: "nat \<Rightarrow> int \<Rightarrow> int" where
  "round_sqrt p n = (let e = nbits (isqrt n) - p; m = isqrt (n div 4 ^ e);
       t = (2 * m + 1) * (2 * m + 1) * 4 ^ e in
     (if 4 * n < t then m else if t < 4 * n then m + 1 else if even m then m else m + 1) * 2 ^ e)"

fun fv_sqrt :: "float_fmt \<Rightarrow> fval \<Rightarrow> fval" where
  "fv_sqrt F (Fin s k) = (if k = 0 then Fin s 0 else if s then NaN
     else fv_mk F False (round_sqrt (prec F) (k * funit F)))"
| "fv_sqrt F (Infty s) = (if s then NaN else Infty False)"
| "fv_sqrt F NaN = NaN"

section \<open>Comparison and conversion\<close>

text \<open>The value on a line where the infinities are the two ends of the finite range.\<close>

fun fv_key :: "float_fmt \<Rightarrow> fval \<Rightarrow> int" where
  "fv_key F (Infty s) = (if s then - flimit F else flimit F)"
| "fv_key F x = units x"

definition fv_lt :: "float_fmt \<Rightarrow> fval \<Rightarrow> fval \<Rightarrow> bool" where
  "fv_lt F x y \<longleftrightarrow> x \<noteq> NaN \<and> y \<noteq> NaN \<and> fv_key F x < fv_key F y"

definition fv_le :: "float_fmt \<Rightarrow> fval \<Rightarrow> fval \<Rightarrow> bool" where
  "fv_le F x y \<longleftrightarrow> x \<noteq> NaN \<and> y \<noteq> NaN \<and> fv_key F x \<le> fv_key F y"

text \<open>Rust's \<^verbatim>\<open>clamp\<close>: two comparisons in this order; a NaN passes through.\<close>

definition fv_clamp :: "float_fmt \<Rightarrow> fval \<Rightarrow> fval \<Rightarrow> fval \<Rightarrow> fval" where
  "fv_clamp F x lo hi = (let y = (if fv_lt F x lo then lo else x) in if fv_lt F hi y then hi else y)"

text \<open>Rust's \<^verbatim>\<open>max\<close>: a NaN operand is ignored.\<close>

definition fv_max :: "float_fmt \<Rightarrow> fval \<Rightarrow> fval \<Rightarrow> fval" where
  "fv_max F x y = (if x = NaN then y else if y = NaN then x else if fv_lt F x y then y else x)"

text \<open>Rust's \<^verbatim>\<open>rem_euclid\<close>: the remainder, shifted up by \<^verbatim>\<open>|rhs|\<close> (rounded) when negative.\<close>

definition fv_rem_euclid :: "float_fmt \<Rightarrow> fval \<Rightarrow> fval \<Rightarrow> fval" where
  "fv_rem_euclid F x y =
     (let r = fv_rem x y in if fv_lt F r (Fin False 0) then fv_add F r (fv_abs y) else r)"

text \<open>Integer to float (\<^verbatim>\<open>as f32\<close>), and float to unsigned integer (\<^verbatim>\<open>as u32\<close>, saturating).\<close>

definition fv_of_nat :: "float_fmt \<Rightarrow> nat \<Rightarrow> fval" where
  "fv_of_nat F n = fv_round F False (int n * funit F) 1"

fun fv_to_nat :: "float_fmt \<Rightarrow> nat \<Rightarrow> fval \<Rightarrow> nat" where
  "fv_to_nat F hi NaN = 0"
| "fv_to_nat F hi (Infty s) = (if s then 0 else hi)"
| "fv_to_nat F hi (Fin s k) = (if s then 0 else min hi (nat (k div funit F)))"

text \<open>\<^verbatim>\<open>round\<close> (half away from zero) and \<^verbatim>\<open>ceil\<close>; both results are representable as they are.\<close>

fun fv_round_int :: "float_fmt \<Rightarrow> fval \<Rightarrow> fval" where
  "fv_round_int F (Fin s k) = Fin s ((2 * k + funit F) div (2 * funit F) * funit F)"
| "fv_round_int F x = x"

fun fv_ceil :: "float_fmt \<Rightarrow> fval \<Rightarrow> fval" where
  "fv_ceil F (Fin s k) =
     Fin s (if s then k div funit F * funit F else - ((- k) div funit F) * funit F)"
| "fv_ceil F x = x"

end
