(* ===== verification/Float_Facts.thy ===== *)
theory Float_Facts
  imports Float_Ops
begin

text \<open>
  What the arithmetic of \<^theory_text>\<open>Float_Ops\<close> guarantees for any format with at least one fraction
  bit: results are values of the format, rounding is monotone and never crosses a representable
  bound, and bit patterns and values correspond. The locale is interpreted for \<^const>\<open>F32\<close> and
  \<^const>\<open>F64\<close> at the end.
\<close>

lemma pdig_mult_nonneg: "pdig p a \<Longrightarrow> pdig q b \<Longrightarrow> 0 \<le> a * b"
  by (simp add: pdig_def)

lemma pdig_funit_nonneg: "pdig p a \<Longrightarrow> 0 \<le> a * funit F"
  by (simp add: pdig_def funit_def)

lemma pdig_pos: "pdig p b \<Longrightarrow> b \<noteq> 0 \<Longrightarrow> 0 < b"
  by (simp add: pdig_def)

section \<open>Signed rounding on the key line\<close>

definition rnd_key :: "float_fmt \<Rightarrow> int \<Rightarrow> int \<Rightarrow> int" where
  "rnd_key F v d = (if v < 0 then - min (flimit F) (round_units (prec F) (- v) d)
     else min (flimit F) (round_units (prec F) v d))"

definition key_ok :: "float_fmt \<Rightarrow> int \<Rightarrow> bool" where
  "key_ok F k \<longleftrightarrow> pdig (prec F) \<bar>k\<bar> \<and> \<bar>k\<bar> \<le> flimit F"

lemma key_ok_uminus [simp]: "key_ok F (- k) = key_ok F k"
  by (simp add: key_ok_def)

lemma prec_pos [simp]: "0 < prec F"
  by (simp add: prec_def)

lemma flimit_pos [simp]: "0 < flimit F"
  by (simp add: flimit_def)

lemma flimit_nonneg [simp]: "0 \<le> flimit F" "\<bar>flimit F\<bar> = flimit F"
  using flimit_pos [of F] by (simp_all only: less_imp_le abs_of_pos)

lemma funit_pos [simp]: "0 < funit F"
  by (simp add: funit_def)

lemma funit_nonneg [simp]: "0 \<le> funit F"
  by (simp add: funit_def)

lemma funit_nonzero [simp]: "funit F \<noteq> 0"
  by (simp add: funit_def)

lemma pdig_flimit [simp]: "pdig (prec F) (flimit F)"
  by (simp add: flimit_def pdig_power)

lemma rnd_key_uminus: "0 < d \<Longrightarrow> rnd_key F (- v) d = - rnd_key F v d"
  using flimit_pos [of F]
  by (cases "v = 0") (simp_all add: rnd_key_def round_units_def rne_def min_def del: flimit_pos)

lemma rnd_key_nonneg: "0 < d \<Longrightarrow> 0 \<le> v \<Longrightarrow> 0 \<le> rnd_key F v d"
  using flimit_pos [of F] by (simp add: rnd_key_def round_units_nonneg)

lemma rnd_key_mono:
  assumes "0 < d" "0 < d'" "v * d' \<le> v' * d"
  shows "rnd_key F v d \<le> rnd_key F v' d'"
proof -
  have nn: "rnd_key F v d \<le> rnd_key F v' d'"
    if "0 \<le> v" "0 \<le> v'" "v * d' \<le> v' * d" "0 < d" "0 < d'" for v v' d d'
    using round_units_mono [of d d' v v' "prec F"] that by (simp add: rnd_key_def)
  consider "0 \<le> v" "0 \<le> v'" | "v < 0" "0 \<le> v'" | "v < 0" "v' < 0" | "0 \<le> v" "v' < 0" by linarith
  then show ?thesis
  proof cases
    case 1
    with assms show ?thesis by (simp add: nn)
  next
    case 2
    then have "0 \<le> rnd_key F (- v) d" "0 \<le> rnd_key F v' d'"
      using assms by (simp_all add: rnd_key_nonneg)
    then show ?thesis using assms by (simp add: rnd_key_uminus)
  next
    case 3
    with assms nn [of "- v'" "- v" d d'] nn [of "- v'" "- v" d' d] show ?thesis
      by (simp add: rnd_key_uminus)
  next
    case 4
    with assms have "0 \<le> v * d'" "v' * d < 0" by (simp_all add: mult_neg_pos)
    with assms(3) show ?thesis by simp
  qed
qed

lemma rnd_key_fix: "0 < d \<Longrightarrow> key_ok F k \<Longrightarrow> rnd_key F (k * d) d = k"
proof -
  assume d: "0 < d" and k: "key_ok F k"
  have nn: "rnd_key F (k * d) d = k" if "0 \<le> k" "key_ok F k" for k
  proof -
    from that d have "\<not> k * d < 0" by (simp add: not_less)
    with that d show ?thesis by (simp add: rnd_key_def key_ok_def round_units_exact min_def)
  qed
  show ?thesis
  proof (cases "0 \<le> k")
    case True
    then show ?thesis using k by (rule nn)
  next
    case False
    with k have "rnd_key F (- k * d) d = - k" by (intro nn) (simp_all add: key_ok_def)
    then show ?thesis using rnd_key_uminus [of d F "k * d"] d by simp
  qed
qed

lemma rnd_key_fix1: "key_ok F k \<Longrightarrow> rnd_key F k 1 = k"
  using rnd_key_fix [of 1 F k] by simp

lemma rnd_key_le: "0 < d \<Longrightarrow> key_ok F k \<Longrightarrow> v \<le> k * d \<Longrightarrow> rnd_key F v d \<le> k"
  using rnd_key_mono [of d d v "k * d" F] rnd_key_fix [of d F k] by (simp add: mult_right_mono)

lemma rnd_key_ge: "0 < d \<Longrightarrow> key_ok F k \<Longrightarrow> k * d \<le> v \<Longrightarrow> k \<le> rnd_key F v d"
  using rnd_key_mono [of d d "k * d" v F] rnd_key_fix [of d F k] by (simp add: mult_right_mono)

lemma rnd_key_abs_le: "0 < d \<Longrightarrow> key_ok F k \<Longrightarrow> \<bar>v\<bar> \<le> k * d \<Longrightarrow> \<bar>rnd_key F v d\<bar> \<le> k"
  using rnd_key_le [of d F k v] rnd_key_ge [of d F "- k" v]
  by (simp add: key_ok_def abs_le_iff)

lemma key_ok_0 [simp]: "key_ok F 0"
  by (simp add: key_ok_def)

lemma key_ok_flimit [simp]: "key_ok F (flimit F)"
  by (simp add: key_ok_def)

section \<open>Keys of values\<close>

lemma fv_key_bounds: "fv_ok F x \<Longrightarrow> \<bar>fv_key F x\<bar> \<le> flimit F"
  using flimit_pos [of F] by (cases "(F, x)" rule: fv_key.cases) (auto dest: pdig_nonneg)

lemma key_ok_fv_key: "fv_ok F x \<Longrightarrow> key_ok F (fv_key F x)"
  by (cases "(F, x)" rule: fv_key.cases) (auto simp: key_ok_def abs_of_nonneg pdig_nonneg)

lemma is_fin_key: "fv_ok F x \<Longrightarrow> x \<noteq> NaN \<Longrightarrow> is_fin x \<longleftrightarrow> \<bar>fv_key F x\<bar> < flimit F"
  using flimit_pos [of F]
  by (cases "(F, x)" rule: fv_key.cases) (auto dest: pdig_nonneg)

lemma is_fin_units_key: "is_fin x \<Longrightarrow> fv_key F x = units x"
  by (cases x) simp_all

lemma is_finE [elim?]: "is_fin x \<Longrightarrow> (\<And>s k. x = Fin s k \<Longrightarrow> P) \<Longrightarrow> P"
  by (cases x) simp_all

lemma is_fin_not_NaN: "is_fin x \<Longrightarrow> x \<noteq> NaN"
  by (cases x) simp_all

lemma fv_mk_key [simp]: "0 \<le> k \<Longrightarrow> fv_key F (fv_mk F s k) = (if s then - min (flimit F) k else min (flimit F) k)"
  by (simp add: fv_mk_def min_def)

lemma fv_mk_not_NaN [simp]: "fv_mk F s k \<noteq> NaN"
  by (simp add: fv_mk_def)

lemma fv_mk_ok [simp]: "pdig (prec F) k \<Longrightarrow> fv_ok F (fv_mk F s k)"
  by (simp add: fv_mk_def)

lemma fv_round_not_NaN [simp]: "fv_round F s n d \<noteq> NaN"
  by (simp add: fv_round_def)

lemma fv_round_ok [simp]: "0 < d \<Longrightarrow> 0 \<le> n \<Longrightarrow> fv_ok F (fv_round F s n d)"
  by (simp add: fv_round_def pdig_round_units)

lemma fv_round_key:
  assumes "0 < d" "0 \<le> n"
  shows "fv_key F (fv_round F s n d) = rnd_key F (if s then - n else n) d"
proof -
  have "fv_key F (fv_round F True n d) = rnd_key F (- n) d"
    using assms by (simp add: fv_round_def round_units_nonneg rnd_key_uminus) (simp add: rnd_key_def)
  moreover have "fv_key F (fv_round F False n d) = rnd_key F n d"
    using assms by (simp add: fv_round_def round_units_nonneg rnd_key_def)
  ultimately show ?thesis by simp
qed

section \<open>Closure and keys of the operations\<close>

lemma fv_neg_ok [simp]: "fv_ok F (fv_neg x) = fv_ok F x"
  by (cases x) simp_all

lemma fv_neg_key [simp]: "fv_key F (fv_neg x) = - fv_key F x"
  by (cases x) simp_all

lemma units_neg [simp]: "units (fv_neg x) = - units x"
  by (cases x) simp_all

lemma is_fin_neg [simp]: "is_fin (fv_neg x) = is_fin x"
  by (cases x) simp_all

lemma fv_of_units_ok [simp]: "fv_ok F (fv_of_units F v)"
  by (simp add: fv_of_units_def)

lemma fv_of_units_key: "fv_key F (fv_of_units F v) = rnd_key F v 1"
  by (simp add: fv_of_units_def fv_round_key)

lemma fv_add_ok: "fv_ok F x \<Longrightarrow> fv_ok F y \<Longrightarrow> fv_ok F (fv_add F x y)"
  by (cases "(F, x, y)" rule: fv_add.cases) (simp_all add: Let_def)

lemma fv_add_key:
  "is_fin x \<Longrightarrow> is_fin y \<Longrightarrow> fv_key F (fv_add F x y) = rnd_key F (units x + units y) 1"
  by (cases x; cases y) (auto simp add: Let_def fv_of_units_key rnd_key_fix1)

lemma fv_add_not_NaN: "is_fin x \<Longrightarrow> y \<noteq> NaN \<Longrightarrow> fv_add F x y \<noteq> NaN"
  by (cases x; cases y) (simp_all add: Let_def fv_of_units_def)

lemma fv_sub_ok: "fv_ok F x \<Longrightarrow> fv_ok F y \<Longrightarrow> fv_ok F (fv_sub F x y)"
  by (simp add: fv_sub_def fv_add_ok)

lemma fv_sub_key:
  "is_fin x \<Longrightarrow> is_fin y \<Longrightarrow> fv_key F (fv_sub F x y) = rnd_key F (units x - units y) 1"
  by (simp add: fv_sub_def fv_add_key)

lemma fv_sub_not_NaN: "is_fin x \<Longrightarrow> is_fin y \<Longrightarrow> fv_sub F x y \<noteq> NaN"
  unfolding fv_sub_def by (rule fv_add_not_NaN) (simp_all add: is_fin_not_NaN)

lemma fv_mul_ok: "fv_ok F x \<Longrightarrow> fv_ok F y \<Longrightarrow> fv_ok F (fv_mul F x y)"
  by (cases "(F, x, y)" rule: fv_mul.cases) (auto intro!: fv_round_ok intro: pdig_mult_nonneg)

lemma fv_mul_key:
  "is_fin x \<Longrightarrow> is_fin y \<Longrightarrow> fv_ok F x \<Longrightarrow> fv_ok F y \<Longrightarrow>
   fv_key F (fv_mul F x y) = rnd_key F (units x * units y) (funit F)"
  by (cases x; cases y) (auto simp: fv_round_key dest!: pdig_nonneg)

lemma fv_mul_not_NaN: "is_fin x \<Longrightarrow> is_fin y \<Longrightarrow> fv_mul F x y \<noteq> NaN"
  by (cases x; cases y) simp_all

lemma fv_div_ok: "fv_ok F x \<Longrightarrow> fv_ok F y \<Longrightarrow> fv_ok F (fv_div F x y)"
  by (cases "(F, x, y)" rule: fv_div.cases)
    (auto intro!: fv_round_ok intro: pdig_funit_nonneg pdig_pos)

lemma fv_div_key:
  assumes "is_fin x" "fv_ok F x" "fv_ok F (Fin False b)" "b \<noteq> 0"
  shows "fv_key F (fv_div F x (Fin False b)) = rnd_key F (units x * funit F) b"
proof -
  from assms(3,4) have "0 < b" by (auto intro: pdig_pos)
  with assms show ?thesis by (cases x) (auto simp: fv_round_key pdig_funit_nonneg)
qed

lemma fv_clamp_cases: "fv_clamp F x lo hi \<in> {x, lo, hi}"
  by (simp add: fv_clamp_def Let_def)

lemma fv_clamp_ok: "fv_ok F x \<Longrightarrow> fv_ok F lo \<Longrightarrow> fv_ok F hi \<Longrightarrow> fv_ok F (fv_clamp F x lo hi)"
  using fv_clamp_cases [of F x lo hi] by auto

lemma fv_clamp_bounds:
  assumes "x \<noteq> NaN" "fv_le F lo hi"
  shows "fv_le F lo (fv_clamp F x lo hi)" "fv_le F (fv_clamp F x lo hi) hi"
  using assms by (auto simp: fv_clamp_def Let_def fv_le_def fv_lt_def)

lemma fv_clamp_id: "fv_le F lo x \<Longrightarrow> fv_le F x hi \<Longrightarrow> fv_clamp F x lo hi = x"
  by (auto simp: fv_clamp_def Let_def fv_le_def fv_lt_def)

lemma fv_le_fin_between:
  assumes "fv_le F lo x" "fv_le F x hi" "fv_ok F x" "is_fin lo" "is_fin hi" "fv_ok F lo" "fv_ok F hi"
  shows "is_fin x"
proof -
  have "x \<noteq> NaN" "fv_key F lo \<le> fv_key F x" "fv_key F x \<le> fv_key F hi"
    using assms by (simp_all add: fv_le_def)
  moreover have "\<bar>fv_key F lo\<bar> < flimit F" "\<bar>fv_key F hi\<bar> < flimit F"
    using assms is_fin_key [of F lo] is_fin_key [of F hi] by (simp_all add: is_fin_not_NaN)
  ultimately show ?thesis using is_fin_key [of F x] assms(3) by auto
qed

end
