(* ===== verification/Float_Sqrt.thy ===== *)
theory Float_Sqrt
  imports Float_Facts
begin

text \<open>
  The square root and the floating-point remainder: both are correctly rounded, the remainder
  even exactly, and neither leaves the format.
\<close>

section \<open>Integer square root\<close>

lemma isqrt_spec: "0 \<le> n \<Longrightarrow> isqrt n * isqrt n \<le> n \<and> n < (isqrt n + 1) * (isqrt n + 1)"
proof (induction n rule: isqrt.induct)
  case (1 n)
  show ?case
  proof (cases "n = 0")
    case True
    then show ?thesis by (simp add: isqrt.simps)
  next
    case False
    define s where "s = isqrt (n div 4)"
    from False "1" have IH: "s * s \<le> n div 4" "n div 4 < (s + 1) * (s + 1)"
      by (simp_all add: s_def)
    have lo: "(2 * s) * (2 * s) \<le> n" using IH(1) by simp
    have "n < 4 * ((s + 1) * (s + 1))" using IH(2) by linarith
    then have hi: "n < (2 * s + 2) * (2 * s + 2)" by (simp add: algebra_simps)
    from False "1.prems" have "isqrt n = (if (2 * s + 1) * (2 * s + 1) \<le> n then 2 * s + 1 else 2 * s)"
      by (subst isqrt.simps) (simp add: s_def Let_def)
    then show ?thesis using lo hi by (simp add: algebra_simps)
  qed
qed

lemma square_less_imp: "0 \<le> b \<Longrightarrow> a * a < b * b \<Longrightarrow> a < (b::int)"
  by (metis abs_ge_self abs_of_nonneg abs_square_le_1 less_le_trans linorder_not_less
      mult_mono' order_trans abs_ge_zero)

lemma square_le_imp: "0 \<le> b \<Longrightarrow> a * a \<le> b * b \<Longrightarrow> a \<le> (b::int)"
  by (metis linorder_not_less mult_strict_mono' order_less_imp_le)

lemma isqrt_nonneg: "0 \<le> isqrt n"
proof (induction n rule: isqrt.induct)
  case (1 n)
  show ?case
  proof (cases "n \<le> 0")
    case True
    then show ?thesis by (simp add: isqrt.simps)
  next
    case False
    with "1" show ?thesis by (subst isqrt.simps) (simp add: Let_def)
  qed
qed

section \<open>Rounded square root\<close>

text \<open>
  The pieces of \<^const>\<open>round_sqrt\<close>: with \<open>e\<close> the dropped bits and \<open>m\<close> the truncated
  significand, \<open>m * 2 ^ e \<le> sqrt n < (m + 1) * 2 ^ e\<close>, and a \<open>p\<close>-digit number strictly between the
  two ends does not exist.
\<close>

lemma round_sqrt_bracket:
  assumes n: "0 \<le> n" and p: "0 < p"
    and e: "e = nbits (isqrt n) - p" and m: "m = isqrt (n div 4 ^ e)"
  shows "(m * 2 ^ e) * (m * 2 ^ e) \<le> n" "n < ((m + 1) * 2 ^ e) * ((m + 1) * 2 ^ e)"
    and "m < 2 ^ p" "e = 0 \<or> 2 ^ (p - 1) \<le> m"
proof -
  have q: "0 \<le> n div 4 ^ e" using n by (simp add: pos_imp_zdiv_nonneg_iff)
  have p4: "(4::int) ^ e = 2 ^ e * 2 ^ e" by (simp flip: power_mult_distrib)
  have b: "m * m \<le> n div 4 ^ e" "n div 4 ^ e < (m + 1) * (m + 1)"
    using isqrt_spec [OF q] by (simp_all add: m)
  show lo: "(m * 2 ^ e) * (m * 2 ^ e) \<le> n"
    using b(1) int_le_div_iff [of "4 ^ e" "m * m" n] by (simp add: p4 algebra_simps)
  show hi: "n < ((m + 1) * 2 ^ e) * ((m + 1) * 2 ^ e)"
    using b(2) int_div_less_iff [of "4 ^ e" n "(m + 1) * (m + 1)"] by (simp add: p4 algebra_simps)
  have s: "isqrt n * isqrt n \<le> n" "n < (isqrt n + 1) * (isqrt n + 1)"
    using isqrt_spec [OF n] by simp_all
  have m0: "0 \<le> m" by (simp add: m isqrt_nonneg)
  have "m * 2 ^ e < isqrt n + 1"
    by (rule square_less_imp) (use isqrt_nonneg [of n] in simp, use lo s(2) in linarith)
  then have "m * 2 ^ e \<le> isqrt n" by simp
  also have "isqrt n < 2 ^ (p + e)"
  proof -
    have "nbits (isqrt n) \<le> p + e" unfolding e by simp
    then show ?thesis using nbits_le_iff [OF isqrt_nonneg, of n "p + e"] by blast
  qed
  finally show "m < 2 ^ p" by (simp add: power_add)
  show "e = 0 \<or> 2 ^ (p - 1) \<le> m"
  proof (cases "e = 0")
    case False
    then have "nbits (isqrt n) = p + e" by (simp add: e)
    then have "2 ^ (p + e - 1) \<le> isqrt n"
      using False nbits_lower [of "isqrt n"] nbits_0_iff [of "isqrt n"]
      by (cases "isqrt n \<le> 0") simp_all
    moreover have "isqrt n < (m + 1) * 2 ^ e"
      by (rule square_less_imp) (use m0 in simp, use hi s(1) in linarith)
    moreover have "(2::int) ^ (p - 1) * 2 ^ e \<le> 2 ^ (p + e - 1)"
      using p by (simp flip: power_add)
    ultimately have "2 ^ (p - 1) * 2 ^ e < (m + 1) * 2 ^ e" by linarith
    then have "2 ^ (p - 1) < m + 1" by (simp only: mult_less_cancel_right) auto
    then show ?thesis by simp
  qed simp
qed

lemma pdig_between:
  assumes "e = 0 \<or> 2 ^ (p - 1) \<le> m" "0 < p" "pdig p k" "m * 2 ^ e \<le> k" "k < (m + 1) * 2 ^ e"
  shows "k = m * 2 ^ e"
proof (cases "e = 0")
  case False
  with assms have m: "2 ^ (p - 1) \<le> m" by simp
  have "(2::int) ^ (p - 1 + e) \<le> m * 2 ^ e" using m by (simp add: power_add)
  with assms(4) have "2 ^ (p - 1 + e) \<le> k" by linarith
  then have "p - 1 + e < nbits k"
    using nbits_le_iff [of k "p - 1 + e"] pdig_nonneg [OF assms(3)] by linarith
  with assms(2) have "e \<le> nbits k - p" by simp
  then have "(2::int) ^ e dvd 2 ^ (nbits k - p)" by (rule le_imp_power_dvd)
  with assms(3) have "2 ^ e dvd k" by (auto simp: pdig_def intro: dvd_trans)
  then obtain t where t: "k = t * 2 ^ e" by (metis dvdE mult.commute)
  with assms(4,5) show ?thesis by simp
qed (use assms in simp)

lemma round_sqrt_cases:
  assumes n: "0 \<le> n" and e: "e = nbits (isqrt n) - p" and m: "m = isqrt (n div 4 ^ e)"
  shows "round_sqrt p n = m * 2 ^ e \<or> round_sqrt p n = (m + 1) * 2 ^ e \<and> m * 2 ^ e * (m * 2 ^ e) < n"
proof -
  have p4: "(4::int) ^ e = 2 ^ e * 2 ^ e" by (simp flip: power_mult_distrib)
  have "m * 2 ^ e * (m * 2 ^ e) < n" if "\<not> 4 * n < (2 * m + 1) * (2 * m + 1) * 4 ^ e"
  proof -
    have "0 \<le> m" by (simp add: m isqrt_nonneg)
    then have "4 * (m * m) < (2 * m + 1) * (2 * m + 1)" by (simp add: algebra_simps)
    then have "4 * (m * m) * 4 ^ e < (2 * m + 1) * (2 * m + 1) * 4 ^ e" by simp
    with that have "4 * (m * m * 4 ^ e) < 4 * n" by linarith
    then show ?thesis by (simp add: p4 algebra_simps)
  qed
  then show ?thesis by (auto simp: round_sqrt_def Let_def e [symmetric] m [symmetric])
qed

lemma pdig_round_sqrt: "0 \<le> n \<Longrightarrow> 0 < p \<Longrightarrow> pdig p (round_sqrt p n)"
proof -
  assume n: "0 \<le> n" and p: "0 < p"
  define e where "e = nbits (isqrt n) - p"
  define m where "m = isqrt (n div 4 ^ e)"
  have "0 \<le> m" by (simp add: m_def isqrt_nonneg)
  moreover have "m < 2 ^ p" by (rule round_sqrt_bracket(3) [OF n p e_def m_def])
  moreover have "round_sqrt p n = m * 2 ^ e \<or> round_sqrt p n = (m + 1) * 2 ^ e"
    using round_sqrt_cases [OF n e_def m_def] by blast
  ultimately show ?thesis using p by (auto simp: pdig_mult_power)
qed

lemma round_sqrt_ge: "0 \<le> n \<Longrightarrow> 0 < p \<Longrightarrow> pdig p k \<Longrightarrow> k * k \<le> n \<Longrightarrow> k \<le> round_sqrt p n"
proof -
  assume n: "0 \<le> n" and p: "0 < p" and k: "pdig p k" "k * k \<le> n"
  define e where "e = nbits (isqrt n) - p"
  define m where "m = isqrt (n div 4 ^ e)"
  note b = round_sqrt_bracket [OF n p e_def m_def]
  have m0: "0 \<le> m" by (simp add: m_def isqrt_nonneg)
  have "k < (m + 1) * 2 ^ e"
    by (rule square_less_imp) (use m0 in simp, use b(2) k(2) in linarith)
  then have "k \<le> m * 2 ^ e" using pdig_between [OF b(4) p k(1)] by linarith
  moreover have "m * 2 ^ e \<le> round_sqrt p n"
    using round_sqrt_cases [OF n e_def m_def] by (auto simp: algebra_simps)
  ultimately show ?thesis by simp
qed

lemma round_sqrt_le: "0 \<le> n \<Longrightarrow> 0 < p \<Longrightarrow> pdig p k \<Longrightarrow> n \<le> k * k \<Longrightarrow> round_sqrt p n \<le> k"
proof -
  assume n: "0 \<le> n" and p: "0 < p" and k: "pdig p k" "n \<le> k * k"
  define e where "e = nbits (isqrt n) - p"
  define m where "m = isqrt (n div 4 ^ e)"
  note b = round_sqrt_bracket [OF n p e_def m_def]
  have m0: "0 \<le> m" by (simp add: m_def isqrt_nonneg)
  have mk: "m * 2 ^ e \<le> k" 
    by (rule square_le_imp) (use pdig_nonneg [OF k(1)] in simp, use b(1) k(2) in linarith)
  show ?thesis
  proof (cases "k < (m + 1) * 2 ^ e")
    case True
    then have keq: "k = m * 2 ^ e" by (rule pdig_between [OF b(4) p k(1) mk])
    then have "\<not> m * 2 ^ e * (m * 2 ^ e) < n" using k(2) by (simp only: not_less)
    then have "round_sqrt p n = m * 2 ^ e" using round_sqrt_cases [OF n e_def m_def] by blast
    then show ?thesis using keq by simp
  next
    case False
    then have "(m + 1) * 2 ^ e \<le> k" by simp
    moreover have "round_sqrt p n = m * 2 ^ e \<or> round_sqrt p n = (m + 1) * 2 ^ e"
      using round_sqrt_cases [OF n e_def m_def] by blast
    ultimately show ?thesis using mk by metis
  qed
qed

section \<open>Closure of the square root and the remainder\<close>

lemma fv_sqrt_ok: "fv_ok F x \<Longrightarrow> fv_ok F (fv_sqrt F x)"
  by (cases x) (auto simp: pdig_round_sqrt pdig_funit_nonneg)

lemma pdig_mod:
  assumes a: "pdig p a" and b: "pdig p b" "b \<noteq> 0"
  shows "pdig p (a mod b)"
proof (cases "a < b")
  case True
  then show ?thesis using a pdig_nonneg [OF a] by simp
next
  case False
  let ?e = "nbits b - p"
  have b0: "0 < b" by (rule pdig_pos [OF b])
  from False have "?e \<le> nbits a - p" by (simp add: nbits_mono diff_le_mono)
  with a have "2 ^ ?e dvd a" by (auto simp: pdig_def intro: dvd_trans le_imp_power_dvd)
  with b have dvd: "2 ^ ?e dvd a mod b" by (simp add: pdig_def dvd_mod)
  have "a mod b \<le> b" using b0 by (simp add: pos_mod_bound less_imp_le)
  then have "nbits (a mod b) - p \<le> ?e" by (simp add: nbits_mono diff_le_mono)
  with dvd have "2 ^ (nbits (a mod b) - p) dvd a mod b"
    by (auto intro: dvd_trans le_imp_power_dvd)
  then show ?thesis using b0 by (simp add: pdig_def)
qed

lemma fv_rem_ok: "fv_ok F x \<Longrightarrow> fv_ok F y \<Longrightarrow> fv_ok F (fv_rem x y)"
proof (cases "(x, y)" rule: fv_rem.cases)
  case (1 s a t b)
  assume ok: "fv_ok F x" "fv_ok F y"
  show ?thesis
  proof (cases "b = 0")
    case False
    with ok "1" have b: "0 < b" by (auto intro: pdig_pos)
    then have "a mod b < b" by simp
    with ok "1" have "a mod b < flimit F" by simp
    with ok "1" False show ?thesis by (simp add: pdig_mod)
  qed (use "1" in simp)
qed simp_all

lemma fv_rem_euclid_ok: "fv_ok F x \<Longrightarrow> fv_ok F y \<Longrightarrow> fv_ok F (fv_rem_euclid F x y)"
  by (cases y) (auto simp: fv_rem_euclid_def Let_def fv_add_ok fv_rem_ok)

end
