(* ===== verification/Float_Bits.thy ===== *)
theory Float_Bits
  imports Float_Sqrt
begin

text \<open>
  Bit patterns against values: \<^const>\<open>from_bits\<close> inverts \<^const>\<open>to_bits\<close> on every value of the
  format, and \<^const>\<open>to_bits\<close> inverts \<^const>\<open>from_bits\<close> on every pattern that is not a NaN.
\<close>

locale float_format =
  fixes F :: float_fmt
  assumes frac_bits_pos: "0 < frac_bits F"
    and exp_lim_pos: "0 < exp_lim F"
begin

lemma inf_less_sign: "inf_bits F < sign_bit F"
  by (simp add: inf_bits_def sign_bit_def)

lemma inf_bits_nonneg: "0 \<le> inf_bits F"
  by (simp add: inf_bits_def)

lemma mag_bits_bounds:
  assumes "pdig (prec F) k" "k < flimit F"
  shows "0 \<le> mag_bits F k" "mag_bits F k < inf_bits F"
proof -
  let ?e = "nbits k - prec F"
  have k0: "0 \<le> k" using assms(1) by (rule pdig_nonneg)
  then have q0: "0 \<le> k div 2 ^ ?e" by (simp add: pos_imp_zdiv_nonneg_iff)
  then show "0 \<le> mag_bits F k" by (simp add: mag_bits_def Let_def)
  have "nbits k \<le> frac_bits F + exp_lim F"
    using assms(2) k0 by (simp add: nbits_le_iff flimit_def)
  then have e: "?e + 1 \<le> exp_lim F" using exp_lim_pos by (simp add: prec_def)
  have "k < 2 ^ (prec F + ?e)" using k0 by (simp add: nbits_le_iff [symmetric])
  then have "k div 2 ^ ?e < 2 ^ prec F" by (simp add: int_div_less_iff power_add)
  then have "mag_bits F k < (int ?e + 2) * 2 ^ frac_bits F"
    by (simp add: mag_bits_def Let_def prec_def algebra_simps)
  also have "\<dots> \<le> inf_bits F"
    unfolding inf_bits_def using e by (intro mult_right_mono) (linarith, simp)
  finally show "mag_bits F k < inf_bits F" .
qed

lemma bits_mag_of_mag_bits:
  assumes "pdig (prec F) k"
  shows "bits_mag F (mag_bits F k) = k"
proof -
  define e where "e = nbits k - prec F"
  define m where "m = k div 2 ^ e"
  define H where "H = (2::int) ^ frac_bits F"
  have H0: "0 < H" by (simp add: H_def)
  have k0: "0 \<le> k" using assms by (rule pdig_nonneg)
  have km: "k = m * 2 ^ e" using assms by (simp add: pdig_def e_def m_def)
  have mb: "mag_bits F k = int e * H + m" by (simp add: mag_bits_def Let_def e_def m_def H_def)
  have "k < 2 ^ (prec F + e)" using k0 by (simp add: nbits_le_iff [symmetric] e_def)
  then have m2: "m < 2 * H" by (simp add: m_def int_div_less_iff power_add prec_def H_def)
  have m0: "0 \<le> m" using k0 by (simp add: m_def pos_imp_zdiv_nonneg_iff)
  show ?thesis
  proof (cases "m < H")
    case True
    have "e = 0"
    proof (rule ccontr)
      assume "e \<noteq> 0"
      then have nb: "nbits k = frac_bits F + 1 + e" by (simp add: e_def prec_def)
      then have "0 < k" using nbits_0_iff [of k] by linarith
      then have "2 ^ (frac_bits F + e) \<le> k" using nbits_lower [of k] nb by simp
      then have "H \<le> m" by (simp add: m_def H_def int_le_div_iff power_add)
      with True show False by simp
    qed
    then have "mag_bits F k = k" using mb km by simp
    with True m0 km \<open>e = 0\<close> show ?thesis
      by (simp add: bits_mag_def Let_def H_def [symmetric] div_pos_pos_trivial)
  next
    case False
    then obtain r where r: "m = H + r" "0 \<le> r" "r < H"
      using m2 by (metis add_diff_cancel_left' diff_add_cancel diff_ge_0_iff_ge linorder_not_le
          add.commute add_less_cancel_left mult_2)
    have q: "mag_bits F k = (int e + 1) * H + r" by (simp add: mb r algebra_simps)
    have "mag_bits F k div H = int e + 1" "mag_bits F k mod H = r"
      unfolding q using r H0 by (simp_all add: div_pos_pos_trivial)
    with r km show ?thesis by (simp add: bits_mag_def Let_def H_def [symmetric])
  qed
qed

lemma bits_mag_ok:
  assumes "0 \<le> u" "u < inf_bits F"
  shows "pdig (prec F) (bits_mag F u)" "bits_mag F u < flimit F"
proof -
  define H where "H = (2::int) ^ frac_bits F"
  define ex where "ex = u div H"
  define fr where "fr = u mod H"
  have H0: "0 < H" by (simp add: H_def)
  have fr: "0 \<le> fr" "fr < H" using H0 by (simp_all add: fr_def)
  have "ex < int (exp_lim F) + 1"
    using assms(2) int_div_less_iff [OF H0, of u "int (exp_lim F) + 1"]
    by (simp add: ex_def inf_bits_def H_def)
  then have ex: "0 \<le> ex" "ex \<le> int (exp_lim F)"
    using assms(1) H0 by (simp_all add: ex_def pos_imp_zdiv_nonneg_iff)
  define e where "e = nat (ex - 1)"
  define m where "m = (if ex = 0 then fr else H + fr)"
  have bm: "bits_mag F u = m * 2 ^ e"
    by (simp add: bits_mag_def Let_def H_def [symmetric] ex_def [symmetric] fr_def [symmetric] e_def m_def)
  have m: "0 \<le> m" "m < 2 ^ prec F" using fr H0 by (auto simp: m_def prec_def H_def)
  then show "pdig (prec F) (bits_mag F u)" unfolding bm by (intro pdig_mult_power) simp_all
  have "e + 1 \<le> exp_lim F" using ex exp_lim_pos by (simp add: e_def)
  then have le: "prec F + e \<le> frac_bits F + exp_lim F" by (simp add: prec_def)
  have "m * 2 ^ e < 2 ^ prec F * 2 ^ e" using m by simp
  also have "\<dots> \<le> flimit F" using le by (simp add: flimit_def flip: power_add)
  finally show "bits_mag F u < flimit F" unfolding bm .
qed

lemma mag_bits_of_bits_mag:
  assumes "0 \<le> u" "u < inf_bits F"
  shows "mag_bits F (bits_mag F u) = u"
proof -
  define H where "H = (2::int) ^ frac_bits F"
  define ex where "ex = u div H"
  define fr where "fr = u mod H"
  have H0: "0 < H" by (simp add: H_def)
  have fr: "0 \<le> fr" "fr < H" using H0 by (simp_all add: fr_def)
  have u: "u = ex * H + fr" by (simp add: ex_def fr_def)
  have ex: "0 \<le> ex" using assms(1) H0 by (simp add: ex_def pos_imp_zdiv_nonneg_iff)
  show ?thesis
  proof (cases "ex = 0")
    case True
    then have "bits_mag F u = fr"
      by (simp add: bits_mag_def Let_def H_def [symmetric] ex_def [symmetric] fr_def [symmetric])
    moreover have "nbits fr \<le> prec F" using fr by (simp add: nbits_le_iff prec_def H_def)
    ultimately show ?thesis using True u by (simp add: mag_bits_def Let_def)
  next
    case False
    define e where "e = nat (ex - 1)"
    have ie: "int e = ex - 1" using False ex by (simp add: e_def)
    have bm: "bits_mag F u = (H + fr) * 2 ^ e"
      using False by (simp add: bits_mag_def Let_def H_def [symmetric] ex_def [symmetric] fr_def [symmetric] e_def)
    have "nbits (H + fr) \<le> prec F" using fr H0 by (simp add: nbits_le_iff prec_def H_def)
    moreover have "\<not> nbits (H + fr) \<le> frac_bits F" using fr H0 by (simp add: nbits_le_iff H_def)
    ultimately have "nbits (H + fr) = prec F" by (simp add: prec_def)
    then have "nbits (bits_mag F u) - prec F = e" using fr H0 by (simp add: bm nbits_shift)
    then have "mag_bits F (bits_mag F u) = int e * H + (H + fr)"
      by (simp add: mag_bits_def Let_def bm H_def [symmetric])
    then show ?thesis by (simp add: u ie algebra_simps)
  qed
qed

lemma from_bits_ok: "0 \<le> u \<Longrightarrow> u < 2 * sign_bit F \<Longrightarrow> fv_ok F (from_bits F u)"
  by (auto simp: from_bits_def Let_def bits_mag_ok)

lemma from_to_bits: "fv_ok F x \<Longrightarrow> from_bits F (to_bits F x) = x"
proof (cases x)
  case NaN
  have "inf_bits F + 2 ^ (frac_bits F - 1) < sign_bit F"
    using frac_bits_pos by (cases "frac_bits F") (simp_all add: inf_bits_def sign_bit_def algebra_simps)
  then show ?thesis using NaN by (simp add: from_bits_def Let_def)
next
  case (Infty s)
  then show ?thesis using inf_less_sign by (simp add: from_bits_def Let_def inf_bits_def)
next
  case (Fin s k)
  assume "fv_ok F x"
  then have "0 \<le> mag_bits F k" "mag_bits F k < inf_bits F" "bits_mag F (mag_bits F k) = k"
    using Fin by (simp_all add: mag_bits_bounds bits_mag_of_mag_bits)
  then show ?thesis using Fin inf_less_sign by (simp add: from_bits_def Let_def)
qed

lemma to_from_bits:
  assumes "0 \<le> u" "u < 2 * sign_bit F" "from_bits F u \<noteq> NaN"
  shows "to_bits F (from_bits F u) = u"
proof -
  define m where "m = (if sign_bit F \<le> u then u - sign_bit F else u)"
  have m: "0 \<le> m" "m \<le> inf_bits F" "from_bits F u =
      (if m = inf_bits F then Infty (sign_bit F \<le> u) else Fin (sign_bit F \<le> u) (bits_mag F m))"
    using assms by (auto simp: from_bits_def Let_def m_def split: if_splits)
  then show ?thesis by (auto simp: mag_bits_of_bits_mag m_def)
qed

lemma to_bits_bounds: "fv_ok F x \<Longrightarrow> 0 \<le> to_bits F x \<and> to_bits F x < 2 * sign_bit F"
proof (cases x)
  case NaN
  have "inf_bits F + 2 ^ (frac_bits F - 1) < sign_bit F"
    using frac_bits_pos by (cases "frac_bits F") (simp_all add: inf_bits_def sign_bit_def algebra_simps)
  moreover note inf_bits_nonneg
  moreover have "0 \<le> (2::int) ^ (frac_bits F - 1)" by simp
  ultimately show ?thesis using NaN by (simp del: zero_le_power)
next
  case (Infty s)
  then show ?thesis using inf_less_sign inf_bits_nonneg by auto
next
  case (Fin s k)
  assume "fv_ok F x"
  then have "0 \<le> mag_bits F k" "mag_bits F k < inf_bits F"
    using Fin by (simp_all add: mag_bits_bounds)
  then show ?thesis using Fin inf_less_sign by auto
qed

end

interpretation f32_format: float_format F32
  by unfold_locales simp_all

interpretation f64_format: float_format F64
  by unfold_locales simp_all

end
