(* ===== verification/Rust_Float.thy ===== *)
theory Rust_Float
  imports Float_Bits
begin

text \<open>
  Rust's \<^verbatim>\<open>f32\<close> and \<^verbatim>\<open>f64\<close> as their bit patterns, with the operations the server uses. The
  operations decode, compute in \<^theory_text>\<open>Float_Ops\<close> and encode; selections (\<^verbatim>\<open>clamp\<close>, \<^verbatim>\<open>max\<close>) return
  an operand's own bits. \<^verbatim>\<open>cos\<close>, \<^verbatim>\<open>sin\<close> and \<^verbatim>\<open>atan2\<close> have no definition here: Rust leaves their
  precision unspecified, so the model takes them as parameters.
\<close>

type_synonym f32 = "32 word"
type_synonym f64 = "64 word"

section \<open>Single precision\<close>

definition f32_val :: "f32 \<Rightarrow> fval" where
  "f32_val w = from_bits F32 (uint w)"

definition f32_of :: "fval \<Rightarrow> f32" where
  "f32_of v = word_of_int (to_bits F32 v)"

definition f32_lit :: "int \<Rightarrow> int \<Rightarrow> f32" where
  "f32_lit n d = f32_of (fv_round F32 False (n * funit F32) d)"

definition f32_neg :: "f32 \<Rightarrow> f32" where
  "f32_neg a = a + 0x80000000"

definition f32_add :: "f32 \<Rightarrow> f32 \<Rightarrow> f32" where
  "f32_add a b = f32_of (fv_add F32 (f32_val a) (f32_val b))"

definition f32_sub :: "f32 \<Rightarrow> f32 \<Rightarrow> f32" where
  "f32_sub a b = f32_of (fv_sub F32 (f32_val a) (f32_val b))"

definition f32_mul :: "f32 \<Rightarrow> f32 \<Rightarrow> f32" where
  "f32_mul a b = f32_of (fv_mul F32 (f32_val a) (f32_val b))"

definition f32_div :: "f32 \<Rightarrow> f32 \<Rightarrow> f32" where
  "f32_div a b = f32_of (fv_div F32 (f32_val a) (f32_val b))"

definition f32_rem :: "f32 \<Rightarrow> f32 \<Rightarrow> f32" where
  "f32_rem a b = f32_of (fv_rem (f32_val a) (f32_val b))"

definition f32_sqrt :: "f32 \<Rightarrow> f32" where
  "f32_sqrt a = f32_of (fv_sqrt F32 (f32_val a))"

definition f32_abs :: "f32 \<Rightarrow> f32" where
  "f32_abs a = f32_of (fv_abs (f32_val a))"

definition f32_round :: "f32 \<Rightarrow> f32" where
  "f32_round a = f32_of (fv_round_int F32 (f32_val a))"

definition f32_lt :: "f32 \<Rightarrow> f32 \<Rightarrow> bool" where
  "f32_lt a b \<longleftrightarrow> fv_lt F32 (f32_val a) (f32_val b)"

definition f32_le :: "f32 \<Rightarrow> f32 \<Rightarrow> bool" where
  "f32_le a b \<longleftrightarrow> fv_le F32 (f32_val a) (f32_val b)"

definition f32_is_finite :: "f32 \<Rightarrow> bool" where
  "f32_is_finite a \<longleftrightarrow> is_fin (f32_val a)"

definition f32_is_nan :: "f32 \<Rightarrow> bool" where
  "f32_is_nan a \<longleftrightarrow> f32_val a = NaN"

definition f32_clamp :: "f32 \<Rightarrow> f32 \<Rightarrow> f32 \<Rightarrow> f32" where
  "f32_clamp x lo hi = (let y = (if f32_lt x lo then lo else x) in if f32_lt hi y then hi else y)"

definition f32_max :: "f32 \<Rightarrow> f32 \<Rightarrow> f32" where
  "f32_max a b = (if f32_is_nan a then b else if f32_is_nan b then a
     else if f32_lt a b then b else a)"

definition f32_rem_euclid :: "f32 \<Rightarrow> f32 \<Rightarrow> f32" where
  "f32_rem_euclid a b = (let r = f32_rem a b in if f32_lt r 0 then f32_add r (f32_abs b) else r)"

definition f32_of_nat :: "nat \<Rightarrow> f32" where
  "f32_of_nat n = f32_of (fv_of_nat F32 n)"

definition f32_to_nat :: "nat \<Rightarrow> f32 \<Rightarrow> nat" where
  "f32_to_nat hi a = fv_to_nat F32 hi (f32_val a)"

text \<open>The constants of \<^verbatim>\<open>std::f32::consts\<close>, from their decimal source text.\<close>

definition f32_PI :: f32 where
  "f32_PI = f32_lit 314159265358979323846264338327950288 (10 ^ 35)"

definition f32_TAU :: f32 where
  "f32_TAU = f32_lit 628318530717958647692528676655900577 (10 ^ 35)"

section \<open>Encoding and decoding\<close>

lemma sign_bit_F32: "sign_bit F32 = 2 ^ 31"
  by (simp add: sign_bit_def)

lemma inf_bits_F32: "inf_bits F32 = 255 * 2 ^ 23"
  by (simp add: inf_bits_def)

lemma f32_val_ok [simp]: "fv_ok F32 (f32_val w)"
  unfolding f32_val_def
  using f32_format.from_bits_ok [of "uint w"] uint_bounded [of w] by (simp add: sign_bit_F32)

lemma f32_val_of [simp]: "fv_ok F32 v \<Longrightarrow> f32_val (f32_of v) = v"
  using f32_format.to_bits_bounds [of v] f32_format.from_to_bits [of v]
  by (simp add: f32_val_def f32_of_def sign_bit_F32 uint_word_of_int)

lemma f32_of_val: "f32_val w \<noteq> NaN \<Longrightarrow> f32_of (f32_val w) = w"
  using f32_format.to_from_bits [of "uint w"] uint_bounded [of w]
  by (simp add: f32_val_def f32_of_def sign_bit_F32)

lemma f32_val_inject: "f32_val v \<noteq> NaN \<Longrightarrow> f32_val v = f32_val w \<longleftrightarrow> v = w"
  by (metis f32_of_val)

lemma f32_val_neg [simp]: "f32_val (f32_neg a) = fv_neg (f32_val a)"
proof -
  have "uint (f32_neg a) = (uint a + 2 ^ 31) mod 2 ^ 32"
  proof -
    have "uint (0x80000000 :: f32) = 2 ^ 31" by simp
    then show ?thesis unfolding f32_neg_def uint_word_ariths(1) by simp
  qed
  also have "\<dots> = (if uint a < 2 ^ 31 then uint a + 2 ^ 31 else uint a - 2 ^ 31)"
  proof (cases "uint a < 2 ^ 31")
    case True
    then show ?thesis by (simp add: mod_pos_pos_trivial)
  next
    case False
    have "(uint a + 2 ^ 31) mod 2 ^ 32 = (uint a - 2 ^ 31 + 2 ^ 32) mod 2 ^ 32"
      by (simp add: add.commute)
    also have "\<dots> = (uint a - 2 ^ 31) mod 2 ^ 32" by (rule mod_add_self2)
    also have "\<dots> = uint a - 2 ^ 31"
      using False uint_bounded [of a] by (intro mod_pos_pos_trivial) simp_all
    finally show ?thesis using False by simp
  qed
  finally show ?thesis
    using uint_bounded [of a]
    by (auto simp: f32_val_def from_bits_def Let_def sign_bit_F32 inf_bits_F32)
qed

lemma f32_val_0 [simp]: "f32_val 0 = Fin False 0"
  by (simp add: f32_val_def from_bits_def sign_bit_F32 inf_bits_F32 bits_mag_def)

named_theorems f32_vals \<open>decoding the result of an operation\<close>

lemma f32_val_lit [f32_vals]: "0 \<le> n \<Longrightarrow> 0 < d \<Longrightarrow> f32_val (f32_lit n d) = fv_round F32 False (n * funit F32) d"
  by (simp add: f32_lit_def)

lemma f32_val_add [f32_vals]: "f32_val (f32_add a b) = fv_add F32 (f32_val a) (f32_val b)"
  by (simp add: f32_add_def fv_add_ok)

lemma f32_val_sub [f32_vals]: "f32_val (f32_sub a b) = fv_sub F32 (f32_val a) (f32_val b)"
  by (simp add: f32_sub_def fv_sub_ok)

lemma f32_val_mul [f32_vals]: "f32_val (f32_mul a b) = fv_mul F32 (f32_val a) (f32_val b)"
  by (simp add: f32_mul_def fv_mul_ok)

lemma f32_val_div [f32_vals]: "f32_val (f32_div a b) = fv_div F32 (f32_val a) (f32_val b)"
  by (simp add: f32_div_def fv_div_ok)

lemma f32_val_rem [f32_vals]: "f32_val (f32_rem a b) = fv_rem (f32_val a) (f32_val b)"
  by (simp add: f32_rem_def fv_rem_ok)

lemma f32_val_sqrt [f32_vals]: "f32_val (f32_sqrt a) = fv_sqrt F32 (f32_val a)"
  by (simp add: f32_sqrt_def fv_sqrt_ok)

lemma fv_abs_ok [simp]: "fv_ok F (fv_abs x) = fv_ok F x"
  by (cases x) simp_all

lemma f32_val_abs [f32_vals]: "f32_val (f32_abs a) = fv_abs (f32_val a)"
  by (simp add: f32_abs_def)

lemma f32_val_of_nat [f32_vals]: "f32_val (f32_of_nat n) = fv_of_nat F32 n"
  by (simp add: f32_of_nat_def fv_of_nat_def)

lemma f32_val_clamp [f32_vals]:
  "f32_val (f32_clamp x lo hi) = fv_clamp F32 (f32_val x) (f32_val lo) (f32_val hi)"
  by (simp add: f32_clamp_def fv_clamp_def f32_lt_def Let_def)

lemma f32_val_rem_euclid [f32_vals]:
  "f32_val (f32_rem_euclid a b) = fv_rem_euclid F32 (f32_val a) (f32_val b)"
  by (simp add: f32_rem_euclid_def fv_rem_euclid_def f32_lt_def Let_def f32_val_rem f32_val_add
      f32_val_abs)

section \<open>Order\<close>

definition f32_between :: "f32 \<Rightarrow> f32 \<Rightarrow> f32 \<Rightarrow> bool" where
  "f32_between lo hi x \<longleftrightarrow> f32_le lo x \<and> f32_le x hi"

lemma f32_clamp_between:
  "\<not> f32_is_nan x \<Longrightarrow> f32_le lo hi \<Longrightarrow> f32_between lo hi (f32_clamp x lo hi)"
  using fv_clamp_bounds [of "f32_val x" F32 "f32_val lo" "f32_val hi"]
  by (simp add: f32_between_def f32_le_def f32_is_nan_def f32_val_clamp)

lemma f32_clamp_id: "f32_between lo hi x \<Longrightarrow> f32_clamp x lo hi = x"
  by (auto simp: f32_between_def f32_le_def f32_clamp_def f32_lt_def fv_lt_def fv_le_def Let_def)

lemma f32_between_finite:
  "f32_between lo hi x \<Longrightarrow> f32_is_finite lo \<Longrightarrow> f32_is_finite hi \<Longrightarrow> f32_is_finite x"
  using fv_le_fin_between [of F32 "f32_val lo" "f32_val x" "f32_val hi"]
  by (simp add: f32_between_def f32_le_def f32_is_finite_def)

lemma f32_finite_not_nan: "f32_is_finite a \<Longrightarrow> \<not> f32_is_nan a"
  by (auto simp: f32_is_finite_def f32_is_nan_def)

end
