(* ===== verification/Wire.thy ===== *)
theory Wire
  imports Utf8 Text_Format Rust_Float
begin

text \<open>
  \<^verbatim>\<open>server/src/generated/runtime.rs\<close>: the decode errors, the allocation limits, the \<^verbatim>\<open>Writer\<close> and
  the \<^verbatim>\<open>Reader\<close>. A \<^verbatim>\<open>&mut\<close> method is a function on the state that also returns the state when
  it fails, so that what a failed read leaves behind can be stated. \<^verbatim>\<open>usize\<close> positions and lengths
  are \<open>nat\<close> (a buffer never exceeds the address space); a panic is \<open>None\<close>. Signed integers are
  their two's complement words.
\<close>

section \<open>Errors and limits\<close>

datatype decode_error =
    UnexpectedEof nat nat
  | InvalidBool u8
  | InvalidUtf8
  | LengthOverflow nat nat

definition show_decode_error :: "decode_error \<Rightarrow> string" where
  "show_decode_error e = (case e of
     UnexpectedEof needed remaining \<Rightarrow>
       ''unexpected eof: needed '' @ show_nat needed @ '' bytes, '' @ show_nat remaining @ '' remaining''
   | InvalidBool byte \<Rightarrow>
       ''invalid bool: 0x'' @ pad_zero 2 (show_hex (unat byte)) @ '' is neither 0x00 nor 0x01''
   | InvalidUtf8 \<Rightarrow> ''invalid utf-8 in string''
   | LengthOverflow len limit \<Rightarrow>
       ''length overflow: length '' @ show_nat len @ '' exceeds limit '' @ show_nat limit)"

record limits =
  max_string_len :: nat
  max_bytes_len :: nat
  max_array_count :: nat

definition u32_MAX :: nat where
  "u32_MAX = 4294967295"

definition UNLIMITED :: limits where
  "UNLIMITED = \<lparr>max_string_len = u32_MAX, max_bytes_len = u32_MAX, max_array_count = u32_MAX\<rparr>"

definition default_limits :: limits where
  "default_limits = UNLIMITED"

section \<open>Little-endian bytes\<close>

fun le_bytes :: "nat \<Rightarrow> nat \<Rightarrow> u8 list" where
  "le_bytes 0 v = []"
| "le_bytes (Suc n) v = of_nat (v mod 256) # le_bytes n (v div 256)"

fun le_value :: "u8 list \<Rightarrow> nat" where
  "le_value [] = 0"
| "le_value (b # bs) = unat b + 256 * le_value bs"

lemma length_le_bytes [simp]: "length (le_bytes n v) = n"
  by (induction n arbitrary: v) simp_all

lemma le_value_le_bytes: "v < 256 ^ n \<Longrightarrow> le_value (le_bytes n v) = v"
proof (induction n arbitrary: v)
  case (Suc n)
  then have "v div 256 < 256 ^ n" by (simp add: less_mult_imp_div_less mult.commute)
  with Suc.IH show ?case by (simp add: unat_of_nat)
qed simp

lemma le_value_bound: "le_value bs < 256 ^ length bs"
proof (induction bs)
  case (Cons b bs)
  then have "256 * le_value bs + 256 \<le> 256 * 256 ^ length bs" by simp
  then show ?case using unsigned_less [of b, where 'a = nat] by simp
qed simp

lemma le_bytes_le_value: "le_bytes (length bs) (le_value bs) = bs"
proof (induction bs)
  case (Cons b bs)
  have "(unat b + 256 * le_value bs) mod 256 = unat b" "(unat b + 256 * le_value bs) div 256 = le_value bs"
    using unsigned_less [of b, where 'a = nat] by simp_all
  with Cons show ?case by simp
qed simp

definition to_le :: "'a::len word \<Rightarrow> u8 list" where
  "to_le w = le_bytes (LENGTH('a) div 8) (unat w)"

definition from_le :: "u8 list \<Rightarrow> 'a::len word" where
  "from_le bs = of_nat (le_value bs)"

lemma from_le_to_le:
  assumes "8 * (LENGTH('a) div 8) = LENGTH('a)"
  shows "from_le (to_le w) = (w :: 'a::len word)"
proof -
  have "(256::nat) ^ (LENGTH('a) div 8) = 2 ^ (8 * (LENGTH('a) div 8))" by (simp add: power_mult)
  then have "unat w < 256 ^ (LENGTH('a) div 8)" using unsigned_less [of w, where 'a = nat] assms by simp
  then show ?thesis by (simp add: from_le_def to_le_def le_value_le_bytes)
qed

section \<open>Writer\<close>

record writer =
  w_buf :: "u8 list"

definition writer_new :: writer where
  "writer_new = \<lparr>w_buf = []\<rparr>"

definition writer_with_capacity :: "nat \<Rightarrow> writer" where
  "writer_with_capacity capacity = \<lparr>w_buf = []\<rparr>"

definition as_slice :: "writer \<Rightarrow> u8 list" where
  "as_slice w = w_buf w"

definition into_bytes :: "writer \<Rightarrow> u8 list" where
  "into_bytes w = w_buf w"

definition writer_len :: "writer \<Rightarrow> nat" where
  "writer_len w = length (w_buf w)"

definition writer_is_empty :: "writer \<Rightarrow> bool" where
  "writer_is_empty w \<longleftrightarrow> w_buf w = []"

definition writer_clear :: "writer \<Rightarrow> writer" where
  "writer_clear w = w\<lparr>w_buf := []\<rparr>"

definition push_bytes :: "u8 list \<Rightarrow> writer \<Rightarrow> writer" where
  "push_bytes bs w = w\<lparr>w_buf := w_buf w @ bs\<rparr>"

definition write_bool :: "bool \<Rightarrow> writer \<Rightarrow> writer" where
  "write_bool value w = push_bytes [if value then 1 else 0] w"

definition write_i8 :: "u8 \<Rightarrow> writer \<Rightarrow> writer" where
  "write_i8 value w = push_bytes [value] w"

definition write_u8 :: "u8 \<Rightarrow> writer \<Rightarrow> writer" where
  "write_u8 value w = push_bytes [value] w"

definition write_i16 :: "u16 \<Rightarrow> writer \<Rightarrow> writer" where
  "write_i16 value w = push_bytes (to_le value) w"

definition write_u16 :: "u16 \<Rightarrow> writer \<Rightarrow> writer" where
  "write_u16 value w = push_bytes (to_le value) w"

definition write_i32 :: "u32 \<Rightarrow> writer \<Rightarrow> writer" where
  "write_i32 value w = push_bytes (to_le value) w"

definition write_u32 :: "u32 \<Rightarrow> writer \<Rightarrow> writer" where
  "write_u32 value w = push_bytes (to_le value) w"

definition write_i64 :: "u64 \<Rightarrow> writer \<Rightarrow> writer" where
  "write_i64 value w = push_bytes (to_le value) w"

definition write_u64 :: "u64 \<Rightarrow> writer \<Rightarrow> writer" where
  "write_u64 value w = push_bytes (to_le value) w"

definition write_f32 :: "f32 \<Rightarrow> writer \<Rightarrow> writer" where
  "write_f32 value w = push_bytes (to_le value) w"

definition write_f64 :: "f64 \<Rightarrow> writer \<Rightarrow> writer" where
  "write_f64 value w = push_bytes (to_le value) w"

text \<open>\<^verbatim>\<open>write_len\<close> panics when the length does not fit in a \<^verbatim>\<open>u32\<close>.\<close>

definition write_len :: "nat \<Rightarrow> writer \<Rightarrow> writer option" where
  "write_len len w = (if len \<le> u32_MAX then Some (write_u32 (of_nat len) w) else None)"

definition write_bytes :: "u8 list \<Rightarrow> writer \<Rightarrow> writer option" where
  "write_bytes value w = map_option (push_bytes value) (write_len (length value) w)"

definition write_string :: "string \<Rightarrow> writer \<Rightarrow> writer option" where
  "write_string value w =
     map_option (push_bytes (bytes_of_string value)) (write_len (length (bytes_of_string value)) w)"

definition write_array_count :: "nat \<Rightarrow> writer \<Rightarrow> writer option" where
  "write_array_count count w = write_len count w"

section \<open>Reader\<close>

record reader =
  r_buf :: "u8 list"
  r_pos :: nat
  r_limits :: limits

type_synonym 'a reading = "reader \<Rightarrow> (decode_error + 'a) \<times> reader"

definition reader_new :: "u8 list \<Rightarrow> reader" where
  "reader_new buf = \<lparr>r_buf = buf, r_pos = 0, r_limits = UNLIMITED\<rparr>"

definition reader_limits :: "reader \<Rightarrow> limits" where
  "reader_limits r = r_limits r"

definition reader_with_limits :: "u8 list \<Rightarrow> limits \<Rightarrow> reader" where
  "reader_with_limits buf limits = \<lparr>r_buf = buf, r_pos = 0, r_limits = limits\<rparr>"

definition reader_position :: "reader \<Rightarrow> nat" where
  "reader_position r = r_pos r"

definition remaining :: "reader \<Rightarrow> nat" where
  "remaining r = length (r_buf r) - r_pos r"

definition reader_is_empty :: "reader \<Rightarrow> bool" where
  "reader_is_empty r \<longleftrightarrow> remaining r = 0"

definition field_absent :: "reader \<Rightarrow> bool" where
  "field_absent r \<longleftrightarrow> remaining r = 0"

definition reader_take :: "nat \<Rightarrow> u8 list reading" where
  "reader_take len r =
     (if remaining r < len then (Inl (UnexpectedEof len (remaining r)), r)
      else (Inr (take len (drop (r_pos r) (r_buf r))), r\<lparr>r_pos := r_pos r + len\<rparr>))"

text \<open>\<^verbatim>\<open>let x = read(...)?\<close> followed by a pure use of \<^verbatim>\<open>x\<close>.\<close>

definition reading_map :: "('a \<Rightarrow> 'b) \<Rightarrow> 'a reading \<Rightarrow> 'b reading" where
  "reading_map f rd r = (case rd r of (Inl e, r') \<Rightarrow> (Inl e, r') | (Inr x, r') \<Rightarrow> (Inr (f x), r'))"

definition read_u8 :: "u8 reading" where
  "read_u8 = reading_map hd (reader_take 1)"

definition read_i8 :: "u8 reading" where
  "read_i8 = reading_map hd (reader_take 1)"

definition read_bool :: "bool reading" where
  "read_bool r = (case read_u8 r of (Inl e, r') \<Rightarrow> (Inl e, r')
     | (Inr byte, r') \<Rightarrow>
        if byte = 0 then (Inr False, r') else if byte = 1 then (Inr True, r')
        else (Inl (InvalidBool byte), r'\<lparr>r_pos := r_pos r' - 1\<rparr>))"

definition read_i16 :: "u16 reading" where
  "read_i16 = reading_map from_le (reader_take 2)"

definition read_u16 :: "u16 reading" where
  "read_u16 = reading_map from_le (reader_take 2)"

definition read_u32 :: "u32 reading" where
  "read_u32 = reading_map from_le (reader_take 4)"

definition read_i32 :: "u32 reading" where
  "read_i32 = read_u32"

definition read_u64 :: "u64 reading" where
  "read_u64 = reading_map from_le (reader_take 8)"

definition read_i64 :: "u64 reading" where
  "read_i64 = read_u64"

definition read_f32 :: "f32 reading" where
  "read_f32 = read_u32"

definition read_f64 :: "f64 reading" where
  "read_f64 = read_u64"

definition read_len :: "nat \<Rightarrow> nat reading" where
  "read_len limit r = (case read_u32 r of (Inl e, r') \<Rightarrow> (Inl e, r')
     | (Inr v, r') \<Rightarrow>
        if limit < unat v then (Inl (LengthOverflow (unat v) limit), r'\<lparr>r_pos := r_pos r\<rparr>)
        else (Inr (unat v), r'))"

definition read_string :: "string reading" where
  "read_string r = (case read_len (max_string_len (r_limits r)) r of (Inl e, r') \<Rightarrow> (Inl e, r')
     | (Inr len, r1) \<Rightarrow>
        (case reader_take len r1 of
           (Inl e, r2) \<Rightarrow> (Inl e, r2\<lparr>r_pos := r_pos r\<rparr>)
         | (Inr bytes, r2) \<Rightarrow>
             if utf8_ok bytes then (Inr (string_of_bytes bytes), r2)
             else (Inl InvalidUtf8, r2\<lparr>r_pos := r_pos r\<rparr>)))"

definition read_bytes :: "u8 list reading" where
  "read_bytes r = (case read_len (max_bytes_len (r_limits r)) r of (Inl e, r') \<Rightarrow> (Inl e, r')
     | (Inr len, r1) \<Rightarrow>
        (case reader_take len r1 of
           (Inl e, r2) \<Rightarrow> (Inl e, r2\<lparr>r_pos := r_pos r\<rparr>)
         | (Inr bytes, r2) \<Rightarrow> (Inr bytes, r2)))"

definition read_array_count :: "nat reading" where
  "read_array_count r = read_len (max_array_count (r_limits r)) r"

end
