(* ===== verification/Wire_Laws.thy ===== *)
theory Wire_Laws
  imports Wire "HOL-Library.Sublist"
begin

text \<open>
  What the generated codecs rely on in \<^verbatim>\<open>runtime.rs\<close>, as the locale \<open>wire_type\<close>: a value written
  is read back with the bytes after it left alone, a value cut short is an \<^verbatim>\<open>UnexpectedEof\<close>, a
  failed read leaves the cursor where it was, and a read that succeeds stays inside the buffer.
  The locale is interpreted on every primitive of the \<^verbatim>\<open>Writer\<close>/\<^verbatim>\<open>Reader\<close> pair.
\<close>

section \<open>Cursor\<close>

definition rest :: "reader \<Rightarrow> u8 list" where
  "rest r = drop (r_pos r) (r_buf r)"

definition advance :: "nat \<Rightarrow> reader \<Rightarrow> reader" where
  "advance n r = r\<lparr>r_pos := r_pos r + n\<rparr>"

definition reader_ok :: "reader \<Rightarrow> bool" where
  "reader_ok r \<longleftrightarrow> r_pos r \<le> length (r_buf r)"

lemma advance_simps [simp]:
  "r_buf (advance n r) = r_buf r" "r_pos (advance n r) = r_pos r + n"
  "r_limits (advance n r) = r_limits r" "advance 0 r = r"
  "advance m (advance n r) = advance (n + m) r"
  by (simp_all add: advance_def)

lemma reader_set_pos [simp]: "advance n r\<lparr>r_pos := r_pos r\<rparr> = r"
  by (simp add: advance_def)

lemma rest_advance [simp]: "rest (advance n r) = drop n (rest r)"
  by (simp add: rest_def add.commute)

lemma advance_stays:
  "0 < n \<Longrightarrow> n \<le> length (rest r) \<Longrightarrow> \<exists>m > 0. m \<le> length (rest r) \<and> advance n r = advance m r"
  by blast

lemma remaining_rest: "remaining r = length (rest r)"
  by (simp add: remaining_def rest_def)

lemma field_absent_rest: "field_absent r \<longleftrightarrow> rest r = []"
  by (simp add: field_absent_def remaining_rest)

lemma reader_ok_advance: "reader_ok r \<Longrightarrow> reader_ok (advance n r) \<longleftrightarrow> n \<le> length (rest r)"
  by (auto simp: reader_ok_def rest_def)

lemma reader_new_simps [simp]:
  "rest (reader_new buf) = buf" "reader_ok (reader_new buf)" "r_limits (reader_new buf) = UNLIMITED"
  "r_pos (reader_new buf) = 0" "r_buf (reader_new buf) = buf"
  by (simp_all add: reader_new_def rest_def reader_ok_def)

lemma reader_take_eq:
  "reader_take n r = (if length (rest r) < n then (Inl (UnexpectedEof n (length (rest r))), r)
     else (Inr (take n (rest r)), advance n r))"
  by (simp add: reader_take_def remaining_rest rest_def advance_def)

section \<open>The interface of a wire type\<close>

locale wire_type =
  fixes fits :: "limits \<Rightarrow> 'a \<Rightarrow> bool"
    and enc :: "'a \<Rightarrow> u8 list"
    and rd :: "'a reading"
  assumes enc_not_Nil: "enc x \<noteq> []"
    and read_back: "fits (r_limits r) x \<Longrightarrow> rest r = enc x @ tail \<Longrightarrow>
          rd r = (Inr x, advance (length (enc x)) r)"
    and cut_short: "fits (r_limits r) x \<Longrightarrow> strict_prefix (rest r) (enc x) \<Longrightarrow>
          \<exists>needed left. rd r = (Inl (UnexpectedEof needed left), r)"
    and failed_unchanged: "rd r = (Inl e, r') \<Longrightarrow> r' = r"
    and stays_inside: "rd r = (Inr x, r') \<Longrightarrow>
          \<exists>n. 0 < n \<and> n \<le> length (rest r) \<and> r' = advance n r"
begin

lemma ok_preserved: "reader_ok r \<Longrightarrow> reader_ok (snd (rd r))"
proof (cases "rd r")
  case (Pair res r')
  assume ok: "reader_ok r"
  show ?thesis
  proof (cases res)
    case (Inl e)
    with Pair have "r' = r" by (auto intro: failed_unchanged)
    with Pair ok show ?thesis by simp
  next
    case (Inr x)
    with Pair stays_inside obtain n where "n \<le> length (rest r)" "r' = advance n r" by blast
    with Pair ok show ?thesis by (simp add: reader_ok_advance)
  qed
qed

lemma limits_kept: "r_limits (snd (rd r)) = r_limits r \<and> r_buf (snd (rd r)) = r_buf r"
proof (cases "rd r")
  case (Pair res r')
  then show ?thesis
    by (cases res) (auto dest: failed_unchanged stays_inside)
qed

lemma never_goes_back: "r_pos r \<le> r_pos (snd (rd r))"
proof (cases "rd r")
  case (Pair res r')
  then show ?thesis
    by (cases res) (auto dest: failed_unchanged stays_inside)
qed

lemma empty_is_eof: "fits (r_limits r) x \<Longrightarrow> rest r = [] \<Longrightarrow>
    \<exists>needed left. rd r = (Inl (UnexpectedEof needed left), r)"
  using cut_short [of r x] enc_not_Nil [of x] by (auto simp: strict_prefix_def)

lemma read_new: "fits UNLIMITED x \<Longrightarrow> rd (reader_new (enc x @ tail)) = (Inr x, advance (length (enc x)) (reader_new (enc x @ tail)))"
  by (rule read_back) simp_all

lemma uniquely_decodable:
  assumes fits: "fits UNLIMITED x" "fits UNLIMITED y" and eq: "enc x @ s = enc y @ t"
  shows "x = y \<and> s = t"
proof -
  have "x = y" using read_new [OF fits(1), of s] read_new [OF fits(2), of t] eq by simp
  with eq show ?thesis by simp
qed

end

section \<open>Fixed-width types\<close>

text \<open>A read that takes \<open>n\<close> bytes and converts them.\<close>

lemma fixed_width:
  assumes n: "\<And>x. length (enc x) = n" "0 < n" and conv: "\<And>x. f (enc x) = x"
  shows "wire_type (\<lambda>l x. True) enc (reading_map f (reader_take n))"
proof
  fix r x tail
  show "enc x \<noteq> []" using n by (metis length_0_conv less_not_refl)
  show "rest r = enc x @ tail \<Longrightarrow>
      reading_map f (reader_take n) r = (Inr x, advance (length (enc x)) r)"
    using n conv by (simp add: reading_map_def reader_take_eq)
  show "strict_prefix (rest r) (enc x) \<Longrightarrow>
      \<exists>needed left. reading_map f (reader_take n) r = (Inl (UnexpectedEof needed left), r)"
    using n prefix_length_less [of "rest r" "enc x"] by (simp add: reading_map_def reader_take_eq)
qed (use n in \<open>auto simp: reading_map_def reader_take_eq split: if_splits\<close>)

lemma to_le_from_le:
  assumes "8 * length bs = LENGTH('a::len)"
  shows "to_le (from_le bs :: 'a word) = bs"
proof -
  have "le_value bs < 2 ^ LENGTH('a)"
    using le_value_bound [of bs] unfolding assms [symmetric] by (simp add: power_mult)
  then have "unat (from_le bs :: 'a word) = le_value bs" by (simp add: from_le_def unat_of_nat)
  moreover have "LENGTH('a) div 8 = length bs" unfolding assms [symmetric] by simp
  ultimately show ?thesis using le_bytes_le_value [of bs] by (simp add: to_le_def)
qed

lemma le_bytes_numeral [simp]:
  "le_bytes (numeral k) v = of_nat (v mod 256) # le_bytes (pred_numeral k) (v div 256)"
  by (simp only: numeral_eq_Suc [of k] le_bytes.simps)

lemma length_to_le: "length (to_le (w :: 'a::len word)) = LENGTH('a) div 8"
  by (simp add: to_le_def)

interpretation wire_u8: wire_type "\<lambda>l x. True" "\<lambda>x. [x]" read_u8
  unfolding read_u8_def by (rule fixed_width) simp_all

interpretation wire_i8: wire_type "\<lambda>l x. True" "\<lambda>x. [x]" read_i8
  unfolding read_i8_def by (rule fixed_width) simp_all

interpretation wire_u16: wire_type "\<lambda>l x. True" to_le read_u16
  unfolding read_u16_def by (rule fixed_width) (simp_all add: length_to_le from_le_to_le)

interpretation wire_i16: wire_type "\<lambda>l x. True" to_le read_i16
  unfolding read_i16_def by (rule fixed_width) (simp_all add: length_to_le from_le_to_le)

interpretation wire_u32: wire_type "\<lambda>l x. True" to_le read_u32
  unfolding read_u32_def by (rule fixed_width) (simp_all add: length_to_le from_le_to_le)

interpretation wire_i32: wire_type "\<lambda>l x. True" to_le read_i32
  unfolding read_i32_def by unfold_locales

interpretation wire_f32: wire_type "\<lambda>l x. True" to_le read_f32
  unfolding read_f32_def by unfold_locales

interpretation wire_u64: wire_type "\<lambda>l x. True" to_le read_u64
  unfolding read_u64_def by (rule fixed_width) (simp_all add: length_to_le from_le_to_le)

interpretation wire_i64: wire_type "\<lambda>l x. True" to_le read_i64
  unfolding read_i64_def by unfold_locales

interpretation wire_f64: wire_type "\<lambda>l x. True" to_le read_f64
  unfolding read_f64_def by unfold_locales

section \<open>Booleans\<close>

definition bool_bytes :: "bool \<Rightarrow> u8 list" where
  "bool_bytes b = [if b then 1 else 0]"

lemma read_u8_eq: "read_u8 r = (case rest r of [] \<Rightarrow> (Inl (UnexpectedEof 1 0), r)
     | b # bs \<Rightarrow> (Inr b, advance 1 r))"
  by (simp add: read_u8_def reading_map_def reader_take_eq split: list.split)

lemma read_bool_eq: "read_bool r = (case rest r of [] \<Rightarrow> (Inl (UnexpectedEof 1 0), r)
     | b # bs \<Rightarrow> if b = 0 then (Inr False, advance 1 r) else if b = 1 then (Inr True, advance 1 r)
         else (Inl (InvalidBool b), r))"
  by (simp add: read_bool_def read_u8_eq advance_def split: list.split)

interpretation wire_bool: wire_type "\<lambda>l x. True" bool_bytes read_bool
  by unfold_locales (auto simp: bool_bytes_def read_bool_eq strict_prefix_def prefix_Cons
      split: list.splits if_splits)

section \<open>Length-prefixed types\<close>

definition len_bytes :: "nat \<Rightarrow> u8 list" where
  "len_bytes n = to_le (of_nat n :: u32)"

lemma length_len_bytes [simp]: "length (len_bytes n) = 4"
  by (simp add: len_bytes_def length_to_le)

lemma unat_u32: "n \<le> u32_MAX \<Longrightarrow> unat (of_nat n :: u32) = n"
  by (simp add: u32_MAX_def unat_of_nat)

lemma read_u32_eq: "read_u32 r = (if length (rest r) < 4 then (Inl (UnexpectedEof 4 (length (rest r))), r)
     else (Inr (from_le (take 4 (rest r))), advance 4 r))"
  by (simp add: read_u32_def reading_map_def reader_take_eq)

lemma read_len_eq: "read_len limit r =
    (if length (rest r) < 4 then (Inl (UnexpectedEof 4 (length (rest r))), r)
     else let v = unat (from_le (take 4 (rest r)) :: u32)
       in if limit < v then (Inl (LengthOverflow v limit), r) else (Inr v, advance 4 r))"
  by (simp add: read_len_def read_u32_eq Let_def)

lemma read_len_back:
  "n \<le> limit \<Longrightarrow> n \<le> u32_MAX \<Longrightarrow> rest r = len_bytes n @ tail \<Longrightarrow>
     read_len limit r = (Inr n, advance 4 r)"
  by (simp add: read_len_eq unat_u32) (simp add: len_bytes_def from_le_to_le unat_u32)

interpretation wire_count: wire_type "\<lambda>l n. n \<le> max_array_count l \<and> n \<le> u32_MAX" len_bytes read_array_count
proof
  fix r x
  show "len_bytes x \<noteq> []" using length_len_bytes [of x] by (metis list.size(3) zero_neq_numeral)
  assume "strict_prefix (rest r) (len_bytes x)"
  then show "\<exists>needed left. read_array_count r = (Inl (UnexpectedEof needed left), r)"
    using prefix_length_less [of "rest r" "len_bytes x"]
    by (simp add: read_array_count_def read_len_eq)
next
  fix r x tail
  assume "x \<le> max_array_count (r_limits r) \<and> x \<le> u32_MAX" "rest r = len_bytes x @ tail"
  then show "read_array_count r = (Inr x, advance (length (len_bytes x)) r)"
    using read_len_back [of x _ r tail] by (simp add: read_array_count_def)
qed (auto simp: read_array_count_def read_len_eq Let_def not_less split: if_splits intro!: advance_stays)

definition blob_bytes :: "u8 list \<Rightarrow> u8 list" where
  "blob_bytes bs = len_bytes (length bs) @ bs"

definition str_bytes :: "string \<Rightarrow> u8 list" where
  "str_bytes s = blob_bytes (bytes_of_string s)"

text \<open>A length, the limit check, then that many bytes: the common part of both reads.\<close>

lemma read_bytes_eq: "read_bytes r =
    (case read_len (max_bytes_len (r_limits r)) r of (Inl e, r') \<Rightarrow> (Inl e, r)
     | (Inr n, r') \<Rightarrow> if length (rest r) < 4 + n then (Inl (UnexpectedEof n (length (rest r) - 4)), r)
         else (Inr (take n (drop 4 (rest r))), advance (4 + n) r))"
  by (auto simp: read_bytes_def read_len_eq reader_take_eq Let_def)

lemma read_string_eq: "read_string r =
    (case read_len (max_string_len (r_limits r)) r of (Inl e, r') \<Rightarrow> (Inl e, r)
     | (Inr n, r') \<Rightarrow> if length (rest r) < 4 + n then (Inl (UnexpectedEof n (length (rest r) - 4)), r)
         else if utf8_ok (take n (drop 4 (rest r)))
           then (Inr (string_of_bytes (take n (drop 4 (rest r)))), advance (4 + n) r)
         else (Inl InvalidUtf8, r))"
  by (auto simp: read_string_def read_len_eq reader_take_eq Let_def)

lemma blob_cut:
  assumes cut: "strict_prefix (rest r) (blob_bytes bs)" and len: "length bs \<le> limit" "length bs \<le> u32_MAX"
  shows "length (rest r) < 4 \<or>
     (read_len limit r = (Inr (length bs), advance 4 r) \<and> length (rest r) < 4 + length bs)"
proof (cases "length (rest r) < 4")
  case False
  from cut obtain t where t: "rest r @ t = len_bytes (length bs) @ bs" "t \<noteq> []"
    by (auto simp: strict_prefix_def prefix_def blob_bytes_def)
  then have "take 4 (rest r) = len_bytes (length bs)" using False
    by (metis append_eq_conv_conj append_take_drop_id length_len_bytes take_append
        append_Nil2 diff_is_0_eq linorder_not_less take_0)
  then have "rest r = len_bytes (length bs) @ drop 4 (rest r)" by (metis append_take_drop_id)
  then have "read_len limit r = (Inr (length bs), advance 4 r)" using len read_len_back by blast
  moreover have "length (rest r) < 4 + length bs"
    using prefix_length_less [OF cut] by (simp add: blob_bytes_def)
  ultimately show ?thesis by simp
qed simp

interpretation wire_blob: wire_type
  "\<lambda>l bs. length bs \<le> max_bytes_len l \<and> length bs \<le> u32_MAX" blob_bytes read_bytes
proof
  fix r x
  show "blob_bytes x \<noteq> []" using wire_count.enc_not_Nil by (simp add: blob_bytes_def)
  assume "length x \<le> max_bytes_len (r_limits r) \<and> length x \<le> u32_MAX"
    "strict_prefix (rest r) (blob_bytes x)"
  then show "\<exists>needed left. read_bytes r = (Inl (UnexpectedEof needed left), r)"
    using blob_cut by (fastforce simp: read_bytes_eq read_len_eq)
next
  fix r x tail
  assume "length x \<le> max_bytes_len (r_limits r) \<and> length x \<le> u32_MAX" "rest r = blob_bytes x @ tail"
  then show "read_bytes r = (Inr x, advance (length (blob_bytes x)) r)"
    using read_len_back [of "length x" _ r "x @ tail"] by (simp add: read_bytes_eq blob_bytes_def)
qed (auto simp: read_bytes_eq read_len_eq Let_def split: if_splits intro!: advance_stays)

interpretation wire_string: wire_type
  "\<lambda>l s. length s \<le> max_string_len l \<and> length s \<le> u32_MAX \<and> utf8_ok (bytes_of_string s)"
  str_bytes read_string
proof
  fix r x
  show "str_bytes x \<noteq> []" using wire_blob.enc_not_Nil by (simp add: str_bytes_def)
  assume "length x \<le> max_string_len (r_limits r) \<and> length x \<le> u32_MAX \<and> utf8_ok (bytes_of_string x)"
    "strict_prefix (rest r) (str_bytes x)"
  then show "\<exists>needed left. read_string r = (Inl (UnexpectedEof needed left), r)"
    using blob_cut [of r "bytes_of_string x"] by (fastforce simp: read_string_eq read_len_eq str_bytes_def)
next
  fix r x tail
  assume "length x \<le> max_string_len (r_limits r) \<and> length x \<le> u32_MAX \<and> utf8_ok (bytes_of_string x)"
    "rest r = str_bytes x @ tail"
  then show "read_string r = (Inr x, advance (length (str_bytes x)) r)"
    using read_len_back [of "length x" _ r "bytes_of_string x @ tail"]
    by (simp add: read_string_eq str_bytes_def blob_bytes_def)
qed (auto simp: read_string_eq read_len_eq Let_def split: if_splits intro!: advance_stays)

section \<open>What the writer appends\<close>

lemma write_bytes_of [simp]:
  "w_buf (write_u8 x w) = w_buf w @ [x]" "w_buf (write_i8 x w) = w_buf w @ [x]"
  "w_buf (write_bool b w) = w_buf w @ bool_bytes b"
  "w_buf (write_u16 h w) = w_buf w @ to_le h" "w_buf (write_i16 h w) = w_buf w @ to_le h"
  "w_buf (write_u32 v w) = w_buf w @ to_le v" "w_buf (write_i32 v w) = w_buf w @ to_le v"
  "w_buf (write_f32 v w) = w_buf w @ to_le v"
  "w_buf (write_u64 d w) = w_buf w @ to_le d" "w_buf (write_i64 d w) = w_buf w @ to_le d"
  "w_buf (write_f64 d w) = w_buf w @ to_le d"
  by (simp_all add: push_bytes_def bool_bytes_def write_u8_def write_i8_def write_bool_def
      write_u16_def write_i16_def write_u32_def write_i32_def write_f32_def write_u64_def
      write_i64_def write_f64_def)

lemma write_len_some: "n \<le> u32_MAX \<Longrightarrow> write_len n w = Some (push_bytes (len_bytes n) w)"
  by (simp add: write_len_def write_u32_def len_bytes_def)

lemma push_push [simp]: "push_bytes b (push_bytes a w) = push_bytes (a @ b) w"
  by (simp add: push_bytes_def)

lemma write_string_some: "length s \<le> u32_MAX \<Longrightarrow> write_string s w = Some (push_bytes (str_bytes s) w)"
  by (simp add: write_string_def write_len_some str_bytes_def blob_bytes_def)

lemma write_bytes_some: "length b \<le> u32_MAX \<Longrightarrow> write_bytes b w = Some (push_bytes (blob_bytes b) w)"
  by (simp add: write_bytes_def write_len_some blob_bytes_def)

lemma write_len_none: "u32_MAX < n \<Longrightarrow> write_len n w = None"
  by (simp add: write_len_def)

lemma w_buf_push [simp]: "w_buf (push_bytes b w) = w_buf w @ b"
  by (simp add: push_bytes_def)

end
