(* ===== verification/Protocol.thy ===== *)
theory Protocol
  imports Wire_Laws
begin

text \<open>
  The message models of \<^verbatim>\<open>server/src/models/protocol.rs\<close> and the codecs generated for them
  (\<^verbatim>\<open>server/src/generated/*_game.rs\<close>). A decoder fills \<^verbatim>\<open>&mut value\<close> field by field: its state is the
  reader with the value so far, and both survive an error. Field names carry a prefix because
  record fields share one name space.
\<close>

section \<open>Models\<close>

record ClientHello =
  ch_client_kind :: u8
  ch_display_name :: string

record Welcome =
  wl_player_id :: u32
  wl_plane_half_size :: f32
  wl_tick_rate :: u16

record PlayerInput =
  pi_sequence :: u32
  pi_move_x :: f32
  pi_move_z :: f32
  pi_jump :: bool
  pi_look_yaw :: f32
  pi_look_pitch :: f32

record PlayerState =
  ps_player_id :: u32
  ps_client_kind :: u8
  ps_color :: u32
  ps_position_x :: f32
  ps_position_z :: f32
  ps_position_y :: f32
  ps_look_yaw :: f32
  ps_look_pitch :: f32

record WorldSnapshot =
  ws_tick :: u32
  ws_players :: "PlayerState list"

text \<open>\<^verbatim>\<open>#[derive(Default)]\<close>: zeros, \<^verbatim>\<open>false\<close> and empty strings and vectors.\<close>

definition default_client_hello :: ClientHello where
  "default_client_hello = \<lparr>ch_client_kind = 0, ch_display_name = ''''\<rparr>"

definition default_welcome :: Welcome where
  "default_welcome = \<lparr>wl_player_id = 0, wl_plane_half_size = 0, wl_tick_rate = 0\<rparr>"

definition default_player_input :: PlayerInput where
  "default_player_input = \<lparr>pi_sequence = 0, pi_move_x = 0, pi_move_z = 0, pi_jump = False,
     pi_look_yaw = 0, pi_look_pitch = 0\<rparr>"

definition default_player_state :: PlayerState where
  "default_player_state = \<lparr>ps_player_id = 0, ps_client_kind = 0, ps_color = 0, ps_position_x = 0,
     ps_position_z = 0, ps_position_y = 0, ps_look_yaw = 0, ps_look_pitch = 0\<rparr>"

definition default_world_snapshot :: WorldSnapshot where
  "default_world_snapshot = \<lparr>ws_tick = 0, ws_players = []\<rparr>"

section \<open>Encoders\<close>

definition ClientHelloGameCodec_encode :: "ClientHello \<Rightarrow> writer \<Rightarrow> writer option" where
  "ClientHelloGameCodec_encode v w = write_string (ch_display_name v) (write_u8 (ch_client_kind v) w)"

definition WelcomeGameCodec_encode :: "Welcome \<Rightarrow> writer \<Rightarrow> writer" where
  "WelcomeGameCodec_encode v w =
     write_u16 (wl_tick_rate v) (write_f32 (wl_plane_half_size v) (write_u32 (wl_player_id v) w))"

definition PlayerInputGameCodec_encode :: "PlayerInput \<Rightarrow> writer \<Rightarrow> writer" where
  "PlayerInputGameCodec_encode v w =
    (let w = write_u32 (pi_sequence v) w;
         w = write_f32 (pi_move_x v) w;
         w = write_f32 (pi_move_z v) w;
         w = write_bool (pi_jump v) w;
         w = write_f32 (pi_look_yaw v) w
      in write_f32 (pi_look_pitch v) w)"

definition PlayerStateGameCodec_encode :: "PlayerState \<Rightarrow> writer \<Rightarrow> writer" where
  "PlayerStateGameCodec_encode v w =
    (let w = write_u32 (ps_player_id v) w;
         w = write_u8 (ps_client_kind v) w;
         w = write_u32 (ps_color v) w;
         w = write_f32 (ps_position_x v) w;
         w = write_f32 (ps_position_z v) w;
         w = write_f32 (ps_position_y v) w;
         w = write_f32 (ps_look_yaw v) w
      in write_f32 (ps_look_pitch v) w)"

definition WorldSnapshotGameCodec_encode :: "WorldSnapshot \<Rightarrow> writer \<Rightarrow> writer option" where
  "WorldSnapshotGameCodec_encode v w =
     map_option (fold PlayerStateGameCodec_encode (ws_players v))
       (write_array_count (length (ws_players v)) (write_u32 (ws_tick v) w))"

section \<open>Decoders\<close>

type_synonym 'a step = "reader \<times> 'a \<Rightarrow> decode_error option \<times> reader \<times> 'a"

text \<open>\<^verbatim>\<open>value.f = if reader.field_absent() { zero } else { reader.read()? };\<close>\<close>

definition field :: "'f \<Rightarrow> 'f reading \<Rightarrow> ('f \<Rightarrow> 'a \<Rightarrow> 'a) \<Rightarrow> 'a step" where
  "field zero rd put s = (case s of (r, v) \<Rightarrow>
     if field_absent r then (None, r, put zero v)
     else (case rd r of (Inl e, r') \<Rightarrow> (Some e, r', v) | (Inr x, r') \<Rightarrow> (None, r', put x v)))"

fun run_fields :: "'a step list \<Rightarrow> 'a step" where
  "run_fields [] s = (None, s)"
| "run_fields (f # fs) s = (case f s of (Some e, s') \<Rightarrow> (Some e, s') | (None, s') \<Rightarrow> run_fields fs s')"

definition ClientHelloGameCodec_decode :: "ClientHello step" where
  "ClientHelloGameCodec_decode = run_fields
     [field 0 read_u8 (\<lambda>x v. v\<lparr>ch_client_kind := x\<rparr>),
      field '''' read_string (\<lambda>x v. v\<lparr>ch_display_name := x\<rparr>)]"

definition WelcomeGameCodec_decode :: "Welcome step" where
  "WelcomeGameCodec_decode = run_fields
     [field 0 read_u32 (\<lambda>x v. v\<lparr>wl_player_id := x\<rparr>),
      field 0 read_f32 (\<lambda>x v. v\<lparr>wl_plane_half_size := x\<rparr>),
      field 0 read_u16 (\<lambda>x v. v\<lparr>wl_tick_rate := x\<rparr>)]"

definition PlayerInputGameCodec_decode :: "PlayerInput step" where
  "PlayerInputGameCodec_decode = run_fields
     [field 0 read_u32 (\<lambda>x v. v\<lparr>pi_sequence := x\<rparr>),
      field 0 read_f32 (\<lambda>x v. v\<lparr>pi_move_x := x\<rparr>),
      field 0 read_f32 (\<lambda>x v. v\<lparr>pi_move_z := x\<rparr>),
      field False read_bool (\<lambda>x v. v\<lparr>pi_jump := x\<rparr>),
      field 0 read_f32 (\<lambda>x v. v\<lparr>pi_look_yaw := x\<rparr>),
      field 0 read_f32 (\<lambda>x v. v\<lparr>pi_look_pitch := x\<rparr>)]"

definition PlayerStateGameCodec_decode :: "PlayerState step" where
  "PlayerStateGameCodec_decode = run_fields
     [field 0 read_u32 (\<lambda>x v. v\<lparr>ps_player_id := x\<rparr>),
      field 0 read_u8 (\<lambda>x v. v\<lparr>ps_client_kind := x\<rparr>),
      field 0 read_u32 (\<lambda>x v. v\<lparr>ps_color := x\<rparr>),
      field 0 read_f32 (\<lambda>x v. v\<lparr>ps_position_x := x\<rparr>),
      field 0 read_f32 (\<lambda>x v. v\<lparr>ps_position_z := x\<rparr>),
      field 0 read_f32 (\<lambda>x v. v\<lparr>ps_position_y := x\<rparr>),
      field 0 read_f32 (\<lambda>x v. v\<lparr>ps_look_yaw := x\<rparr>),
      field 0 read_f32 (\<lambda>x v. v\<lparr>ps_look_pitch := x\<rparr>)]"

text \<open>The loop \<^verbatim>\<open>for _ in 0..count\<close> over \<^verbatim>\<open>PlayerStateGameCodec::decode\<close>, and the \<^verbatim>\<open>players\<close> field.\<close>

fun read_elements :: "nat \<Rightarrow> PlayerState list reading" where
  "read_elements 0 r = (Inr [], r)"
| "read_elements (Suc n) r = (case PlayerStateGameCodec_decode (r, default_player_state) of
     (Some e, r', element) \<Rightarrow> (Inl e, r')
   | (None, r', element) \<Rightarrow>
       (case read_elements n r' of (Inl e, r'') \<Rightarrow> (Inl e, r'')
        | (Inr elements, r'') \<Rightarrow> (Inr (element # elements), r'')))"

definition players_field :: "WorldSnapshot step" where
  "players_field s = (case s of (r, v) \<Rightarrow>
     (case (if field_absent r then (Inr 0, r) else read_array_count r) of
        (Inl e, r') \<Rightarrow> (Some e, r', v)
      | (Inr count, r') \<Rightarrow>
          (case read_elements count r' of (Inl e, r'') \<Rightarrow> (Some e, r'', v)
           | (Inr elements, r'') \<Rightarrow> (None, r'', v\<lparr>ws_players := elements\<rparr>))))"

definition WorldSnapshotGameCodec_decode :: "WorldSnapshot step" where
  "WorldSnapshotGameCodec_decode = run_fields
     [field 0 read_u32 (\<lambda>x v. v\<lparr>ws_tick := x\<rparr>), players_field]"

section \<open>\<^verbatim>\<open>messages.rs\<close>\<close>

text \<open>The functions the macro \<^verbatim>\<open>message_codec!\<close> makes: a fresh writer, a default value and a fresh reader.\<close>

definition run_decode :: "'a step \<Rightarrow> 'a \<Rightarrow> u8 list \<Rightarrow> decode_error + 'a" where
  "run_decode decode default_value payload = (case decode (reader_new payload, default_value) of
     (Some e, s) \<Rightarrow> Inl e | (None, r, v) \<Rightarrow> Inr v)"

definition encode_client_hello :: "ClientHello \<Rightarrow> u8 list option" where
  "encode_client_hello v = map_option into_bytes (ClientHelloGameCodec_encode v writer_new)"

definition encode_welcome :: "Welcome \<Rightarrow> u8 list" where
  "encode_welcome v = into_bytes (WelcomeGameCodec_encode v writer_new)"

definition encode_player_input :: "PlayerInput \<Rightarrow> u8 list" where
  "encode_player_input v = into_bytes (PlayerInputGameCodec_encode v writer_new)"

definition encode_world_snapshot :: "WorldSnapshot \<Rightarrow> u8 list option" where
  "encode_world_snapshot v = map_option into_bytes (WorldSnapshotGameCodec_encode v writer_new)"

definition decode_client_hello :: "u8 list \<Rightarrow> decode_error + ClientHello" where
  "decode_client_hello = run_decode ClientHelloGameCodec_decode default_client_hello"

definition decode_welcome :: "u8 list \<Rightarrow> decode_error + Welcome" where
  "decode_welcome = run_decode WelcomeGameCodec_decode default_welcome"

definition decode_player_input :: "u8 list \<Rightarrow> decode_error + PlayerInput" where
  "decode_player_input = run_decode PlayerInputGameCodec_decode default_player_input"

definition decode_world_snapshot :: "u8 list \<Rightarrow> decode_error + WorldSnapshot" where
  "decode_world_snapshot = run_decode WorldSnapshotGameCodec_decode default_world_snapshot"

end
