(* ===== verification/Float_Eval.thy ===== *)
theory Float_Eval
  imports Rust_Float
begin

text \<open>
  Evaluation of \<^verbatim>\<open>f32\<close> arithmetic on concrete bit patterns inside the kernel. Magnitudes are
  kept as \<open>m * 2 ^ k\<close> with a short significand, and each rule of the collection \<open>feval\<close> is an
  equation between the reference operation and the same operation on that form; \<open>simp add: feval\<close>
  then runs a program's float code on numerals.
\<close>

definition dy :: "int \<Rightarrow> nat \<Rightarrow> int" where
  "dy m k = m * 2 ^ k"

named_theorems feval \<open>evaluation of float operations on numerals\<close>

section \<open>Rounding of short significands\<close>

lemma rne_scale: "0 < c \<Longrightarrow> 0 < d \<Longrightarrow> rne (n * c) (d * c) = rne n d"
proof -
  assume c: "0 < c" and d: "0 < d"
  have 1: "n * c div (d * c) = n div d" and 2: "n * c mod (d * c) = n mod d * c"
    using c by (simp_all add: mult_mod_left)
  have 3: "2 * (n mod d * c) < d * c \<longleftrightarrow> 2 * (n mod d) < d"
    using c mult_less_cancel_right_pos [of c "2 * (n mod d)" d] by (simp add: mult.assoc)
  have 4: "d * c < 2 * (n mod d * c) \<longleftrightarrow> d < 2 * (n mod d)"
    using c mult_less_cancel_right_pos [of c d "2 * (n mod d)"] by (simp add: mult.assoc)
  show ?thesis unfolding rne_def Let_def 1 2 3 4 ..
qed

lemma nbits_div_shift: "0 < n div d \<Longrightarrow> 0 < d \<Longrightarrow> nbits (n * 2 ^ j div d) = nbits (n div d) + j"
proof -
  assume q: "0 < n div d" and d: "0 < d"
  let ?b = "nbits (n div d)"
  have lo: "2 ^ (?b - 1) \<le> n div d" using q by (rule nbits_lower)
  have b0: "0 < ?b" using q nbits_0_iff [of "n div d"] by linarith
  have "2 ^ (?b - 1) * d \<le> n" using lo d by (simp add: int_le_div_iff)
  then have "2 ^ (?b - 1) * d * 2 ^ j \<le> n * 2 ^ j" by simp
  then have "2 ^ (?b - 1 + j) \<le> n * 2 ^ j div d"
    using d by (simp add: int_le_div_iff power_add algebra_simps)
  moreover have nn: "0 \<le> n * 2 ^ j div d"
    using q d int_le_div_iff [of d 1 n] by (simp add: pos_imp_zdiv_nonneg_iff)
  ultimately have "\<not> nbits (n * 2 ^ j div d) \<le> ?b - 1 + j" by (simp add: nbits_le_iff)
  moreover have "n < 2 ^ ?b * d"
    using nbits_upper [of "n div d"] d by (simp add: int_div_less_iff)
  then have "n * 2 ^ j < 2 ^ ?b * d * 2 ^ j" by simp
  then have "n * 2 ^ j div d < 2 ^ (?b + j)" using d by (simp add: int_div_less_iff power_add algebra_simps)
  then have "nbits (n * 2 ^ j div d) \<le> ?b + j" using nn by (simp add: nbits_le_iff)
  ultimately show ?thesis using b0 by linarith
qed

lemma round_units_scale:
  assumes "p \<le> nbits (n div d)" "0 < n div d" "0 < d"
  shows "round_units p (n * 2 ^ j) d = round_units p n d * 2 ^ j"
proof -
  define e where "e = nbits (n div d) - p"
  have e': "nbits (n * 2 ^ j div d) - p = e + j" using assms by (simp add: nbits_div_shift e_def)
  have "rne (n * 2 ^ j) (d * 2 ^ (e + j)) = rne n (d * 2 ^ e)"
    using rne_scale [of "2 ^ j" "d * 2 ^ e" n] assms(3) by (simp add: power_add mult.assoc)
  then show ?thesis
    unfolding round_units_def e' Let_def e_def [symmetric] by (simp add: power_add)
qed

lemma round_units_dy:
  assumes "0 < m"
  shows "round_units p (dy m k) (2 ^ u) =
    (let s = max (u - k) (nbits m - p) in dy (rne m (2 ^ s)) (k + s - u))"
proof -
  define e where "e = nbits (dy m k div 2 ^ u) - p"
  define s where "s = max (u - k) (nbits m - p)"
  have es: "e + u = k + s \<or> (e + u \<le> k \<and> s = 0)"
  proof (cases "u \<le> k")
    case True
    then have "dy m k div 2 ^ u = m * 2 ^ (k - u)"
      by (simp add: dy_def power_diff div_mult_swap le_imp_power_dvd)
    then have "nbits (dy m k div 2 ^ u) = nbits m + (k - u)" using assms by (simp add: nbits_shift)
    with True show ?thesis by (auto simp: e_def s_def)
  next
    case False
    define j where "j = u - k"
    have "(2::int) ^ u = 2 ^ k * 2 ^ j" using False by (simp add: j_def flip: power_add)
    then have q: "dy m k div 2 ^ u = m div 2 ^ j" by (simp add: dy_def div_mult_mult2 mult.commute)
    show ?thesis
    proof (cases "nbits m \<le> j")
      case True
      then have "m div 2 ^ j = 0" using assms by (simp add: nbits_le_iff div_pos_pos_trivial)
      with True False show ?thesis by (auto simp: e_def q j_def s_def max_def)
    next
      case F2: False
      define i where "i = nbits m - j"
      have i: "nbits m = i + j" "0 < i" using F2 by (simp_all add: i_def)
      have "2 ^ (i - 1) * 2 ^ j \<le> m" using nbits_lower [OF assms] i by (simp flip: power_add)
      then have lo: "2 ^ (i - 1) \<le> m div 2 ^ j" by (simp add: int_le_div_iff)
      have "m < 2 ^ i * 2 ^ j" using nbits_upper [of m] i by (simp add: power_add)
      then have hi: "m div 2 ^ j < 2 ^ i" by (simp add: int_div_less_iff)
      have nn: "0 \<le> m div 2 ^ j" using assms by (simp add: pos_imp_zdiv_nonneg_iff)
      have "nbits (m div 2 ^ j) \<le> i" using hi nn by (simp add: nbits_le_iff)
      moreover have "\<not> nbits (m div 2 ^ j) \<le> i - 1" using lo nn by (simp add: nbits_le_iff)
      ultimately have "nbits (m div 2 ^ j) = i" using i by linarith
      then show ?thesis using False i by (auto simp: e_def s_def q j_def)
    qed
  qed
  have "rne (dy m k) (2 ^ u * 2 ^ e) * 2 ^ e = dy (rne m (2 ^ s)) (k + s - u)"
  proof (cases "e + u = k + s")
    case True
    then have "(2::int) ^ u * 2 ^ e = 2 ^ s * 2 ^ k" by (simp add: add.commute flip: power_add)
    then have "rne (dy m k) (2 ^ u * 2 ^ e) = rne m (2 ^ s)"
      by (simp add: dy_def rne_scale)
    moreover have "e = k + s - u" using True by simp
    ultimately show ?thesis by (simp add: dy_def)
  next
    case False
    with es have le: "e + u \<le> k" "s = 0" by simp_all
    then have "dy m k = m * 2 ^ (k - (u + e)) * (2 ^ u * 2 ^ e)"
      by (simp add: dy_def mult.assoc flip: power_add)
    then have "rne (dy m k) (2 ^ u * 2 ^ e) = m * 2 ^ (k - (u + e))" by (simp add: rne_exact)
    then have "rne (dy m k) (2 ^ u * 2 ^ e) * 2 ^ e = m * 2 ^ (k - u)"
      using le by (simp add: mult.assoc flip: power_add)
    then show ?thesis using le by (simp add: dy_def rne_exact)
  qed
  then show ?thesis by (simp add: round_units_def Let_def e_def s_def)
qed

text \<open>Division: a quotient with one spare bit determines the rounding of the scaled dividend.\<close>

lemma round_units_div_dy:
  assumes "0 < m" "0 < n" "l \<le> k"
  shows "round_units p (dy m k) (dy n l) =
    (let h = k - l; g = min h (nbits n + p + 1); e = nbits (m * 2 ^ g div n) - p
     in dy (rne (m * 2 ^ g) (n * 2 ^ e)) (e + (h - g)))"
proof -
  define h where "h = k - l"
  define g where "g = min h (nbits n + p + 1)"
  have k: "k = h + l" using assms by (simp add: h_def)
  have "round_units p (dy m k) (dy n l) = round_units p (m * 2 ^ h) n"
  proof -
    have "dy m k div dy n l = m * 2 ^ h div n"
      by (simp add: dy_def k power_add mult.assoc [symmetric])
    moreover have "rne (dy m k) (dy n l * 2 ^ j) = rne (m * 2 ^ h) (n * 2 ^ j)" for j
      using rne_scale [of "2 ^ l" "n * 2 ^ j" "m * 2 ^ h"] assms
      by (simp add: dy_def k power_add algebra_simps)
    ultimately show ?thesis by (simp add: round_units_def)
  qed
  also have "\<dots> = round_units p (m * 2 ^ g) n * 2 ^ (h - g)"
  proof (cases "g = h")
    case False
    then have g: "g = nbits n + p + 1" "g \<le> h" by (simp_all add: g_def min_def split: if_splits)
    have "2 ^ (p + 1) * n \<le> 2 ^ (p + 1) * 2 ^ nbits n"
      using nbits_upper [of n] by (intro mult_left_mono) simp_all
    also have "\<dots> = 2 ^ g" by (simp add: g flip: power_add)
    also have "\<dots> \<le> m * 2 ^ g" using assms by simp
    finally have q: "2 ^ (p + 1) \<le> m * 2 ^ g div n" using assms by (simp add: int_le_div_iff)
    then have "0 < m * 2 ^ g div n" using zero_less_power [of "2::int" "p + 1"] by linarith
    moreover have "\<not> nbits (m * 2 ^ g div n) \<le> p"
    proof
      assume "nbits (m * 2 ^ g div n) \<le> p"
      then have "m * 2 ^ g div n < 2 ^ p" using calculation by (simp add: nbits_le_iff)
      moreover have "(2::int) ^ (p + 1) = 2 * 2 ^ p" "0 < (2::int) ^ p" by simp_all
      ultimately show False using q by linarith
    qed
    ultimately have "round_units p (m * 2 ^ g * 2 ^ (h - g)) n = round_units p (m * 2 ^ g) n * 2 ^ (h - g)"
      using assms(2) by (intro round_units_scale) (simp_all only: not_le less_imp_le)
    moreover have "m * 2 ^ h = m * 2 ^ g * 2 ^ (h - g)"
      using g(2) by (simp only: mult.assoc power_add [symmetric] le_add_diff_inverse)
    ultimately show ?thesis by (simp only:)
  qed simp
  finally show ?thesis by (simp add: round_units_def Let_def dy_def g_def h_def power_add)
qed

section \<open>Decoding and encoding\<close>

lemma fv_mk_dy: "0 < m \<Longrightarrow> fv_mk F32 s (dy m k) = (if 277 < nbits m + k then Infty s else Fin s (dy m k))"
proof -
  assume m: "0 < m"
  then have "nbits (dy m k) = nbits m + k" and "0 \<le> dy m k" by (simp_all add: dy_def nbits_shift)
  then have "flimit F32 \<le> dy m k \<longleftrightarrow> \<not> nbits m + k \<le> 277"
    using nbits_le_iff [of "dy m k" 277] by (simp add: flimit_def not_less)
  then show ?thesis by (simp add: fv_mk_def)
qed

lemma round_units_0: "0 < d \<Longrightarrow> round_units p 0 d = 0"
  by (simp add: round_units_def rne_exact)

lemma dy_0 [simp]: "dy 0 k = 0"
  by (simp add: dy_def)

lemma rne_pos_of_ge: "0 < d \<Longrightarrow> d < n \<Longrightarrow> 0 < rne n d"
  using rne_ge [of d 1 n] by simp

text \<open>
  The float operations on \<open>m * 2 ^ k\<close>. A zero result keeps the significand \<open>0\<close>; the range
  check is on the number of bits.
\<close>

definition mk_dy :: "bool \<Rightarrow> int \<Rightarrow> nat \<Rightarrow> fval" where
  "mk_dy s m k = (if m = 0 then Fin s 0 else if 277 < nbits m + k then Infty s else Fin s (dy m k))"

lemma fv_mk_mk_dy: "0 \<le> m \<Longrightarrow> fv_mk F32 s (dy m k) = mk_dy s m k"
  by (cases "m = 0") (simp_all add: mk_dy_def fv_mk_dy, simp add: fv_mk_def flimit_def)

lemma round_pow_eval:
  "0 < m \<Longrightarrow> fv_round F32 s (dy m k) (2 ^ u) =
    (let j = max (u - k) (nbits m - 24) in mk_dy s (rne m (2 ^ j)) (k + j - u))"
  by (simp add: fv_round_def round_units_dy Let_def fv_mk_mk_dy rne_nonneg)

lemma round_one_eval:
  "0 < m \<Longrightarrow> fv_round F32 s (dy m k) 1 =
    (let j = nbits m - 24 in mk_dy s (rne m (2 ^ j)) (k + j))"
  using round_pow_eval [of m s k 0] by simp

lemma round_div_eval:
  "0 < m \<Longrightarrow> 0 < n \<Longrightarrow> l \<le> k \<Longrightarrow> fv_round F32 s (dy m k) (dy n l) =
    (let h = k - l; g = min h (25 + nbits n); e = nbits (m * 2 ^ g div n) - 24
     in mk_dy s (rne (m * 2 ^ g) (n * 2 ^ e)) (e + (h - g)))"
  by (simp add: fv_round_def round_units_div_dy Let_def fv_mk_mk_dy rne_nonneg)

lemma round_zero_eval [feval]: "0 < d \<Longrightarrow> fv_round F32 s 0 d = Fin s 0"
  by (simp add: fv_round_def round_units_0 fv_mk_def not_le)

lemma bits_mag_dy: "bits_mag F32 m =
  (if m div 8388608 = 0 then dy (m mod 8388608) 0
   else dy (8388608 + m mod 8388608) (nat (m div 8388608 - 1)))"
  by (simp add: bits_mag_def Let_def dy_def)

lemma Fin_dy_if: "(if m = 0 then Fin s 0 else Fin s (dy m k)) = Fin s (dy m k)"
  by simp

lemma f32_val_eval: "f32_val w =
  (let u = uint w; s = 2147483648 \<le> u; m = (if s then u - 2147483648 else u);
       ex = m div 8388608; fr = m mod 8388608 in
   if 2139095040 < m then NaN else if m = 2139095040 then Infty s
   else if ex = 0 then (if fr = 0 then Fin s 0 else Fin s (dy fr 0))
   else Fin s (dy (8388608 + fr) (nat (ex - 1))))"
  unfolding f32_val_def from_bits_def Let_def sign_bit_F32 inf_bits_F32 Fin_dy_if bits_mag_dy
  by (simp add: if_distrib [of "Fin _"])

lemma f32_of_dy: "0 < m \<Longrightarrow> f32_of (Fin s (dy m k)) =
  (let e = nbits m + k - 24 in
   word_of_int ((if s then 2147483648 else 0) + int e * 8388608
     + (if e \<le> k then m * 2 ^ (k - e) else m div 2 ^ (e - k))))"
proof -
  assume m: "0 < m"
  define e where "e = nbits m + k - 24"
  have "dy m k div 2 ^ e = (if e \<le> k then m * 2 ^ (k - e) else m div 2 ^ (e - k))"
  proof (cases "e \<le> k")
    case True
    then have "dy m k = m * 2 ^ (k - e) * 2 ^ e" by (simp add: dy_def mult.assoc flip: power_add)
    with True show ?thesis by simp
  next
    case False
    then have "(2::int) ^ e = 2 ^ (e - k) * 2 ^ k" by (simp flip: power_add)
    with False show ?thesis by (simp add: dy_def)
  qed
  moreover have "nbits (dy m k) = nbits m + k" using m by (simp add: dy_def nbits_shift)
  ultimately show ?thesis
    by (simp add: f32_of_def mag_bits_def Let_def e_def [symmetric] sign_bit_F32 add.assoc)
qed

lemma f32_of_special [feval]:
  "f32_of (Fin s 0) = (if s then 0x80000000 else 0)"
  "f32_of (Infty s) = (if s then 0xFF800000 else 0x7F800000)"
  "f32_of NaN = 0x7FC00000"
  by (simp_all add: f32_of_def mag_bits_def sign_bit_F32 inf_bits_F32)

section \<open>Operations\<close>

lemma fv_add_dy: "fv_add F32 (Fin s (dy m k)) (Fin t (dy n l)) =
  (let j = min k l; v = (if s then - m else m) * 2 ^ (k - j) + (if t then - n else n) * 2 ^ (l - j) in
   if v = 0 then Fin (s \<and> t) 0 else fv_round F32 (v < 0) (dy \<bar>v\<bar> j) 1)"
proof -
  define j where "j = min k l"
  define v where "v = (if s then - m else m) * 2 ^ (k - j) + (if t then - n else n) * 2 ^ (l - j)"
  have "dy m k = m * 2 ^ (k - j) * 2 ^ j" "dy n l = n * 2 ^ (l - j) * 2 ^ j"
    by (simp_all add: dy_def j_def mult.assoc flip: power_add)
  then have "units (Fin s (dy m k)) + units (Fin t (dy n l)) = v * 2 ^ j"
    by (simp add: v_def algebra_simps)
  moreover have "v * 2 ^ j < 0 \<longleftrightarrow> v < 0" by (simp add: mult_less_0_iff)
  moreover have "\<bar>v * 2 ^ j\<bar> = dy \<bar>v\<bar> j" by (simp add: dy_def abs_mult)
  ultimately show ?thesis
    by (simp add: Let_def fv_of_units_def v_def [symmetric] j_def [symmetric] del: units.simps)
qed

lemma fv_mul_dy: "fv_mul F32 (Fin s (dy m k)) (Fin t (dy n l)) =
  fv_round F32 (s \<noteq> t) (dy (m * n) (k + l)) (2 ^ 149)"
  by (simp add: dy_def power_add algebra_simps funit_def)

lemma fv_mul_zero [feval]:
  "fv_mul F32 (Fin s 0) (Fin t n) = Fin (s \<noteq> t) 0" "fv_mul F32 (Fin s n) (Fin t 0) = Fin (s \<noteq> t) 0"
  by (simp_all add: round_zero_eval)

lemma fv_div_dy [feval]: "0 < n \<Longrightarrow> fv_div F32 (Fin s (dy m k)) (Fin t (dy n l)) =
  fv_round F32 (s \<noteq> t) (dy m (k + 149)) (dy n l)"
  by (simp add: dy_def power_add algebra_simps funit_def)

lemma fv_rem_dy: "0 < n \<Longrightarrow> fv_rem (Fin s (dy m k)) (Fin t (dy n l)) =
  (let j = min k l; r = (m * 2 ^ (k - j)) mod (n * 2 ^ (l - j)) in if r = 0 then Fin s 0 else Fin s (dy r j))"
proof -
  assume n: "0 < n"
  define j where "j = min k l"
  have eq: "dy m k = m * 2 ^ (k - j) * 2 ^ j" "dy n l = n * 2 ^ (l - j) * 2 ^ j"
    by (simp_all add: dy_def j_def mult.assoc flip: power_add)
  have "dy m k mod dy n l = dy ((m * 2 ^ (k - j)) mod (n * 2 ^ (l - j))) j"
    unfolding eq by (simp only: dy_def mult_mod_left)
  moreover have "dy n l \<noteq> 0" using n by (simp add: dy_def)
  ultimately show ?thesis by (simp add: Let_def j_def [symmetric])
qed

text \<open>The rules above replace the defining equations on finite operands.\<close>

declare fv_add.simps(1) [simp del] fv_mul.simps(1) [simp del] fv_div.simps(1) [simp del]
  fv_rem.simps(1) [simp del]

lemma fv_key_dy: "fv_key F (Fin s (dy m k)) = (if s then - dy m k else dy m k)"
  by simp

lemma dy_less [feval]: "dy m k < dy n l \<longleftrightarrow> m * 2 ^ (k - min k l) < n * 2 ^ (l - min k l)"
proof -
  define j where "j = min k l"
  have "dy m k = m * 2 ^ (k - j) * 2 ^ j" "dy n l = n * 2 ^ (l - j) * 2 ^ j"
    by (simp_all add: dy_def j_def mult.assoc flip: power_add)
  then show ?thesis by (simp add: j_def [symmetric])
qed


lemma dy_le [feval]: "dy m k \<le> dy n l \<longleftrightarrow> m * 2 ^ (k - min k l) \<le> n * 2 ^ (l - min k l)"
  using dy_less [of n l m k] by (simp add: min.commute flip: not_less)

lemma dy_sign [feval]:
  "0 < dy m k \<longleftrightarrow> 0 < m" "dy m k < 0 \<longleftrightarrow> m < 0" "0 \<le> dy m k \<longleftrightarrow> 0 \<le> m" "dy m k \<le> 0 \<longleftrightarrow> m \<le> 0"
  by (simp_all add: dy_def zero_less_mult_iff mult_less_0_iff zero_le_mult_iff mult_le_0_iff)

lemma uminus_dy [feval]: "- dy m k = dy (- m) k"
  by (simp add: dy_def)

lemma f32_lit_eval [feval]: "f32_lit n d = f32_of (fv_round F32 False (dy n 149) (dy d 0))"
  by (simp add: f32_lit_def dy_def funit_def)

lemma f32_of_nat_eval [feval]: "f32_of_nat n = f32_of (fv_round F32 False (dy (int n) 149) 1)"
  by (simp add: f32_of_nat_def fv_of_nat_def dy_def funit_def)

section \<open>Evaluation in stages\<close>

text \<open>
  Each stage is a constant of its own, so that the simplifier evaluates the arguments of a stage
  to numerals before it unfolds the stage.
\<close>

definition rne_at :: "int \<Rightarrow> int \<Rightarrow> int \<Rightarrow> int" where
  "rne_at q r d = (if 2 * r < d then q else if d < 2 * r then q + 1 else if even q then q else q + 1)"

definition dec_mag :: "bool \<Rightarrow> int \<Rightarrow> int \<Rightarrow> fval" where
  "dec_mag s ex fr = (if ex = 0 then (if fr = 0 then Fin s 0 else Fin s (dy fr 0))
     else Fin s (dy (8388608 + fr) (nat (ex - 1))))"

definition dec_sign :: "bool \<Rightarrow> int \<Rightarrow> fval" where
  "dec_sign s m = (if 2139095040 < m then NaN else if m = 2139095040 then Infty s
     else dec_mag s (m div 8388608) (m mod 8388608))"

definition dec_bits :: "int \<Rightarrow> fval" where
  "dec_bits u = (if 2147483648 \<le> u then dec_sign True (u - 2147483648) else dec_sign False u)"

definition enc_at :: "bool \<Rightarrow> int \<Rightarrow> nat \<Rightarrow> nat \<Rightarrow> f32" where
  "enc_at s m k e = word_of_int ((if s then 2147483648 else 0) + int e * 8388608
     + (if e \<le> k then m * 2 ^ (k - e) else m div 2 ^ (e - k)))"

definition round_at :: "bool \<Rightarrow> int \<Rightarrow> nat \<Rightarrow> nat \<Rightarrow> nat \<Rightarrow> fval" where
  "round_at s m k u j = mk_dy s (rne m (2 ^ j)) (k + j - u)"

definition quot_at :: "bool \<Rightarrow> int \<Rightarrow> int \<Rightarrow> nat \<Rightarrow> nat \<Rightarrow> fval" where
  "quot_at s m n h e = mk_dy s (rne m (n * 2 ^ e)) (e + h)"

definition quot_to :: "bool \<Rightarrow> int \<Rightarrow> int \<Rightarrow> nat \<Rightarrow> nat \<Rightarrow> fval" where
  "quot_to s m n h g = quot_at s (m * 2 ^ g) n (h - g) (nbits (m * 2 ^ g div n) - 24)"

definition sum_sign :: "bool \<Rightarrow> int \<Rightarrow> nat \<Rightarrow> fval" where
  "sum_sign z v j = (if v = 0 then Fin z 0 else fv_round F32 (v < 0) (dy \<bar>v\<bar> j) 1)"

definition sum_at :: "bool \<Rightarrow> int \<Rightarrow> nat \<Rightarrow> bool \<Rightarrow> int \<Rightarrow> nat \<Rightarrow> nat \<Rightarrow> fval" where
  "sum_at s m k t n l j = sum_sign (s \<and> t)
     ((if s then - m else m) * 2 ^ (k - j) + (if t then - n else n) * 2 ^ (l - j)) j"

definition fin_dy :: "bool \<Rightarrow> int \<Rightarrow> nat \<Rightarrow> fval" where
  "fin_dy s r j = (if r = 0 then Fin s 0 else Fin s (dy r j))"

definition rem_at :: "bool \<Rightarrow> int \<Rightarrow> nat \<Rightarrow> int \<Rightarrow> nat \<Rightarrow> nat \<Rightarrow> fval" where
  "rem_at s m k n l j = fin_dy s ((m * 2 ^ (k - j)) mod (n * 2 ^ (l - j))) j"

definition prod_at :: "bool \<Rightarrow> int \<Rightarrow> nat \<Rightarrow> fval" where
  "prod_at s m k = round_at s m k 149 (max (149 - k) (nbits m - 24))"

definition euclid_at :: "f32 \<Rightarrow> f32 \<Rightarrow> f32" where
  "euclid_at r b = (if f32_lt r 0 then f32_add r (f32_abs b) else r)"

lemma rne_stage [feval]: "rne n d = rne_at (n div d) (n mod d) d"
  by (simp add: rne_def rne_at_def Let_def)

lemma f32_val_stage [feval]: "f32_val (numeral w) = dec_bits (uint (numeral w :: f32))"
  by (simp add: f32_val_eval dec_bits_def dec_sign_def dec_mag_def Let_def del: uint_numeral)

lemma f32_of_stage [feval]: "0 < m \<Longrightarrow> f32_of (Fin s (dy m k)) = enc_at s m k (nbits m + k - 24)"
  by (simp add: f32_of_dy enc_at_def Let_def)

lemma round_pow_stage:
  "0 < m \<Longrightarrow> fv_round F32 s (dy m k) (2 ^ u) = round_at s m k u (max (u - k) (nbits m - 24))"
  by (simp add: round_pow_eval round_at_def Let_def)

lemma round_one_stage [feval]: "0 < m \<Longrightarrow> fv_round F32 s (dy m k) 1 = round_at s m k 0 (nbits m - 24)"
  by (simp add: round_one_eval round_at_def Let_def)

lemma round_div_stage [feval]: "0 < m \<Longrightarrow> 0 < n \<Longrightarrow> l \<le> k \<Longrightarrow>
  fv_round F32 s (dy m k) (dy n l) = quot_to s m n (k - l) (min (k - l) (25 + nbits n))"
  by (simp add: round_div_eval quot_to_def quot_at_def Let_def)

lemma fv_add_stage [feval]:
  "fv_add F32 (Fin s (dy m k)) (Fin t (dy n l)) = sum_at s m k t n l (min k l)"
  by (simp add: fv_add_dy sum_at_def sum_sign_def Let_def)

lemma fv_mul_stage [feval]: "0 < m \<Longrightarrow> 0 < n \<Longrightarrow>
  fv_mul F32 (Fin s (dy m k)) (Fin t (dy n l)) = prod_at (s \<noteq> t) (m * n) (k + l)"
  by (simp only: fv_mul_dy round_pow_stage prod_at_def mult_pos_pos)

lemma fv_add_zero [feval]:
  "fv_add F32 (Fin s 0) (Fin t (dy n l)) = sum_at s 0 l t n l l"
  "fv_add F32 (Fin s (dy m k)) (Fin t 0) = sum_at s m k t 0 k k"
  "fv_add F32 (Fin s 0) (Fin t 0) = Fin (s \<and> t) 0"
  using fv_add_stage [of s 0 l t n l] fv_add_stage [of s m k t 0 k]
  by (simp_all add: fv_add.simps)

lemma fv_rem_stage [feval]:
  "0 < n \<Longrightarrow> fv_rem (Fin s (dy m k)) (Fin t (dy n l)) = rem_at s m k n l (min k l)"
  by (simp add: fv_rem_dy rem_at_def fin_dy_def Let_def)

lemma rem_euclid_stage [feval]: "f32_rem_euclid a b = euclid_at (f32_rem a b) b"
  by (simp add: f32_rem_euclid_def euclid_at_def Let_def)

lemmas stages_eval [feval] = rne_at_def dec_mag_def dec_sign_def dec_bits_def enc_at_def
  round_at_def prod_at_def quot_at_def quot_to_def sum_sign_def sum_at_def fin_dy_def rem_at_def euclid_at_def

lemmas f32_ops_eval [feval] = f32_add_def f32_sub_def f32_mul_def f32_div_def f32_rem_def
  f32_lt_def f32_le_def fv_lt_def fv_le_def fv_sub_def f32_clamp_def f32_abs_def
  f32_is_finite_def mk_dy_def f32_neg_def

lemma feval_check:
  "f32_PI = 0x40490FDB" "f32_TAU = 0x40C90FDB"
  "f32_add 0x3F800000 0x40490FDB = 0x408487EE"
  "f32_div 0x3F800000 0x41F00000 = 0x3D088889"
  "f32_rem_euclid 0x40E00000 0x40C90FDB = 0x3F378128"
  by (simp_all add: feval f32_PI_def f32_TAU_def Let_def)

end
