(* ===== verification/World.thy ===== *)
theory World
  imports BTree_Map Protocol Float_Eval
begin

text \<open>
  \<^verbatim>\<open>server/src/world.rs\<close>: the simulation. The peer key \<^verbatim>\<open>PeerId\<close> belongs to \<^verbatim>\<open>fomoxa_net\<close> and is
  any linearly ordered type. \<^verbatim>\<open>cos\<close> and \<^verbatim>\<open>sin\<close> are the parameter \<open>trig\<close>: Rust leaves their results
  unspecified up to rounding. \<^verbatim>\<open>next_player_id += 1\<close> and \<^verbatim>\<open>id as usize - 1\<close> wrap, as they do in the
  release build the README runs.
\<close>

section \<open>Constants\<close>

definition PLANE_HALF_SIZE :: f32 where
  "PLANE_HALF_SIZE = f32_lit 10 1"

definition TICK_RATE :: u16 where
  "TICK_RATE = 30"

definition MOVE_SPEED :: f32 where
  "MOVE_SPEED = f32_lit 5 1"

definition GRAVITY :: f32 where
  "GRAVITY = f32_lit 20 1"

definition JUMP_SPEED :: f32 where
  "JUMP_SPEED = f32_lit 7 1"

definition MAX_LOOK_PITCH :: f32 where
  "MAX_LOOK_PITCH = f32_lit 15 10"

definition SPAWN_RADIUS :: f32 where
  "SPAWN_RADIUS = f32_lit 3 1"

definition SPAWN_ANGLE_STEP :: f32 where
  "SPAWN_ANGLE_STEP = f32_lit 2399963 1000000"

definition PALETTE :: "u32 list" where
  "PALETTE = [0xE6194BFF, 0x3CB44BFF, 0xFFE119FF, 0x4363D8FF, 0xF58231FF, 0x911EB4FF, 0x46F0F0FF,
     0xF032E6FF]"

definition f32_one :: f32 where
  "f32_one = f32_lit 1 1"

section \<open>Players\<close>

record player =
  pl_id :: u32
  pl_client_kind :: u8
  pl_display_name :: string
  pl_color :: u32
  pl_position_x :: f32
  pl_position_y :: f32
  pl_position_z :: f32
  pl_look_yaw :: f32
  pl_look_pitch :: f32
  pl_move_x :: f32
  pl_move_z :: f32
  pl_vertical_velocity :: f32
  pl_jump_held :: bool
  pl_last_sequence :: u32

definition is_grounded :: "player \<Rightarrow> bool" where
  "is_grounded p \<longleftrightarrow> f32_le (pl_position_y p) 0"

record trig =
  trig_cos :: "f32 \<Rightarrow> f32"
  trig_sin :: "f32 \<Rightarrow> f32"

definition spawn_position :: "trig \<Rightarrow> u32 \<Rightarrow> f32 \<times> f32" where
  "spawn_position trig player_id =
    (let angle = f32_mul (f32_of_nat (unat player_id)) SPAWN_ANGLE_STEP
     in (f32_mul SPAWN_RADIUS (trig_cos trig angle), f32_mul SPAWN_RADIUS (trig_sin trig angle)))"

definition axis :: "f32 \<Rightarrow> f32" where
  "axis value = (if f32_is_finite value then f32_clamp value (f32_neg f32_one) f32_one else 0)"

definition bounded_direction :: "f32 \<Rightarrow> f32 \<Rightarrow> f32 \<times> f32" where
  "bounded_direction move_x move_z =
    (let x = axis move_x; z = axis move_z;
         len = f32_sqrt (f32_add (f32_mul x x) (f32_mul z z))
     in if f32_lt f32_one len then (f32_div x len, f32_div z len) else (x, z))"

definition wrap_angle :: "f32 \<Rightarrow> f32" where
  "wrap_angle angle = f32_sub (f32_rem_euclid (f32_add angle f32_PI) f32_TAU) f32_PI"

section \<open>The world\<close>

record 'p world =
  wd_players :: "('p, player) btree"
  wd_next_player_id :: u32
  wd_tick :: u32

definition world_new :: "'p world" where
  "world_new = \<lparr>wd_players = bt_empty, wd_next_player_id = 0, wd_tick = 0\<rparr>"

definition world_tick :: "'p world \<Rightarrow> u32" where
  "world_tick w = wd_tick w"

definition player_count :: "'p world \<Rightarrow> nat" where
  "player_count w = bt_len (wd_players w)"

definition world_player :: "'p world \<Rightarrow> 'p \<Rightarrow> player option" where
  "world_player w peer = bt_get (wd_players w) peer"

definition world_peers :: "'p world \<Rightarrow> 'p list" where
  "world_peers w = bt_keys (wd_players w)"

definition palette_index :: "u32 \<Rightarrow> nat" where
  "palette_index player_id = unat ((ucast player_id :: usize) - 1) mod length PALETTE"

definition new_player :: "trig \<Rightarrow> u32 \<Rightarrow> u8 \<Rightarrow> string \<Rightarrow> player" where
  "new_player trig player_id client_kind display_name =
    (case spawn_position trig player_id of (position_x, position_z) \<Rightarrow>
     \<lparr>pl_id = player_id, pl_client_kind = client_kind, pl_display_name = display_name,
      pl_color = PALETTE ! palette_index player_id, pl_position_x = position_x, pl_position_y = 0,
      pl_position_z = position_z, pl_look_yaw = 0, pl_look_pitch = 0, pl_move_x = 0, pl_move_z = 0,
      pl_vertical_velocity = 0, pl_jump_held = False, pl_last_sequence = 0\<rparr>)"

definition join :: "trig \<Rightarrow> 'p::linorder \<Rightarrow> u8 \<Rightarrow> string \<Rightarrow> 'p world \<Rightarrow> u32 \<times> 'p world" where
  "join trig peer client_kind display_name w =
    (case bt_get (wd_players w) peer of
       Some existing \<Rightarrow> (pl_id existing, w)
     | None \<Rightarrow>
        let new_id = wd_next_player_id w + 1
        in (new_id, w\<lparr>wd_next_player_id := new_id,
                  wd_players := bt_insert peer (new_player trig new_id client_kind display_name) (wd_players w)\<rparr>))"

definition leave :: "'p \<Rightarrow> 'p world \<Rightarrow> player option \<times> 'p world" where
  "leave peer w = (bt_get (wd_players w) peer, w\<lparr>wd_players := bt_remove peer (wd_players w)\<rparr>)"

definition take_input :: "PlayerInput \<Rightarrow> player \<Rightarrow> player" where
  "take_input i p =
    (case bounded_direction (pi_move_x i) (pi_move_z i) of (move_x, move_z) \<Rightarrow>
     let p = p\<lparr>pl_last_sequence := pi_sequence i\<rparr>;
         p = p\<lparr>pl_move_x := move_x\<rparr>;
         p = p\<lparr>pl_move_z := move_z\<rparr>;
         p = p\<lparr>pl_jump_held := pi_jump i\<rparr>;
         p = (if f32_is_finite (pi_look_yaw i) then p\<lparr>pl_look_yaw := wrap_angle (pi_look_yaw i)\<rparr> else p)
      in if f32_is_finite (pi_look_pitch i)
         then p\<lparr>pl_look_pitch := f32_clamp (pi_look_pitch i) (f32_neg MAX_LOOK_PITCH) MAX_LOOK_PITCH\<rparr>
         else p)"

definition apply_input :: "'p::linorder \<Rightarrow> PlayerInput \<Rightarrow> 'p world \<Rightarrow> bool \<times> 'p world" where
  "apply_input peer i w =
    (case bt_get (wd_players w) peer of
       None \<Rightarrow> (False, w)
     | Some p \<Rightarrow>
        if pi_sequence i < pl_last_sequence p then (False, w)
        else (True, w\<lparr>wd_players := bt_insert peer (take_input i p) (wd_players w)\<rparr>))"

text \<open>One player's part of \<^verbatim>\<open>World::step\<close>: the two horizontal axes, then the jump and the fall.\<close>

definition move_axis :: "f32 \<Rightarrow> f32 \<Rightarrow> f32 \<Rightarrow> f32" where
  "move_axis dt position move =
     f32_clamp (f32_add position (f32_mul (f32_mul move MOVE_SPEED) dt)) (f32_neg PLANE_HALF_SIZE) PLANE_HALF_SIZE"

definition step_player :: "f32 \<Rightarrow> player \<Rightarrow> player" where
  "step_player dt p =
    (let p = p\<lparr>pl_position_x := move_axis dt (pl_position_x p) (pl_move_x p)\<rparr>;
         p = p\<lparr>pl_position_z := move_axis dt (pl_position_z p) (pl_move_z p)\<rparr>;
         p = (if is_grounded p \<and> pl_jump_held p then p\<lparr>pl_vertical_velocity := JUMP_SPEED\<rparr> else p);
         p = p\<lparr>pl_vertical_velocity := f32_sub (pl_vertical_velocity p) (f32_mul GRAVITY dt)\<rparr>;
         p = p\<lparr>pl_position_y := f32_add (pl_position_y p) (f32_mul (pl_vertical_velocity p) dt)\<rparr>
      in if f32_le (pl_position_y p) 0 then p\<lparr>pl_position_y := 0, pl_vertical_velocity := 0\<rparr> else p)"

definition world_step :: "f32 \<Rightarrow> 'p world \<Rightarrow> 'p world" where
  "world_step dt w = w\<lparr>wd_tick := wd_tick w + 1, wd_players := bt_map_values (step_player dt) (wd_players w)\<rparr>"

definition player_state_of :: "player \<Rightarrow> PlayerState" where
  "player_state_of p = \<lparr>ps_player_id = pl_id p, ps_client_kind = pl_client_kind p, ps_color = pl_color p,
     ps_position_x = pl_position_x p, ps_position_z = pl_position_z p, ps_position_y = pl_position_y p,
     ps_look_yaw = pl_look_yaw p, ps_look_pitch = pl_look_pitch p\<rparr>"

definition snapshot :: "'p world \<Rightarrow> WorldSnapshot" where
  "snapshot w = \<lparr>ws_tick = wd_tick w, ws_players = map player_state_of (bt_values (wd_players w))\<rparr>"

end
