(* ===== verification/World_Floats.thy ===== *)
theory World_Floats
  imports World
begin

text \<open>
  The float facts behind the world's invariants: the range of \<^verbatim>\<open>wrap_angle\<close> for every finite
  angle, and of \<^verbatim>\<open>bounded_direction\<close> for every input. A finite \<^verbatim>\<open>f32\<close> is its magnitude in units of
  \<open>2\<^sup>-\<^sup>1\<^sup>4\<^sup>9\<close>, where \<open>PI\<close> is \<open>13176795 * 2 ^ 127\<close>.
\<close>

section \<open>Constants\<close>

lemma const_bits:
  "PLANE_HALF_SIZE = 0x41200000" "MOVE_SPEED = 0x40A00000" "GRAVITY = 0x41A00000"
  "JUMP_SPEED = 0x40E00000" "MAX_LOOK_PITCH = 0x3FC00000" "f32_one = 0x3F800000"
  "f32_PI = 0x40490FDB" "f32_TAU = 0x40C90FDB" "SPAWN_RADIUS = 0x40400000"
  by (simp_all add: PLANE_HALF_SIZE_def MOVE_SPEED_def GRAVITY_def JUMP_SPEED_def MAX_LOOK_PITCH_def
      f32_one_def f32_PI_def f32_TAU_def SPAWN_RADIUS_def feval)

definition PI_units :: int where
  "PI_units = 13176795 * 2 ^ 127"

lemma val_consts:
  "f32_val f32_PI = Fin False PI_units" "f32_val f32_TAU = Fin False (2 * PI_units)"
  "f32_val f32_one = Fin False (2 ^ 149)" "f32_val PLANE_HALF_SIZE = Fin False (10 * 2 ^ 149)"
  "f32_val MAX_LOOK_PITCH = Fin False (3 * 2 ^ 148)" "f32_val MOVE_SPEED = Fin False (5 * 2 ^ 149)"
  by (simp_all add: const_bits f32_val_def from_bits_def bits_mag_def sign_bit_F32 inf_bits_F32
      PI_units_def)

section \<open>The grid of floats\<close>

lemma pdig_dvd: "pdig p k \<Longrightarrow> 0 < p \<Longrightarrow> 2 ^ (p - 1) * 2 ^ e \<le> k \<Longrightarrow> 2 ^ e dvd k"
proof -
  assume k: "pdig p k" and p: "0 < p" and le: "2 ^ (p - 1) * 2 ^ e \<le> k"
  have "p - 1 + e < nbits k"
  proof (rule ccontr)
    assume "\<not> p - 1 + e < nbits k"
    then have "k < 2 ^ (p - 1 + e)" using k by (simp add: not_less nbits_le_iff [symmetric] pdig_def)
    with le show False by (simp add: power_add)
  qed
  then have "e \<le> nbits k - p" using p by linarith
  then have "(2::int) ^ e dvd 2 ^ (nbits k - p)" by (rule le_imp_power_dvd)
  with k show ?thesis by (auto simp: pdig_def intro: dvd_trans)
qed

text \<open>A float below \<open>m * 2 ^ e\<close> is at most \<open>(m - 1) * 2 ^ e\<close> once the spacing there is \<open>2 ^ e\<close>.\<close>

lemma pdig_pred:
  assumes k: "pdig p k" "0 < p" "k < m * 2 ^ e" and m: "2 ^ (p - 1) < m"
  shows "k \<le> (m - 1) * 2 ^ e"
proof (cases "2 ^ (p - 1) * 2 ^ e \<le> k")
  case True
  with k(1,2) have "2 ^ e dvd k" by (rule pdig_dvd)
  then obtain q where q: "k = 2 ^ e * q" by (elim dvdE)
  with k(3) have "q < m" by (simp add: mult.commute)
  then have "q \<le> m - 1" by simp
  then have "q * 2 ^ e \<le> (m - 1) * 2 ^ e" by (intro mult_right_mono) simp_all
  with q show ?thesis by (simp add: mult.commute)
next
  case False
  have "2 ^ (p - 1) * 2 ^ e \<le> (m - 1) * 2 ^ e" using m by (intro mult_right_mono) simp_all
  with False show ?thesis by linarith
qed

section \<open>\<^verbatim>\<open>wrap_angle\<close>\<close>

lemma key_ok_PI: "key_ok F32 PI_units" "key_ok F32 (13176793 * 2 ^ 127)" "key_ok F32 ((2 ^ 24 - 1) * 2 ^ 253)"
  by (simp_all add: key_ok_def pdig_def PI_units_def flimit_def)

lemma rnd_key_corner:
  "rnd_key F32 (2 * PI_units - 2 ^ 127) 1 = 13176794 * 2 ^ 128"
  "rnd_key F32 ((2 ^ 24 - 1) * 2 ^ 253 + PI_units) 1 = (2 ^ 24 - 1) * 2 ^ 253"
  by (simp_all add: rnd_key_def round_units_def rne_def PI_units_def flimit_def)

lemma fin_max: "fv_ok F32 x \<Longrightarrow> is_fin x \<Longrightarrow> \<bar>units x\<bar> \<le> (2 ^ 24 - 1) * 2 ^ 253"
proof -
  assume ok: "fv_ok F32 x" and fin: "is_fin x"
  from fin obtain s k where x: "x = Fin s k" by (rule is_finE)
  then have "pdig 24 k" "k < 2 ^ 24 * 2 ^ 253" using ok by (simp_all add: flimit_def)
  then have "k \<le> (2 ^ 24 - 1) * 2 ^ 253" using pdig_pred [of 24 k "2 ^ 24" 253] by simp
  with x \<open>pdig 24 k\<close> show ?thesis by (simp add: pdig_nonneg abs_of_nonneg)
qed

lemma add_PI_finite:
  assumes "fv_ok F32 x" "is_fin x"
  shows "is_fin (fv_add F32 x (Fin False PI_units))"
proof -
  let ?v = "fv_add F32 x (Fin False PI_units)"
  have P: "pdig 24 PI_units" "PI_units < flimit F32" "0 \<le> PI_units"
    by (simp_all add: PI_units_def pdig_def flimit_def)
  have key: "fv_key F32 ?v = rnd_key F32 (units x + PI_units) 1"
    using assms by (simp add: fv_add_key)
  have "units x + PI_units \<le> (2 ^ 24 - 1) * 2 ^ 253 + PI_units"
    "- ((2 ^ 24 - 1) * 2 ^ 253) \<le> units x + PI_units"
    using fin_max [OF assms] P by linarith+
  then have "fv_key F32 ?v \<le> (2 ^ 24 - 1) * 2 ^ 253" "- ((2 ^ 24 - 1) * 2 ^ 253) \<le> fv_key F32 ?v"
    unfolding key
    using rnd_key_mono [of 1 1 "units x + PI_units" "(2 ^ 24 - 1) * 2 ^ 253 + PI_units" F32]
      rnd_key_ge [of 1 F32 "- ((2 ^ 24 - 1) * 2 ^ 253)" "units x + PI_units"] key_ok_PI(3)
    by (simp_all only: rnd_key_corner key_ok_uminus mult_1_right simp_thms zero_less_one)
  then have "\<bar>fv_key F32 ?v\<bar> < flimit F32" by (simp add: flimit_def)
  moreover have "?v \<noteq> NaN" using assms by (simp add: fv_add_not_NaN)
  moreover have "fv_ok F32 ?v" using assms P by (intro fv_add_ok) simp_all
  ultimately show ?thesis by (simp add: is_fin_key)
qed

lemma add_PI_grid:
  assumes x: "fv_ok F32 x" "is_fin x" and v: "fv_add F32 x (Fin False PI_units) = Fin True k" "k \<noteq> 0"
  shows "2 ^ 127 dvd k"
proof -
  let ?n = "units x + PI_units"
  have "fv_ok F32 (Fin True k)" unfolding v(1) [symmetric]
    using x by (intro fv_add_ok) (simp_all add: PI_units_def pdig_def flimit_def)
  then have k: "0 \<le> k" "k < flimit F32" by (auto dest: pdig_nonneg)
  have key: "- k = rnd_key F32 ?n 1" using fv_add_key [OF x(2), of "Fin False PI_units" F32] v by simp
  have neg: "?n < 0"
  proof (rule ccontr)
    assume "\<not> ?n < 0"
    then have "0 \<le> rnd_key F32 ?n 1" by (simp add: rnd_key_nonneg)
    with key k v(2) show False by linarith
  qed
  from x(2) obtain s m where xm: "x = Fin s m" by (rule is_finE)
  have m: "pdig 24 m" using x(1) by (simp add: xm)
  have "PI_units < m" using neg pdig_nonneg [OF m] by (simp add: xm PI_units_def split: if_splits)
  then have "2 ^ 127 dvd m" using pdig_dvd [OF m, of 127] by (simp add: PI_units_def)
  then have "2 ^ 127 dvd units x" by (simp add: xm)
  then have "2 ^ 127 dvd - ?n" by (simp add: PI_units_def dvd_add)
  then have "2 ^ 127 dvd round_units 24 (- ?n) 1" using round_units_grid [of 1 127 "- ?n" 24] by simp
  moreover have "k = round_units 24 (- ?n) 1" using key neg k(2) by (simp add: rnd_key_def min_def split: if_splits)
  ultimately show ?thesis by simp
qed

lemma euclid_TAU:
  assumes k: "fv_ok F32 (Fin s k)" and grid: "s \<Longrightarrow> k \<noteq> 0 \<Longrightarrow> 2 ^ 127 dvd k"
    and r: "r = fv_rem_euclid F32 (Fin s k) (Fin False (2 * PI_units))"
  shows "fv_ok F32 r \<and> is_fin r \<and> 0 \<le> units r \<and> units r \<le> 13176794 * 2 ^ 128"
proof -
  let ?T = "2 * PI_units"
  have T: "0 < ?T" "fv_ok F32 (Fin False ?T)" by (simp_all add: PI_units_def pdig_def flimit_def)
  have ok: "fv_ok F32 r" unfolding r using k T(2) by (rule fv_rem_euclid_ok)
  define m where "m = k mod ?T"
  have m: "0 \<le> m" "m < ?T" using T by (simp_all add: m_def)
  have "pdig 24 m" using pdig_mod [of 24 k ?T] k T by (simp add: m_def)
  then have m_le: "m \<le> 13176794 * 2 ^ 128"
    using pdig_pred [of 24 m 13176795 128] m by (simp add: PI_units_def)
  have r0: "fv_rem (Fin s k) (Fin False ?T) = Fin s m" using T by (simp add: m_def)
  show ?thesis
  proof (cases "s \<and> m \<noteq> 0")
    case False
    then have "r = Fin s m" using m unfolding r fv_rem_euclid_def r0 Let_def by (auto simp: fv_lt_def)
    with False m m_le ok show ?thesis by auto
  next
    case True
    then have r1: "r = fv_add F32 (Fin True m) (Fin False ?T)"
      using m T unfolding r fv_rem_euclid_def r0 Let_def by (simp add: fv_lt_def)
    have "k \<noteq> 0" using True by (auto simp: m_def)
    then have "2 ^ 127 dvd k" using grid True by simp
    moreover have "2 ^ 127 dvd ?T" by (simp add: PI_units_def)
    ultimately have "2 ^ 127 dvd m" unfolding m_def by (rule dvd_mod)
    then have "2 ^ 127 \<le> m" using True m by (intro zdvd_imp_le) simp_all
    then have "rnd_key F32 (?T - m) 1 \<le> 13176794 * 2 ^ 128"
      using rnd_key_mono [of 1 1 "?T - m" "?T - 2 ^ 127" F32, unfolded rnd_key_corner] by simp
    moreover have "0 \<le> rnd_key F32 (?T - m) 1" using m by (simp add: rnd_key_nonneg)
    moreover have key: "fv_key F32 r = rnd_key F32 (?T - m) 1" unfolding r1 by (subst fv_add_key) simp_all
    moreover have "r \<noteq> NaN" unfolding r1 by (rule fv_add_not_NaN) simp_all
    ultimately have "is_fin r" using ok by (simp add: is_fin_key flimit_def)
    moreover from this have "fv_key F32 r = units r" by (rule is_fin_units_key)
    ultimately show ?thesis
      using ok key \<open>rnd_key F32 (?T - m) 1 \<le> 13176794 * 2 ^ 128\<close> \<open>0 \<le> rnd_key F32 (?T - m) 1\<close> by simp
  qed
qed

lemma wrap_angle_range:
  assumes "f32_is_finite a"
  shows "f32_between (f32_neg f32_PI) f32_PI (wrap_angle a) \<and> f32_lt (wrap_angle a) f32_PI"
proof -
  let ?v = "fv_add F32 (f32_val a) (Fin False PI_units)"
  let ?r = "fv_rem_euclid F32 ?v (Fin False (2 * PI_units))"
  have fin: "is_fin (f32_val a)" using assms by (simp add: f32_is_finite_def)
  obtain s k where v: "?v = Fin s k" using add_PI_finite [OF f32_val_ok fin] by (rule is_finE)
  have "fv_ok F32 (Fin s k)" unfolding v [symmetric]
    by (intro fv_add_ok) (simp_all add: PI_units_def pdig_def flimit_def)
  then have r: "fv_ok F32 ?r" "is_fin ?r" "0 \<le> units ?r" "units ?r \<le> 13176794 * 2 ^ 128"
    using euclid_TAU [of s k ?r] add_PI_grid [OF f32_val_ok fin] v by auto
  have val: "f32_val (wrap_angle a) = fv_sub F32 ?r (Fin False PI_units)"
    by (simp add: wrap_angle_def f32_vals val_consts)
  have "fv_key F32 (f32_val (wrap_angle a)) = rnd_key F32 (units ?r - PI_units) 1"
    unfolding val using r by (simp add: fv_sub_key)
  moreover have "units ?r - PI_units \<le> 13176793 * 2 ^ 127" "- PI_units \<le> units ?r - PI_units"
    using r by (simp_all add: PI_units_def)
  ultimately have "fv_key F32 (f32_val (wrap_angle a)) \<le> 13176793 * 2 ^ 127"
    "- PI_units \<le> fv_key F32 (f32_val (wrap_angle a))"
    using rnd_key_le [of 1 F32 "13176793 * 2 ^ 127" "units ?r - PI_units"] key_ok_PI
      rnd_key_ge [of 1 F32 "- PI_units" "units ?r - PI_units"] by simp_all
  moreover have "f32_val (wrap_angle a) \<noteq> NaN" unfolding val using r by (intro fv_sub_not_NaN) simp_all
  ultimately show ?thesis
    by (simp add: f32_between_def f32_le_def f32_lt_def fv_le_def fv_lt_def val_consts PI_units_def)
qed

section \<open>\<^verbatim>\<open>bounded_direction\<close>\<close>

definition unit32 :: int where
  "unit32 = 2 ^ 149"

lemma funit_F32: "funit F32 = unit32"
  by (simp add: funit_def unit32_def)

lemma val_one: "f32_val f32_one = Fin False unit32"
  by (simp add: val_consts unit32_def)

lemma unit32_facts [simp]:
  "0 < unit32" "0 \<le> unit32" "unit32 \<noteq> 0" "pdig 24 unit32" "pdig 24 (2 * unit32)" "2 * unit32 < flimit F32"
  "unit32 < flimit F32" "\<bar>unit32\<bar> = unit32" "key_ok F32 unit32"
  using pdig_power [of 24 149] pdig_power [of 24 150]
  by (simp_all add: unit32_def flimit_def key_ok_def)

lemma fv_mk_small: "k < flimit F \<Longrightarrow> fv_mk F s k = Fin s k"
  by (simp add: fv_mk_def)

definition in_unit :: "f32 \<Rightarrow> bool" where
  "in_unit x \<longleftrightarrow> f32_between (f32_neg f32_one) f32_one x"

lemma in_unit_iff: "in_unit x \<longleftrightarrow> is_fin (f32_val x) \<and> \<bar>units (f32_val x)\<bar> \<le> unit32"
proof -
  have "in_unit x \<longleftrightarrow> f32_val x \<noteq> NaN \<and> \<bar>fv_key F32 (f32_val x)\<bar> \<le> unit32"
    by (auto simp: in_unit_def f32_between_def f32_le_def fv_le_def val_one)
  also have "\<dots> \<longleftrightarrow> is_fin (f32_val x) \<and> \<bar>units (f32_val x)\<bar> \<le> unit32"
    using is_fin_key [OF f32_val_ok, of x] is_fin_not_NaN [of "f32_val x"] is_fin_units_key [of "f32_val x" F32]
    using unit32_facts(7) by (auto simp del: unit32_facts)
  finally show ?thesis .
qed

lemma axis_in_unit: "in_unit (axis v)"
proof -
  have "f32_le (f32_neg f32_one) f32_one" by (simp add: f32_le_def fv_le_def val_one)
  then have "in_unit (axis v)" if "f32_is_finite v"
    using f32_clamp_between [of v] f32_finite_not_nan [OF that] that by (simp add: in_unit_def axis_def)
  moreover have "in_unit (axis v)" if "\<not> f32_is_finite v" using that by (simp add: axis_def in_unit_iff)
  ultimately show ?thesis by blast
qed

text \<open>The squared coordinate, the sum, and the length, in units.\<close>

definition sq_units :: "int \<Rightarrow> int" where
  "sq_units a = round_units 24 (a * a) unit32"

lemma sq_units_bounds: "\<bar>a\<bar> \<le> unit32 \<Longrightarrow> 0 \<le> sq_units a \<and> sq_units a \<le> unit32"
proof -
  assume a: "\<bar>a\<bar> \<le> unit32"
  have "\<bar>a\<bar> * \<bar>a\<bar> \<le> unit32 * unit32" using a by (intro mult_mono) simp_all
  then have "a * a \<le> unit32 * unit32" by (simp flip: abs_mult)
  then have "sq_units a \<le> unit32"
    unfolding sq_units_def by (intro round_units_le) simp_all
  moreover have "0 \<le> sq_units a" unfolding sq_units_def by (intro round_units_nonneg) simp_all
  ultimately show ?thesis by simp
qed

lemma val_square:
  assumes "in_unit x"
  shows "f32_val (f32_mul x x) = Fin False (sq_units (units (f32_val x)))"
proof -
  from assms have fin: "is_fin (f32_val x)" and le: "\<bar>units (f32_val x)\<bar> \<le> unit32" by (simp_all add: in_unit_iff)
  from fin obtain s k where x: "f32_val x = Fin s k" by (rule is_finE)
  have "units (f32_val x) * units (f32_val x) = k * k" by (simp add: x)
  then have "f32_val (f32_mul x x) = fv_mk F32 False (sq_units (units (f32_val x)))"
    by (simp add: f32_val_mul x fv_round_def funit_F32 sq_units_def)
  moreover have "sq_units (units (f32_val x)) < flimit F32"
    using sq_units_bounds [OF le] unit32_facts(7) by linarith
  ultimately show ?thesis by (simp add: fv_mk_small)
qed

definition sum_units :: "int \<Rightarrow> int \<Rightarrow> int" where
  "sum_units a b = round_units 24 (sq_units a + sq_units b) 1"

lemma sum_units_bounds:
  assumes "\<bar>a\<bar> \<le> unit32" "\<bar>b\<bar> \<le> unit32"
  shows "0 \<le> sum_units a b \<and> sum_units a b \<le> 2 * unit32"
proof -
  note b = sq_units_bounds [OF assms(1)] sq_units_bounds [OF assms(2)]
  have "sum_units a b \<le> 2 * unit32"
    unfolding sum_units_def using b by (intro round_units_le) simp_all
  moreover have "0 \<le> sum_units a b" unfolding sum_units_def using b by (intro round_units_nonneg) simp_all
  ultimately show ?thesis by simp
qed

lemma val_sum:
  assumes "in_unit x" "in_unit z"
  shows "f32_val (f32_add (f32_mul x x) (f32_mul z z)) =
    Fin False (sum_units (units (f32_val x)) (units (f32_val z)))"
proof -
  have le: "\<bar>units (f32_val x)\<bar> \<le> unit32" "\<bar>units (f32_val z)\<bar> \<le> unit32"
    using assms by (simp_all add: in_unit_iff)
  let ?a = "sq_units (units (f32_val x))" and ?b = "sq_units (units (f32_val z))"
  have small: "sum_units (units (f32_val x)) (units (f32_val z)) < flimit F32"
    using sum_units_bounds [OF le] unit32_facts(6) by linarith
  have nn: "0 \<le> ?a" "0 \<le> ?b" using sq_units_bounds le by simp_all
  have "f32_val (f32_add (f32_mul x x) (f32_mul z z)) =
      (if ?a + ?b = 0 then Fin False 0 else fv_mk F32 False (round_units 24 (?a + ?b) 1))"
    using nn by (simp add: f32_val_add val_square assms fv_of_units_def fv_round_def Let_def)
  also have "\<dots> = Fin False (sum_units (units (f32_val x)) (units (f32_val z)))"
    using small round_units_exact1 [of 24 0] by (simp add: sum_units_def fv_mk_small)
  finally show ?thesis .
qed

definition len_units :: "int \<Rightarrow> int \<Rightarrow> int" where
  "len_units a b = (if sum_units a b = 0 then 0 else round_sqrt 24 (sum_units a b * unit32))"

lemma len_units_bounds:
  assumes "\<bar>a\<bar> \<le> unit32" "\<bar>b\<bar> \<le> unit32"
  shows "0 \<le> len_units a b \<and> len_units a b \<le> 2 * unit32 \<and> pdig 24 (len_units a b)"
proof -
  note s = sum_units_bounds [OF assms]
  have "sum_units a b * unit32 \<le> (2 * unit32) * (2 * unit32)" using s by (intro mult_mono) simp_all
  then have "round_sqrt 24 (sum_units a b * unit32) \<le> 2 * unit32"
    using s by (intro round_sqrt_le) simp_all
  moreover have "pdig 24 (round_sqrt 24 (sum_units a b * unit32))" using s by (intro pdig_round_sqrt) simp_all
  ultimately show ?thesis by (auto simp: len_units_def dest: pdig_nonneg)
qed

lemma val_len:
  assumes "in_unit x" "in_unit z"
  shows "f32_val (f32_sqrt (f32_add (f32_mul x x) (f32_mul z z))) =
    Fin False (len_units (units (f32_val x)) (units (f32_val z)))"
proof -
  let ?a = "units (f32_val x)" and ?b = "units (f32_val z)"
  have "\<bar>?a\<bar> \<le> unit32" "\<bar>?b\<bar> \<le> unit32" using assms by (simp_all add: in_unit_iff)
  then have "len_units ?a ?b < flimit F32"
    using len_units_bounds [of ?a ?b] unit32_facts(6) by linarith
  then show ?thesis
    by (simp add: f32_val_sqrt val_sum assms fv_mk_small len_units_def funit_F32 split: if_splits)
qed

lemma div_len_in_unit:
  assumes x: "in_unit x" and len: "f32_val l = Fin False k" "unit32 < k"
  shows "in_unit (f32_div x l)"
    and "units (f32_val (f32_div x l)) = rnd_key F32 (units (f32_val x) * unit32) k"
proof -
  from x have fin: "is_fin (f32_val x)" and le: "\<bar>units (f32_val x)\<bar> \<le> unit32" by (simp_all add: in_unit_iff)
  have k: "fv_ok F32 (Fin False k)" using f32_val_ok [of l] by (simp only: len)
  have key: "fv_key F32 (f32_val (f32_div x l)) = rnd_key F32 (units (f32_val x) * unit32) k"
    using fv_div_key [OF fin f32_val_ok k] len unit32_facts(1) unfolding f32_val_div funit_F32 len(1) by linarith
  have "\<bar>units (f32_val x)\<bar> * unit32 \<le> unit32 * k" using le len by (intro mult_mono) simp_all
  then have "\<bar>rnd_key F32 (units (f32_val x) * unit32) k\<bar> \<le> unit32"
    using less_trans [OF unit32_facts(1) len(2)]
    by (intro rnd_key_abs_le) (simp_all only: abs_mult unit32_facts)
  moreover have nn: "f32_val (f32_div x l) \<noteq> NaN"
    using fin len less_trans [OF unit32_facts(1) len(2)] by (cases "f32_val x") (simp_all add: f32_val_div)
  ultimately have fin': "is_fin (f32_val (f32_div x l))"
    using key unit32_facts(7) is_fin_key [OF f32_val_ok nn] by linarith
  from is_fin_units_key [OF this, of F32] key
  show "units (f32_val (f32_div x l)) = rnd_key F32 (units (f32_val x) * unit32) k" by simp
  with fin' \<open>\<bar>rnd_key F32 _ k\<bar> \<le> _\<close> show "in_unit (f32_div x l)" by (simp add: in_unit_iff)
qed

lemma bounded_direction_in_unit:
  "in_unit (fst (bounded_direction a b)) \<and> in_unit (snd (bounded_direction a b))"
proof -
  let ?k = "len_units (units (f32_val (axis a))) (units (f32_val (axis b)))"
  note len = val_len [OF axis_in_unit axis_in_unit, of a b]
  have lt: "f32_lt f32_one (f32_sqrt (f32_add (f32_mul (axis a) (axis a)) (f32_mul (axis b) (axis b)))) \<longleftrightarrow> unit32 < ?k"
    unfolding f32_lt_def len val_one by (simp add: fv_lt_def)
  show ?thesis
    unfolding bounded_direction_def Let_def lt
    using div_len_in_unit(1) [OF axis_in_unit len] axis_in_unit by simp
qed

end
