(* ===== verification/Durations.thy ===== *)
theory Durations
  imports Float_Eval
begin

text \<open>
  \<^verbatim>\<open>std::time\<close> as the server uses it: an \<^verbatim>\<open>Instant\<close> and a \<^verbatim>\<open>Duration\<close> are nanoseconds, \<open>nat\<close>
  (a \<^verbatim>\<open>Duration\<close> holds 2\<open>\<^sup>6\<^sup>4\<close> seconds, which no run reaches).
\<close>

type_synonym instant = nat
type_synonym duration = nat

definition from_secs :: "nat \<Rightarrow> duration" where
  "from_secs s = s * 1000000000"

definition from_millis :: "nat \<Rightarrow> duration" where
  "from_millis ms = ms * 1000000"

text \<open>\<^verbatim>\<open>Instant - Instant\<close> saturates at zero.\<close>

definition since :: "instant \<Rightarrow> instant \<Rightarrow> duration" where
  "since later earlier = later - earlier"

definition as_secs :: "duration \<Rightarrow> nat" where
  "as_secs d = d div 1000000000"

definition as_millis :: "duration \<Rightarrow> nat" where
  "as_millis d = d div 1000000"

definition as_secs_f32 :: "duration \<Rightarrow> f32" where
  "as_secs_f32 d = f32_add (f32_of_nat (d div 1000000000))
     (f32_div (f32_of_nat (d mod 1000000000)) (f32_of_nat 1000000000))"

lemma as_secs_f32_tick: "as_secs_f32 33333333 = 0x3D088888"
  by (simp add: as_secs_f32_def feval)

end
