(* ===== verification/World_Jump.thy ===== *)
theory World_Jump
  imports World Durations
begin

text \<open>
  The vertical motion at the server's tick: \<open>jump_arc\<close> lists the height and the vertical velocity
  after each tick of a jump, as bit patterns, and the lemmas below evaluate the code's own float
  operations on every one of them. From the ground these are the only states there are, whatever
  the inputs.
\<close>

declare fv_add.simps(1) [simp del] fv_mul.simps(1) [simp del] fv_div.simps(1) [simp del] fv_rem.simps(1) [simp del]

definition TICK_STEP :: duration where
  "TICK_STEP = from_secs 1 div unat TICK_RATE"

definition TICK_DT :: f32 where
  "TICK_DT = as_secs_f32 TICK_STEP"

lemma TICK_DT_bits: "TICK_DT = 0x3D088888"
  by (simp add: TICK_DT_def TICK_STEP_def from_secs_def TICK_RATE_def as_secs_f32_tick)

definition land :: "f32 \<Rightarrow> f32 \<Rightarrow> f32 \<times> f32" where
  "land y v = (if f32_le y 0 then (0, 0) else (y, v))"

definition fall :: "f32 \<Rightarrow> f32 \<Rightarrow> f32 \<times> f32" where
  "fall y v = land (f32_add y (f32_mul v TICK_DT)) v"

definition vertical_step :: "bool \<Rightarrow> f32 \<times> f32 \<Rightarrow> f32 \<times> f32" where
  "vertical_step jump s = (case s of (y, v) \<Rightarrow>
     fall y (f32_sub (if f32_le y 0 \<and> jump then JUMP_SPEED else v) (f32_mul GRAVITY TICK_DT)))"

definition vertical :: "player \<Rightarrow> f32 \<times> f32" where
  "vertical p = (pl_position_y p, pl_vertical_velocity p)"

lemma vertical_step_player: "vertical (step_player TICK_DT p) = vertical_step (pl_jump_held p) (vertical p)"
  by (simp add: vertical_def vertical_step_def step_player_def is_grounded_def fall_def land_def Let_def)

definition jump_arc :: "(f32 \<times> f32) list" where
  "jump_arc =
    [(0x3E582D82, 0x40CAAAAB), (0x3ECCCCCC, 0x40B55556), (0x3F111111, 0x40A00001), (0x3F360B61, 0x408AAAAC),
     (0x3F555556, 0x406AAAAE), (0x3F6EEEF0, 0x40400004), (0x3F816C18, 0x4015555A), (0x3F88888A, 0x3FD5555F),
     (0x3F8CCCCF, 0x3F80000A), (0x3F8E38E6, 0x3EAAAAD4), (0x3F8CCCD0, 0xBEAAAA80), (0x3F88888C, 0xBF7FFFEA),
     (0x3F816C1B, 0xBFD5554A), (0x3F6EEEF8, 0xC0155550), (0x3F55555F, 0xC03FFFFA), (0x3F360B6B, 0xC06AAAA4),
     (0x3F11111C, 0xC08AAAA7), (0x3ECCCCE5, 0xC09FFFFC), (0x3E582DB9, 0xC0B55551), (0x35700000, 0xC0CAAAA6)]"

section \<open>One tick, on every state of the arc\<close>

lemma gravity_tick: "f32_mul GRAVITY TICK_DT = 0x3F2AAAAA"
  unfolding TICK_DT_bits by (simp add: GRAVITY_def feval)

lemma JUMP_SPEED_bits: "JUMP_SPEED = 0x40E00000"
  by (simp add: JUMP_SPEED_def feval)

lemma vertical_step_eval:
  "vertical_step jump (y, v) = fall y (f32_sub (if f32_le y 0 \<and> jump then 0x40E00000 else v) 0x3F2AAAAA)"
  unfolding vertical_step_def gravity_tick JUMP_SPEED_bits by simp

lemma fall_eval: "fall y v = land (f32_add y (f32_mul v 0x3D088888)) v"
  unfolding fall_def TICK_DT_bits ..

lemmas tick_eval = vertical_step_eval fall_eval land_def feval

lemma ground_step:
  "vertical_step False (0, 0) = (0, 0)" "vertical_step True (0, 0) = (0x3E582D82, 0x40CAAAAB)"
  by (simp_all add: tick_eval)

lemma air_steps_1:
  "vertical_step jump (0x3E582D82, 0x40CAAAAB) = (0x3ECCCCCC, 0x40B55556)"
  "vertical_step jump (0x3ECCCCCC, 0x40B55556) = (0x3F111111, 0x40A00001)"
  "vertical_step jump (0x3F111111, 0x40A00001) = (0x3F360B61, 0x408AAAAC)"
  "vertical_step jump (0x3F360B61, 0x408AAAAC) = (0x3F555556, 0x406AAAAE)"
  by (simp_all add: tick_eval)

lemma air_steps_2:
  "vertical_step jump (0x3F555556, 0x406AAAAE) = (0x3F6EEEF0, 0x40400004)"
  "vertical_step jump (0x3F6EEEF0, 0x40400004) = (0x3F816C18, 0x4015555A)"
  "vertical_step jump (0x3F816C18, 0x4015555A) = (0x3F88888A, 0x3FD5555F)"
  "vertical_step jump (0x3F88888A, 0x3FD5555F) = (0x3F8CCCCF, 0x3F80000A)"
  by (simp_all add: tick_eval)

lemma air_steps_3:
  "vertical_step jump (0x3F8CCCCF, 0x3F80000A) = (0x3F8E38E6, 0x3EAAAAD4)"
  "vertical_step jump (0x3F8E38E6, 0x3EAAAAD4) = (0x3F8CCCD0, 0xBEAAAA80)"
  "vertical_step jump (0x3F8CCCD0, 0xBEAAAA80) = (0x3F88888C, 0xBF7FFFEA)"
  "vertical_step jump (0x3F88888C, 0xBF7FFFEA) = (0x3F816C1B, 0xBFD5554A)"
  by (simp_all add: tick_eval)

lemma air_steps_4:
  "vertical_step jump (0x3F816C1B, 0xBFD5554A) = (0x3F6EEEF8, 0xC0155550)"
  "vertical_step jump (0x3F6EEEF8, 0xC0155550) = (0x3F55555F, 0xC03FFFFA)"
  "vertical_step jump (0x3F55555F, 0xC03FFFFA) = (0x3F360B6B, 0xC06AAAA4)"
  "vertical_step jump (0x3F360B6B, 0xC06AAAA4) = (0x3F11111C, 0xC08AAAA7)"
  by (simp_all add: tick_eval)

lemma air_steps_5:
  "vertical_step jump (0x3F11111C, 0xC08AAAA7) = (0x3ECCCCE5, 0xC09FFFFC)"
  "vertical_step jump (0x3ECCCCE5, 0xC09FFFFC) = (0x3E582DB9, 0xC0B55551)"
  "vertical_step jump (0x3E582DB9, 0xC0B55551) = (0x35700000, 0xC0CAAAA6)"
  "vertical_step jump (0x35700000, 0xC0CAAAA6) = (0, 0)"
  by (simp_all add: tick_eval)

end
