(* ===== verification/World_Laws.thy ===== *)
theory World_Laws
  imports World_Floats World_Jump
begin

text \<open>
  The invariant of the world and its preservation by every operation. A player's horizontal
  position stays on the plane, the vertical state on the jump arc, the angles in their ranges and
  the move direction in the unit square; ids are distinct and at most the last one given out.
\<close>

section \<open>A player\<close>

definition on_plane :: "f32 \<Rightarrow> bool" where
  "on_plane x \<longleftrightarrow> f32_between (f32_neg PLANE_HALF_SIZE) PLANE_HALF_SIZE x"

definition yaw_ok :: "f32 \<Rightarrow> bool" where
  "yaw_ok a \<longleftrightarrow> f32_between (f32_neg f32_PI) f32_PI a \<and> f32_lt a f32_PI"

definition pitch_ok :: "f32 \<Rightarrow> bool" where
  "pitch_ok a \<longleftrightarrow> f32_between (f32_neg MAX_LOOK_PITCH) MAX_LOOK_PITCH a"

definition vertical_states :: "(f32 \<times> f32) list" where
  "vertical_states = (0, 0) # jump_arc"

definition player_ok :: "player \<Rightarrow> bool" where
  "player_ok p \<longleftrightarrow> on_plane (pl_position_x p) \<and> on_plane (pl_position_z p) \<and>
     vertical p \<in> set vertical_states \<and> yaw_ok (pl_look_yaw p) \<and> pitch_ok (pl_look_pitch p) \<and>
     in_unit (pl_move_x p) \<and> in_unit (pl_move_z p) \<and>
     pl_color p = PALETTE ! palette_index (pl_id p)"

lemma vertical_closed: "s \<in> set vertical_states \<Longrightarrow> vertical_step jump s \<in> set vertical_states"
proof -
  have "list_all (\<lambda>s. vertical_step jump s \<in> set vertical_states) vertical_states"
    by (cases jump) (simp_all add: vertical_states_def jump_arc_def ground_step air_steps_1 air_steps_2
        air_steps_3 air_steps_4 air_steps_5)
  then show "s \<in> set vertical_states \<Longrightarrow> vertical_step jump s \<in> set vertical_states"
    by (simp add: list_all_iff)
qed

lemma on_plane_finite: "on_plane x \<Longrightarrow> f32_is_finite x"
  unfolding on_plane_def
  by (erule f32_between_finite) (simp_all add: f32_is_finite_def val_consts)

lemma clamp_range: "\<not> f32_is_nan x \<Longrightarrow> on_plane (f32_clamp x (f32_neg PLANE_HALF_SIZE) PLANE_HALF_SIZE)"
  unfolding on_plane_def by (rule f32_clamp_between) (simp_all add: f32_le_def fv_le_def val_consts)

lemma in_unit_finite: "in_unit x \<Longrightarrow> f32_is_finite x"
  by (simp add: in_unit_iff f32_is_finite_def)

lemma mul_bounded_finite:
  assumes x: "in_unit x" and c: "f32_val c = Fin False k" "2 * unit32 + k < flimit F32"
  shows "f32_is_finite (f32_mul x c) \<and> \<bar>units (f32_val (f32_mul x c))\<bar> \<le> k"
proof -
  have ok: "fv_ok F32 (Fin False k)" using f32_val_ok [of c] by (simp only: c)
  then have k: "key_ok F32 k" "0 \<le> k"
    using key_ok_fv_key [OF ok] pdig_nonneg [of 24 k] by simp_all
  from x have fin: "is_fin (f32_val x)" and le: "\<bar>units (f32_val x)\<bar> \<le> unit32" by (simp_all add: in_unit_iff)
  have key: "fv_key F32 (f32_val (f32_mul x c)) = rnd_key F32 (units (f32_val x) * k) unit32"
    using fv_mul_key [OF fin _ f32_val_ok ok] by (simp add: f32_val_mul c funit_F32)
  have "\<bar>units (f32_val x)\<bar> * k \<le> unit32 * k" using le k(2) by (intro mult_right_mono) simp_all
  then have "\<bar>units (f32_val x) * k\<bar> \<le> k * unit32" using k(2) by (simp add: abs_mult mult.commute)
  then have abs: "\<bar>fv_key F32 (f32_val (f32_mul x c))\<bar> \<le> k"
    unfolding key using k(1) by (intro rnd_key_abs_le) simp_all
  have nn: "f32_val (f32_mul x c) \<noteq> NaN"
    unfolding f32_val_mul c(1) by (rule fv_mul_not_NaN [OF fin]) simp
  have "\<bar>fv_key F32 (f32_val (f32_mul x c))\<bar> < flimit F32" using abs c(2) unit32_facts(1) by linarith
  then have fin': "is_fin (f32_val (f32_mul x c))" using is_fin_key [OF f32_val_ok nn] by simp
  with abs is_fin_units_key [OF fin', of F32] show ?thesis by (simp add: f32_is_finite_def)
qed

lemma move_axis_on_plane:
  assumes "on_plane x" "in_unit m" "f32_is_finite dt"
  shows "on_plane (move_axis dt x m)"
proof -
  have "f32_is_finite (f32_mul m MOVE_SPEED)"
    using mul_bounded_finite [OF assms(2) val_consts(6)] by (simp add: unit32_def flimit_def)
  then have "f32_val (f32_mul (f32_mul m MOVE_SPEED) dt) \<noteq> NaN"
    using assms(3) unfolding f32_val_mul [of "f32_mul m MOVE_SPEED"]
    by (intro fv_mul_not_NaN) (simp_all add: f32_is_finite_def)
  then have "\<not> f32_is_nan (f32_add x (f32_mul (f32_mul m MOVE_SPEED) dt))"
    using on_plane_finite [OF assms(1)] unfolding f32_is_nan_def f32_val_add
    by (intro fv_add_not_NaN) (simp_all add: f32_is_finite_def)
  then show ?thesis unfolding move_axis_def by (rule clamp_range)
qed

lemma TICK_DT_finite: "f32_is_finite TICK_DT"
  unfolding TICK_DT_bits by (simp add: feval)

lemma step_player_fields [simp]:
  "pl_position_x (step_player dt p) = move_axis dt (pl_position_x p) (pl_move_x p)"
  "pl_position_z (step_player dt p) = move_axis dt (pl_position_z p) (pl_move_z p)"
  "pl_look_yaw (step_player dt p) = pl_look_yaw p" "pl_look_pitch (step_player dt p) = pl_look_pitch p"
  "pl_move_x (step_player dt p) = pl_move_x p" "pl_move_z (step_player dt p) = pl_move_z p"
  "pl_jump_held (step_player dt p) = pl_jump_held p" "pl_id (step_player dt p) = pl_id p"
  "pl_last_sequence (step_player dt p) = pl_last_sequence p" "pl_color (step_player dt p) = pl_color p"
  "pl_client_kind (step_player dt p) = pl_client_kind p"
  "pl_display_name (step_player dt p) = pl_display_name p"
  by (simp_all add: step_player_def Let_def)

lemma step_player_ok: "player_ok p \<Longrightarrow> player_ok (step_player TICK_DT p)"
  using vertical_closed [of "vertical p"]
  by (simp add: player_ok_def move_axis_on_plane TICK_DT_finite vertical_step_player)

lemma take_input_fields [simp]:
  "pl_position_x (take_input i p) = pl_position_x p" "pl_position_z (take_input i p) = pl_position_z p"
  "vertical (take_input i p) = vertical p" "pl_id (take_input i p) = pl_id p"
  "pl_color (take_input i p) = pl_color p" "pl_last_sequence (take_input i p) = pi_sequence i"
  "pl_jump_held (take_input i p) = pi_jump i"
  "pl_move_x (take_input i p) = fst (bounded_direction (pi_move_x i) (pi_move_z i))"
  "pl_move_z (take_input i p) = snd (bounded_direction (pi_move_x i) (pi_move_z i))"
  "pl_look_yaw (take_input i p) = (if f32_is_finite (pi_look_yaw i) then wrap_angle (pi_look_yaw i) else pl_look_yaw p)"
  "pl_look_pitch (take_input i p) = (if f32_is_finite (pi_look_pitch i)
     then f32_clamp (pi_look_pitch i) (f32_neg MAX_LOOK_PITCH) MAX_LOOK_PITCH else pl_look_pitch p)"
  by (simp_all add: take_input_def Let_def vertical_def split: prod.split)

lemma clamp_pitch_ok: "f32_is_finite a \<Longrightarrow> pitch_ok (f32_clamp a (f32_neg MAX_LOOK_PITCH) MAX_LOOK_PITCH)"
  unfolding pitch_ok_def
  by (rule f32_clamp_between) (simp_all add: f32_finite_not_nan, simp add: f32_le_def fv_le_def val_consts)

lemma take_input_ok: "player_ok p \<Longrightarrow> player_ok (take_input i p)"
  using wrap_angle_range [of "pi_look_yaw i"] bounded_direction_in_unit [of "pi_move_x i" "pi_move_z i"]
  by (simp add: player_ok_def yaw_ok_def clamp_pitch_ok)

section \<open>Spawning\<close>

text \<open>What the server relies on in \<^verbatim>\<open>f32::cos\<close> and \<^verbatim>\<open>f32::sin\<close>: on a finite angle they are in [-1, 1].\<close>

definition trig_ok :: "trig \<Rightarrow> bool" where
  "trig_ok trig \<longleftrightarrow> (\<forall>a. f32_is_finite a \<longrightarrow> in_unit (trig_cos trig a) \<and> in_unit (trig_sin trig a))"

lemma spawn_angle_finite: "f32_is_finite (f32_mul (f32_of_nat (unat (i :: u32))) SPAWN_ANGLE_STEP)"
proof -
  let ?n = "unat i"
  have step: "f32_val SPAWN_ANGLE_STEP = Fin False (10066174 * 2 ^ 127)" and step_ok: "fv_ok F32 (Fin False (10066174 * 2 ^ 127))"
  proof -
    have bits: "SPAWN_ANGLE_STEP = 0x401998FE" by (simp add: SPAWN_ANGLE_STEP_def feval)
    show step: "f32_val SPAWN_ANGLE_STEP = Fin False (10066174 * 2 ^ 127)"
      unfolding bits by (simp add: f32_val_def from_bits_def bits_mag_def sign_bit_F32 inf_bits_F32)
    show "fv_ok F32 (Fin False (10066174 * 2 ^ 127))" using f32_val_ok [of SPAWN_ANGLE_STEP] by (simp only: step)
  qed
  have "int ?n < 2 ^ 32" using unsigned_less [of i, where 'a = int] by simp
  then have n: "int ?n * unit32 \<le> 2 ^ 181" "0 \<le> int ?n * unit32" by (simp_all add: unit32_def)
  have r: "round_units 24 (int ?n * unit32) 1 \<le> 2 ^ 181" "0 \<le> round_units 24 (int ?n * unit32) 1"
    "pdig 24 (round_units 24 (int ?n * unit32) 1)"
    using n pdig_power [of 24 181]
    by (intro round_units_le round_units_nonneg pdig_round_units; simp)+
  then obtain k where k: "f32_val (f32_of_nat ?n) = Fin False k" "0 \<le> k" "k \<le> 2 ^ 181"
    by (simp add: f32_val_of_nat fv_of_nat_def fv_round_def funit_F32 fv_mk_def flimit_def)
  have ok: "fv_ok F32 (Fin False k)" using f32_val_ok [of "f32_of_nat ?n"] by (simp only: k)
  let ?v = "fv_mul F32 (Fin False k) (Fin False (10066174 * 2 ^ 127))"
  have "fv_key F32 ?v = rnd_key F32 (k * (10066174 * 2 ^ 127)) unit32"
    using fv_mul_key [OF _ _ ok step_ok] by (simp add: funit_F32)
  moreover have "\<bar>rnd_key F32 (k * (10066174 * 2 ^ 127)) unit32\<bar> \<le> 2 ^ 200"
  proof (rule rnd_key_abs_le)
    show "key_ok F32 (2 ^ 200)" using pdig_power [of 24 200] by (simp add: key_ok_def flimit_def)
    have "k * (10066174 * 2 ^ 127) \<le> 2 ^ 181 * (10066174 * 2 ^ 127)" using k by (intro mult_right_mono) simp_all
    then show "\<bar>k * (10066174 * 2 ^ 127)\<bar> \<le> 2 ^ 200 * unit32" using k by (simp add: unit32_def)
  qed simp
  moreover have "?v \<noteq> NaN" by (simp add: fv_mul_not_NaN)
  ultimately have "is_fin ?v" using fv_mul_ok [OF ok step_ok] by (simp add: is_fin_key flimit_def)
  then show ?thesis by (simp add: f32_is_finite_def f32_val_mul k step)
qed

lemma spawn_on_plane: "in_unit c \<Longrightarrow> on_plane (f32_mul SPAWN_RADIUS c)"
proof -
  assume c: "in_unit c"
  have R: "f32_val SPAWN_RADIUS = Fin False (3 * unit32)"
    by (simp add: const_bits f32_val_def from_bits_def bits_mag_def sign_bit_F32 inf_bits_F32 unit32_def)
  have "f32_val (f32_mul SPAWN_RADIUS c) = f32_val (f32_mul c SPAWN_RADIUS)"
    unfolding f32_val_mul R by (cases "f32_val c") (simp_all add: fv_mul.simps mult.commute)
  moreover have "f32_is_finite (f32_mul c SPAWN_RADIUS) \<and> \<bar>units (f32_val (f32_mul c SPAWN_RADIUS))\<bar> \<le> 3 * unit32"
    using mul_bounded_finite [OF c R] by (simp add: unit32_def flimit_def)
  ultimately show ?thesis
    by (auto simp: on_plane_def f32_between_def f32_le_def fv_le_def val_consts f32_is_finite_def
        is_fin_not_NaN is_fin_units_key unit32_def abs_le_iff)
qed

lemma zero_ok [simp]: "yaw_ok 0" "pitch_ok 0" "in_unit 0"
  by (simp_all add: yaw_ok_def pitch_ok_def in_unit_iff f32_between_def f32_le_def f32_lt_def fv_le_def fv_lt_def
      val_consts PI_units_def)

lemma new_player_ok: "trig_ok trig \<Longrightarrow> player_ok (new_player trig i kind name)"
  using spawn_angle_finite [of i]
  by (simp add: player_ok_def new_player_def spawn_position_def Let_def spawn_on_plane trig_ok_def
      vertical_def vertical_states_def)

end
