(* ===== verification/World_Norm.thy ===== *)
theory World_Norm
  imports World_Floats
begin

text \<open>
  The error analysis of \<^verbatim>\<open>bounded_direction\<close>: a direction the code normalises has a squared length
  of at most one plus \<open>2\<^sup>-\<^sup>1\<^sup>9\<close>, with every rounding of the two squares, the sum, the root and the
  quotients accounted for.
\<close>

lemma norm_core:
  fixes a b U T L e x z :: int
  assumes U: "0 < U" "U \<le> L" and e: "0 \<le> e" and ab: "\<bar>a\<bar> \<le> U" "\<bar>b\<bar> \<le> U"
    and sum: "a * a + b * b \<le> U * (T + 4 * e)" and root: "T * U \<le> (L + 4 * e) * (L + 4 * e)"
    and x: "\<bar>x\<bar> * L \<le> \<bar>a\<bar> * U + L * e" and z: "\<bar>z\<bar> * L \<le> \<bar>b\<bar> * U + L * e"
  shows "x * x + z * z \<le> U * U + 16 * e * U + 18 * (e * e)"
proof -
  have L: "0 < L" using U by linarith
  have sq: "(y * L) * (y * L) \<le> (c * U) * (c * U) + 2 * (e * U) * (L * L) + (L * e) * (L * e)"
    if "\<bar>y\<bar> * L \<le> \<bar>c\<bar> * U + L * e" "\<bar>c\<bar> \<le> U" for y c
  proof -
    have "(\<bar>y\<bar> * L) * (\<bar>y\<bar> * L) \<le> (\<bar>c\<bar> * U + L * e) * (\<bar>c\<bar> * U + L * e)"
      using that(1) L e U by (intro mult_mono) (simp_all add: add_nonneg_nonneg)
    moreover have "(\<bar>y\<bar> * L) * (\<bar>y\<bar> * L) = (y * L) * (y * L)"
      by (simp add: algebra_simps flip: abs_mult)
    moreover have "(\<bar>c\<bar> * U + L * e) * (\<bar>c\<bar> * U + L * e) =
        (\<bar>c\<bar> * \<bar>c\<bar>) * (U * U) + 2 * (\<bar>c\<bar> * U * (L * e)) + (L * e) * (L * e)" by (simp add: algebra_simps)
    moreover have "\<bar>c\<bar> * U * (L * e) \<le> U * L * (L * e)"
      using that(2) U L e by (intro mult_mono) simp_all
    moreover have "(\<bar>c\<bar> * \<bar>c\<bar>) * (U * U) = (c * U) * (c * U)" by (simp add: algebra_simps)
    moreover have "U * L * (L * e) = (e * U) * (L * L)" by (simp add: algebra_simps)
    ultimately show ?thesis by linarith
  qed
  have "U * (T + 4 * e) \<le> (L + 4 * e) * (L + 4 * e) + 4 * (e * U)" using root by (simp add: algebra_simps)
  then have ab2: "a * a + b * b \<le> L * L + 8 * (e * L) + 16 * (e * e) + 4 * (e * U)"
    using sum by (simp add: algebra_simps)
  have "(U * U) * (a * a + b * b) \<le> (U * U) * (L * L + 8 * (e * L) + 16 * (e * e) + 4 * (e * U))"
    using ab2 by (rule mult_left_mono) simp
  also have "\<dots> = (L * L) * (U * U) + 8 * ((U * U) * (e * L)) + 16 * ((U * U) * (e * e)) + 4 * ((U * U) * (e * U))"
    by (simp add: algebra_simps)
  also have "\<dots> \<le> (L * L) * (U * U) + 8 * ((L * L) * (e * U)) + 16 * ((L * L) * (e * e)) + 4 * ((L * L) * (e * U))"
  proof -
    have UL: "U * U \<le> L * L" using U by (intro mult_mono) simp_all
    have "(U * U) * (e * L) = (e * U) * (U * L)" by (simp add: algebra_simps)
    also have "\<dots> \<le> (e * U) * (L * L)" using U e by (intro mult_left_mono mult_right_mono) simp_all
    finally have 1: "(U * U) * (e * L) \<le> (L * L) * (e * U)" by (simp add: algebra_simps)
    have 2: "(U * U) * (e * e) \<le> (L * L) * (e * e)" using UL by (intro mult_right_mono) simp_all
    have 3: "(U * U) * (e * U) \<le> (L * L) * (e * U)" using UL e U by (intro mult_right_mono) simp_all
    from 1 2 3 show ?thesis by linarith
  qed
  finally have main: "(U * U) * (a * a + b * b) \<le> (L * L) * (U * U + 12 * (e * U) + 16 * (e * e))"
    by (simp add: algebra_simps)
  have "(x * L) * (x * L) + (z * L) * (z * L) \<le>
      (U * U) * (a * a + b * b) + 4 * (e * U) * (L * L) + 2 * ((L * e) * (L * e))"
    using sq [OF x ab(1)] sq [OF z ab(2)] by (simp add: algebra_simps)
  with main have "(L * L) * (x * x + z * z) \<le> (L * L) * (U * U + 16 * e * U + 18 * (e * e))"
    by (simp add: algebra_simps)
  then show ?thesis using L by (simp add: mult_le_cancel_left)
qed


lemma rnd_key_abs: "0 < d \<Longrightarrow> \<bar>rnd_key F v d\<bar> = min (flimit F) (round_units (prec F) \<bar>v\<bar> d)"
proof -
  assume "0 < d"
  then have "0 \<le> round_units (prec F) \<bar>v\<bar> d" by (intro round_units_nonneg) simp_all
  then have "0 \<le> min (flimit F) (round_units (prec F) \<bar>v\<bar> d)" by simp
  moreover have "\<bar>rnd_key F v d\<bar> = \<bar>min (flimit F) (round_units (prec F) \<bar>v\<bar> d)\<bar>"
    by (cases "v < 0") (simp_all only: rnd_key_def if_True if_False abs_minus_cancel abs_of_nonneg abs_of_neg not_less linorder_not_le [symmetric] not_False_eq_True simp_thms)
  ultimately show ?thesis by simp
qed

lemma round_err:
  assumes "0 < d" "0 \<le> n" "n < 2 ^ k * d" "24 \<le> k"
  shows "\<bar>n - round_units 24 n d * d\<bar> * 2 \<le> d * 2 ^ (k - 24)"
proof -
  have "n div d < 2 ^ k" using assms by (simp add: int_div_less_iff)
  moreover have "0 \<le> n div d" using assms by (simp add: pos_imp_zdiv_nonneg_iff)
  ultimately have "nbits (n div d) \<le> k" by (simp add: nbits_le_iff)
  then have "(2::int) ^ (nbits (n div d) - 24) \<le> 2 ^ (k - 24)" by (intro power_increasing) simp_all
  then have "d * 2 ^ (nbits (n div d) - 24) \<le> d * 2 ^ (k - 24)" using assms by (intro mult_left_mono) simp_all
  moreover have "2 * n - 2 * (round_units 24 n d * d) = 2 * (n - round_units 24 n d * d)" by (simp add: algebra_simps)
  then have "\<bar>2 * n - 2 * (round_units 24 n d * d)\<bar> = \<bar>n - round_units 24 n d * d\<bar> * 2" by (simp only: abs_mult)
  ultimately show ?thesis using round_units_error [of d n 24] assms(1) by linarith
qed

definition tick_err :: int where
  "tick_err = 2 ^ 125"

lemma tick_err_unit: "unit32 = 16777216 * tick_err" "0 < tick_err"
  by (simp_all add: unit32_def tick_err_def)

lemma sq_err: "\<bar>a\<bar> \<le> unit32 \<Longrightarrow> a * a \<le> (sq_units a + tick_err) * unit32"
proof -
  assume "\<bar>a\<bar> \<le> unit32"
  then have "\<bar>a\<bar> * \<bar>a\<bar> \<le> unit32 * unit32" by (intro mult_mono) simp_all
  then have "a * a < 2 ^ 150 * unit32" by (simp add: unit32_def flip: abs_mult)
  then have "\<bar>a * a - sq_units a * unit32\<bar> * 2 \<le> unit32 * 2 ^ (150 - 24)"
    unfolding sq_units_def by (intro round_err) simp_all
  then show ?thesis by (simp add: tick_err_def algebra_simps)
qed

lemma sum_err:
  assumes "\<bar>a\<bar> \<le> unit32" "\<bar>b\<bar> \<le> unit32"
  shows "sq_units a + sq_units b \<le> sum_units a b + 2 * tick_err"
proof -
  have "sq_units a + sq_units b < 2 ^ 151 * 1" "0 \<le> sq_units a + sq_units b"
    using sq_units_bounds [OF assms(1)] sq_units_bounds [OF assms(2)] by (simp_all add: unit32_def)
  then have "\<bar>sq_units a + sq_units b - sum_units a b * 1\<bar> * 2 \<le> 1 * 2 ^ (151 - 24)"
    unfolding sum_units_def by (intro round_err) simp_all
  then show ?thesis by (simp add: tick_err_def)
qed

lemma len_err:
  assumes "\<bar>a\<bar> \<le> unit32" "\<bar>b\<bar> \<le> unit32"
  shows "sum_units a b * unit32 \<le> (len_units a b + 4 * tick_err) * (len_units a b + 4 * tick_err)"
proof (cases "sum_units a b = 0")
  case False
  let ?n = "sum_units a b * unit32"
  let ?k = "isqrt ?n div 2 ^ 127 * 2 ^ 127"
  have n: "0 \<le> ?n" using sum_units_bounds [OF assms] by simp
  note root = isqrt_spec [OF n]
  have k0: "0 \<le> ?k" using isqrt_nonneg [of ?n] by (simp add: pos_imp_zdiv_nonneg_iff)
  have "?n < (2 * unit32) * (2 * unit32)" using sum_units_bounds [OF assms] by (simp add: unit32_def)
  then have "isqrt ?n * isqrt ?n < (2 * unit32) * (2 * unit32)" using root by linarith
  then have "isqrt ?n < 2 * unit32" by (rule square_less_imp [rotated]) simp
  then have "isqrt ?n div 2 ^ 127 < 2 ^ 24" by (simp add: int_div_less_iff unit32_def)
  then have "pdig 24 ?k" using k0 by (intro pdig_mult_power) simp_all
  moreover have k: "?k \<le> isqrt ?n" "isqrt ?n < ?k + 2 ^ 127"
    using div_mult_mod_eq [of "isqrt ?n" "2 ^ 127"] pos_mod_sign [of "2 ^ 127" "isqrt ?n", OF zero_less_power]
      pos_mod_bound [of "2 ^ 127" "isqrt ?n", OF zero_less_power] by linarith+
  then have "?k * ?k \<le> isqrt ?n * isqrt ?n" using k0 by (intro mult_mono) (simp_all add: isqrt_nonneg)
  with root have "?k * ?k \<le> ?n" by linarith
  ultimately have "?k \<le> len_units a b" using False n by (simp add: len_units_def round_sqrt_ge)
  moreover have "4 * tick_err = 2 ^ 127" by (simp add: tick_err_def)
  ultimately have "isqrt ?n + 1 \<le> len_units a b + 4 * tick_err" using k(2) by linarith
  then have "(isqrt ?n + 1) * (isqrt ?n + 1) \<le> (len_units a b + 4 * tick_err) * (len_units a b + 4 * tick_err)"
    using isqrt_nonneg [of ?n] by (intro mult_mono) simp_all
  with root show ?thesis by linarith
qed (simp add: len_units_def)

lemma div_err:
  assumes a: "\<bar>a\<bar> \<le> unit32" and L: "unit32 < L"
  shows "\<bar>rnd_key F32 (a * unit32) L\<bar> * L \<le> \<bar>a\<bar> * unit32 + L * tick_err"
proof -
  let ?n = "\<bar>a\<bar> * unit32"
  have L0: "0 < L" using L unit32_facts(1) by linarith
  have le: "?n \<le> unit32 * L" using a L by (intro mult_mono) simp_all
  also have "\<dots> < 2 ^ 150 * L" using L0 by (intro mult_strict_right_mono) (simp_all add: unit32_def)
  finally have "\<bar>?n - round_units 24 ?n L * L\<bar> * 2 \<le> L * 2 ^ (150 - 24)"
    using L0 by (intro round_err) simp_all
  then have "round_units 24 ?n L * L \<le> ?n + L * tick_err" by (simp add: tick_err_def algebra_simps)
  moreover have "\<bar>rnd_key F32 (a * unit32) L\<bar> \<le> round_units 24 ?n L"
    using rnd_key_abs [OF L0, of F32 "a * unit32"] by (simp add: abs_mult)
  then have "\<bar>rnd_key F32 (a * unit32) L\<bar> * L \<le> round_units 24 ?n L * L"
    using L0 by (intro mult_right_mono) simp_all
  ultimately show ?thesis by linarith
qed

lemma normalised_norm:
  assumes ab: "\<bar>a\<bar> \<le> unit32" "\<bar>b\<bar> \<le> unit32" and L: "L = len_units a b" "unit32 < L"
    and x: "x = rnd_key F32 (a * unit32) L" and z: "z = rnd_key F32 (b * unit32) L"
  shows "x * x + z * z \<le> unit32 * unit32 + 16 * tick_err * unit32 + 18 * (tick_err * tick_err)"
proof (rule norm_core [where a = a and b = b and L = L and T = "sum_units a b"])
  have "a * a + b * b \<le> (sq_units a + sq_units b + 2 * tick_err) * unit32"
    using sq_err [OF ab(1)] sq_err [OF ab(2)] by (simp add: algebra_simps)
  also have "\<dots> \<le> (sum_units a b + 4 * tick_err) * unit32"
    using sum_err [OF ab] by (intro mult_right_mono) simp_all
  finally show "a * a + b * b \<le> unit32 * (sum_units a b + 4 * tick_err)" by (simp add: mult.commute)
  show "sum_units a b * unit32 \<le> (L + 4 * tick_err) * (L + 4 * tick_err)"
    unfolding L(1) by (rule len_err [OF ab])
qed (use L ab tick_err_unit(2) in \<open>simp_all add: x z div_err\<close>)

end
