(* ===== verification/World_Reach.thy ===== *)
theory World_Reach
  imports World_Laws World_Norm
begin

text \<open>
  The worlds the server can reach, the invariant they satisfy, and the abstract world (a map from
  peers to players) that the operations refine.
\<close>

section \<open>Invariant\<close>

definition ids_ok :: "'p::linorder world \<Rightarrow> bool" where
  "ids_ok w \<longleftrightarrow>
     (\<forall>k p. world_player w k = Some p \<longrightarrow> 0 < unat (pl_id p) \<and> unat (pl_id p) \<le> unat (wd_next_player_id w)) \<and>
     (\<forall>j k p q. world_player w j = Some p \<and> world_player w k = Some q \<and> pl_id p = pl_id q \<longrightarrow> j = k)"

definition world_ok :: "'p::linorder world \<Rightarrow> bool" where
  "world_ok w \<longleftrightarrow> bt_ok (wd_players w) \<and> bt.all_vals player_ok (wd_players w) \<and> ids_ok w"

lemma world_okD:
  "world_ok w \<Longrightarrow> world_player w k = Some p \<Longrightarrow> player_ok p"
  by (auto simp: world_ok_def world_player_def bt.all_vals_def)

lemma new_world_ok: "world_ok world_new"
  by (simp add: world_ok_def world_new_def ids_ok_def world_player_def bt.all_vals_def)

lemma player_join:
  "bt_ok (wd_players w) \<Longrightarrow> world_player (snd (join trig peer kind name w)) k =
    (if k = peer \<and> world_player w peer = None
     then Some (new_player trig (wd_next_player_id w + 1) kind name) else world_player w k)"
  by (auto simp: world_player_def join_def Let_def bt_get_insert split: option.split)

lemma player_leave:
  "bt_ok (wd_players w) \<Longrightarrow> world_player (snd (leave peer w)) k = (if k = peer then None else world_player w k)"
  by (simp add: world_player_def leave_def bt_get_remove)

definition accepts :: "'p::linorder \<Rightarrow> PlayerInput \<Rightarrow> 'p world \<Rightarrow> bool" where
  "accepts peer i w \<longleftrightarrow> (case world_player w peer of None \<Rightarrow> False | Some p \<Rightarrow> pl_last_sequence p \<le> pi_sequence i)"

lemma fst_apply_input: "fst (apply_input peer i w) = accepts peer i w"
  by (auto simp: apply_input_def accepts_def world_player_def split: option.split)

lemma apply_input_refused: "\<not> accepts peer i w \<Longrightarrow> snd (apply_input peer i w) = w"
  by (auto simp: apply_input_def accepts_def world_player_def split: option.split)

lemma player_apply_input:
  "bt_ok (wd_players w) \<Longrightarrow> world_player (snd (apply_input peer i w)) k =
    (if k = peer \<and> accepts peer i w then map_option (take_input i) (world_player w k) else world_player w k)"
  by (auto simp: world_player_def apply_input_def accepts_def bt_get_insert split: option.split)

lemma player_step: "world_player (world_step dt w) k = map_option (step_player dt) (world_player w k)"
  by (simp add: world_player_def world_step_def)

lemma next_id:
  "wd_next_player_id (snd (join trig peer kind name w)) =
     (if world_player w peer = None then wd_next_player_id w + 1 else wd_next_player_id w)"
  "wd_next_player_id (snd (leave peer w)) = wd_next_player_id w"
  "wd_next_player_id (snd (apply_input peer i w)) = wd_next_player_id w"
  "wd_next_player_id (world_step dt w) = wd_next_player_id w"
  by (simp_all add: join_def leave_def apply_input_def world_step_def world_player_def Let_def split: option.split)

lemma tick_of:
  "wd_tick (snd (join trig peer kind name w)) = wd_tick w" "wd_tick (snd (leave peer w)) = wd_tick w"
  "wd_tick (snd (apply_input peer i w)) = wd_tick w" "wd_tick (world_step dt w) = wd_tick w + 1"
  by (simp_all add: join_def leave_def apply_input_def world_step_def Let_def split: option.split)

lemma bt_ok_ops:
  assumes "bt_ok (wd_players w)"
  shows "bt_ok (wd_players (snd (join trig peer kind name w)))" "bt_ok (wd_players (snd (leave peer w)))"
    "bt_ok (wd_players (snd (apply_input peer i w)))" "bt_ok (wd_players (world_step dt w))"
  using assms by (simp_all add: join_def leave_def apply_input_def world_step_def Let_def split: option.split)

lemma all_vals_world: "bt.all_vals P (wd_players w) \<longleftrightarrow> (\<forall>k p. world_player w k = Some p \<longrightarrow> P p)"
  by (simp add: bt.all_vals_def world_player_def)

lemma ids_ok_same:
  assumes ids: "ids_ok w" and nx: "wd_next_player_id w' = wd_next_player_id w"
    and sub: "\<And>k p. world_player w' k = Some p \<Longrightarrow> \<exists>q. world_player w k = Some q \<and> pl_id q = pl_id p"
  shows "ids_ok w'"
proof -
  have "0 < unat (pl_id p) \<and> unat (pl_id p) \<le> unat (wd_next_player_id w')" if "world_player w' k = Some p" for k p
    using sub [OF that] ids unfolding ids_ok_def nx by metis
  moreover have "j = k" if pq: "world_player w' j = Some p" "world_player w' k = Some q" "pl_id p = pl_id q" for j k p q
  proof -
    obtain p' q' where "world_player w j = Some p'" "pl_id p' = pl_id p"
      "world_player w k = Some q'" "pl_id q' = pl_id q"
      using sub [OF pq(1)] sub [OF pq(2)] by blast
    with pq(3) ids show ?thesis unfolding ids_ok_def by metis
  qed
  ultimately show ?thesis unfolding ids_ok_def by blast
qed

lemma join_ok:
  assumes w: "world_ok w" and trig: "trig_ok trig" and room: "unat (wd_next_player_id w) < 2 ^ 32 - 1"
  shows "world_ok (snd (join trig peer kind name w))"
proof (cases "world_player w peer")
  case (Some p)
  then show ?thesis using w by (simp add: join_def world_player_def)
next
  case None
  let ?w = "snd (join trig peer kind name w)" and ?n = "wd_next_player_id w + 1"
  let ?p = "new_player trig ?n kind name"
  have bt: "bt_ok (wd_players w)" and ids: "ids_ok w" using w by (simp_all add: world_ok_def)
  have n: "unat ?n = Suc (unat (wd_next_player_id w))"
    using room by (simp add: unat_plus_if_size word_size)
  have get: "world_player ?w k = (if k = peer then Some ?p else world_player w k)" for k
    using player_join [OF bt, of trig peer kind name k] None by auto
  have id_p: "pl_id ?p = ?n" by (simp add: new_player_def split: prod.split)
  have old: "pl_id q \<noteq> ?n" if "world_player w k = Some q" for k q
    using ids that n unfolding ids_ok_def by (metis Suc_n_not_le_n)
  have "ids_ok ?w"
    unfolding ids_ok_def get next_id None
    using ids n old id_p unfolding ids_ok_def by (auto split: if_splits) (metis le_SucI)+
  moreover have "bt.all_vals player_ok (wd_players ?w)"
    using w new_player_ok [OF trig] unfolding world_ok_def all_vals_world get by auto
  ultimately show ?thesis using bt_ok_ops(1) [OF bt] by (simp add: world_ok_def)
qed

lemma leave_ok: "world_ok w \<Longrightarrow> world_ok (snd (leave peer w))"
  by (auto simp: world_ok_def bt_ok_ops all_vals_world player_leave next_id
      elim!: ids_ok_same split: if_splits)

lemma apply_input_ok: "world_ok w \<Longrightarrow> world_ok (snd (apply_input peer i w))"
  by (auto simp: world_ok_def bt_ok_ops all_vals_world player_apply_input next_id take_input_ok
      elim!: ids_ok_same split: if_splits)

lemma step_ok: "world_ok w \<Longrightarrow> world_ok (world_step TICK_DT w)"
  by (auto simp: world_ok_def bt_ok_ops all_vals_world player_step next_id step_player_ok
      elim!: ids_ok_same)

section \<open>Reachable worlds\<close>

text \<open>\<open>reachable trig n w\<close>: \<open>w\<close> comes from the new world by the operations of the game loop, with \<open>n\<close> calls of join.\<close>

inductive reachable :: "trig \<Rightarrow> nat \<Rightarrow> 'p::linorder world \<Rightarrow> bool" for trig where
  start: "reachable trig 0 world_new"
| joined: "reachable trig n w \<Longrightarrow> reachable trig (Suc n) (snd (join trig peer kind name w))"
| left: "reachable trig n w \<Longrightarrow> reachable trig n (snd (leave peer w))"
| input: "reachable trig n w \<Longrightarrow> reachable trig n (snd (apply_input peer i w))"
| stepped: "reachable trig n w \<Longrightarrow> reachable trig n (world_step TICK_DT w)"

lemma reachable_next: "reachable trig n w \<Longrightarrow> n < 2 ^ 32 \<Longrightarrow> unat (wd_next_player_id w) \<le> n"
proof (induction rule: reachable.induct)
  case (joined n w peer kind name)
  then show ?case by (auto simp: next_id unat_plus_if_size word_size)
qed (simp_all add: next_id, simp add: world_new_def)

lemma reachable_world_ok: "reachable trig n w \<Longrightarrow> trig_ok trig \<Longrightarrow> n < 2 ^ 32 \<Longrightarrow> world_ok w"
proof (induction rule: reachable.induct)
  case (joined n w peer kind name)
  then show ?case using reachable_next [OF joined.hyps] by (intro join_ok) simp_all
qed (simp_all add: new_world_ok leave_ok apply_input_ok step_ok)

section \<open>The abstract world\<close>

record 'p abstract_world =
  aw_players :: "'p \<Rightarrow> player option"
  aw_next_id :: u32
  aw_tick :: u32

definition abs_world :: "'p::linorder world \<Rightarrow> 'p abstract_world" where
  "abs_world w = \<lparr>aw_players = world_player w, aw_next_id = wd_next_player_id w, aw_tick = wd_tick w\<rparr>"

definition abs_join :: "trig \<Rightarrow> 'p \<Rightarrow> u8 \<Rightarrow> string \<Rightarrow> 'p abstract_world \<Rightarrow> u32 \<times> 'p abstract_world" where
  "abs_join trig peer kind name w = (case aw_players w peer of Some p \<Rightarrow> (pl_id p, w)
     | None \<Rightarrow> (aw_next_id w + 1, w\<lparr>aw_next_id := aw_next_id w + 1,
         aw_players := (aw_players w)(peer \<mapsto> new_player trig (aw_next_id w + 1) kind name)\<rparr>))"

definition abs_leave :: "'p \<Rightarrow> 'p abstract_world \<Rightarrow> player option \<times> 'p abstract_world" where
  "abs_leave peer w = (aw_players w peer, w\<lparr>aw_players := (aw_players w)(peer := None)\<rparr>)"

definition abs_input :: "'p \<Rightarrow> PlayerInput \<Rightarrow> 'p abstract_world \<Rightarrow> bool \<times> 'p abstract_world" where
  "abs_input peer i w = (case aw_players w peer of None \<Rightarrow> (False, w)
     | Some p \<Rightarrow> if pi_sequence i < pl_last_sequence p then (False, w)
         else (True, w\<lparr>aw_players := (aw_players w)(peer \<mapsto> take_input i p)\<rparr>))"

definition abs_step :: "f32 \<Rightarrow> 'p abstract_world \<Rightarrow> 'p abstract_world" where
  "abs_step dt w = w\<lparr>aw_tick := aw_tick w + 1, aw_players := map_option (step_player dt) \<circ> aw_players w\<rparr>"

lemma abs_world_simps [simp]:
  "aw_players (abs_world w) = world_player w" "aw_next_id (abs_world w) = wd_next_player_id w"
  "aw_tick (abs_world w) = wd_tick w"
  by (simp_all add: abs_world_def)

lemma abs_worldI:
  "world_player w = aw_players a \<Longrightarrow> wd_next_player_id w = aw_next_id a \<Longrightarrow> wd_tick w = aw_tick a \<Longrightarrow> abs_world w = a"
  by (simp add: abs_world_def)

text \<open>A concrete \<open>trig\<close>, for the witnesses.\<close>

definition unit_trig :: trig where
  "unit_trig = \<lparr>trig_cos = \<lambda>a. f32_one, trig_sin = \<lambda>a. 0\<rparr>"

lemma unit_trig_ok: "trig_ok unit_trig"
  by (simp add: trig_ok_def unit_trig_def) (simp add: in_unit_iff val_one)

lemma distinct_ids: "bt_ok (wd_players w) \<Longrightarrow> ids_ok w \<Longrightarrow> distinct (map pl_id (bt_values (wd_players w)))"
proof -
  assume ok: "bt_ok (wd_players w)" and ids: "ids_ok w"
  let ?m = "wd_players w"
  have dist: "distinct (map fst ?m)" using bt.keys_distinct [OF ok] by (simp add: bt_keys_def)
  have get: "world_player w (fst (?m ! i)) = Some (snd (?m ! i))" if "i < length ?m" for i
    using that dist by (simp add: world_player_def bt_get_def)
  have "i = j" if ij: "i < length ?m" "j < length ?m" "pl_id (snd (?m ! i)) = pl_id (snd (?m ! j))" for i j
  proof -
    have "fst (?m ! i) = fst (?m ! j)"
      using ids get [OF ij(1)] get [OF ij(2)] ij(3) unfolding ids_ok_def by blast
    with dist ij show ?thesis by (simp add: distinct_conv_nth nth_eq_iff_index_eq) (metis nth_map length_map)
  qed
  then show ?thesis by (auto simp: bt_values_def distinct_conv_nth)
qed

end
