(* ===== verification/Protocol_Laws.thy ===== *)
theory Protocol_Laws
  imports Protocol
begin

text \<open>
  The lemmas on the generated codecs. A field is described by its step, its bytes, and what it
  does to the value when present and when absent; \<open>field_law\<close> is the contract of one field,
  proved once inside the locale \<open>wire_type\<close>, and the lemmas on \<open>run_fields\<close> compose it into the
  behaviour of a whole message on complete, extended and truncated payloads.
\<close>

section \<open>The contract of one field\<close>

type_synonym 'a field_spec = "'a step \<times> u8 list \<times> ('a \<Rightarrow> 'a) \<times> ('a \<Rightarrow> 'a)"

definition field_law :: "limits \<Rightarrow> 'a field_spec \<Rightarrow> bool" where
  "field_law lims spec = (case spec of (f, bs, u, z) \<Rightarrow> bs \<noteq> [] \<and>
     (\<forall>r v tail. r_limits r = lims \<and> rest r = bs @ tail \<longrightarrow> f (r, v) = (None, advance (length bs) r, u v)) \<and>
     (\<forall>r v. rest r = [] \<longrightarrow> f (r, v) = (None, r, z v)) \<and>
     (\<forall>r v. r_limits r = lims \<and> rest r \<noteq> [] \<and> strict_prefix (rest r) bs \<longrightarrow>
        (\<exists>needed left. f (r, v) = (Some (UnexpectedEof needed left), r, v))))"

lemma field_law_present:
  "field_law lims (f, bs, u, z) \<Longrightarrow> r_limits r = lims \<Longrightarrow> rest r = bs @ tail \<Longrightarrow>
     f (r, v) = (None, advance (length bs) r, u v)"
  by (simp add: field_law_def)

lemma field_law_absent: "field_law lims (f, bs, u, z) \<Longrightarrow> rest r = [] \<Longrightarrow> f (r, v) = (None, r, z v)"
  by (simp add: field_law_def)

lemma field_law_cut:
  "field_law lims (f, bs, u, z) \<Longrightarrow> r_limits r = lims \<Longrightarrow> rest r \<noteq> [] \<Longrightarrow> strict_prefix (rest r) bs \<Longrightarrow>
     \<exists>needed left. f (r, v) = (Some (UnexpectedEof needed left), r, v)"
  by (simp add: field_law_def)

lemma field_law_not_Nil: "field_law lims (f, bs, u, z) \<Longrightarrow> bs \<noteq> []"
  by (simp add: field_law_def)

context wire_type
begin

lemma field_lawI: "fits lims x \<Longrightarrow> field_law lims (field zero rd put, enc x, put x, put zero)"
proof -
  assume fits: "fits lims x"
  have "\<exists>needed left. field zero rd put (r, v) = (Some (UnexpectedEof needed left), r, v)"
    if "r_limits r = lims" "rest r \<noteq> []" "strict_prefix (rest r) (enc x)" for r v
    using cut_short [of r x] fits that by (auto simp: field_def field_absent_rest)
  moreover have "field zero rd put (r, v) = (None, advance (length (enc x)) r, put x v)"
    if "r_limits r = lims" "rest r = enc x @ tail" for r v tail
    using read_back [of r x tail] enc_not_Nil [of x] fits that by (simp add: field_def field_absent_rest)
  ultimately show ?thesis
    using enc_not_Nil [of x] by (auto simp: field_law_def field_def field_absent_rest)
qed

lemma field_ok_preserved: "reader_ok r \<Longrightarrow> field zero rd put (r, v) = (res, r', v') \<Longrightarrow> reader_ok r'"
  using ok_preserved [of r] by (auto simp: field_def split: if_splits prod.splits sum.splits)

end

section \<open>A list of fields\<close>

definition spec_bytes :: "'a field_spec list \<Rightarrow> u8 list" where
  "spec_bytes specs = concat (map (\<lambda>(f, bs, u, z). bs) specs)"

definition spec_write :: "'a field_spec list \<Rightarrow> 'a \<Rightarrow> 'a" where
  "spec_write specs v = fold (\<lambda>(f, bs, u, z). u) specs v"

lemma spec_simps [simp]:
  "spec_bytes [] = []" "spec_bytes ((f, bs, u, z) # specs) = bs @ spec_bytes specs"
  "spec_write [] v = v" "spec_write ((f, bs, u, z) # specs) v = spec_write specs (u v)"
  by (simp_all add: spec_bytes_def spec_write_def)

text \<open>
  The reference for a payload of \<open>k\<close> bytes: a field is present when its bytes are there, absent when
  the payload stopped at its boundary, and cut (no value) when it stopped inside.
\<close>

fun cut_fields :: "(nat \<times> ('a \<Rightarrow> 'a) \<times> ('a \<Rightarrow> 'a)) list \<Rightarrow> nat \<Rightarrow> 'a \<Rightarrow> 'a option" where
  "cut_fields [] k v = Some v"
| "cut_fields ((n, present, absent) # fs) k v =
     (if k = 0 then cut_fields fs 0 (absent v)
      else if k < n then None else cut_fields fs (k - n) (present v))"

definition spec_layout :: "'a field_spec list \<Rightarrow> (nat \<times> ('a \<Rightarrow> 'a) \<times> ('a \<Rightarrow> 'a)) list" where
  "spec_layout specs = map (\<lambda>(f, bs, u, z). (length bs, u, z)) specs"

lemma run_fields_append:
  "run_fields (fs @ gs) s = (case run_fields fs s of (Some e, s') \<Rightarrow> (Some e, s') | (None, s') \<Rightarrow> run_fields gs s')"
  by (induction fs arbitrary: s) (simp_all split: prod.split option.split)

lemma run_fields_back:
  assumes "\<And>t. t \<in> set specs \<Longrightarrow> field_law (r_limits r) t" "rest r = spec_bytes specs @ tail"
  shows "run_fields (map fst specs) (r, v) =
    (None, advance (length (spec_bytes specs)) r, spec_write specs v)"
  using assms
proof (induction specs arbitrary: r v)
  case (Cons t specs)
  obtain f bs u z where t: "t = (f, bs, u, z)" by (cases t)
  have f: "f (r, v) = (None, advance (length bs) r, u v)"
    using Cons.prems by (intro field_law_present [of "r_limits r" f bs u z r "spec_bytes specs @ tail"]) (simp_all add: t)
  have "run_fields (map fst specs) (advance (length bs) r, u v) =
      (None, advance (length (spec_bytes specs)) (advance (length bs) r), spec_write specs (u v))"
    using Cons.prems by (intro Cons.IH) (simp_all add: t)
  with f show ?case by (simp add: t)
qed simp

lemma run_fields_empty:
  assumes "\<And>t. t \<in> set specs \<Longrightarrow> field_law lims t" "rest r = []"
  shows "\<exists>v'. run_fields (map fst specs) (r, v) = (None, r, v') \<and>
    cut_fields (spec_layout specs) 0 v = Some v'"
  using assms(1)
proof (induction specs arbitrary: v)
  case (Cons t specs)
  obtain f bs u z where t: "t = (f, bs, u, z)" by (cases t)
  have "f (r, v) = (None, r, z v)"
    using Cons.prems assms(2) by (intro field_law_absent [of lims f bs u z]) (simp_all add: t)
  with Cons show ?case by (simp add: t spec_layout_def)
qed (simp add: spec_layout_def)

theorem run_fields_cut:
  assumes laws: "\<And>t. t \<in> set specs \<Longrightarrow> field_law (r_limits r) t" and rest: "rest r = take k (spec_bytes specs)"
  shows "case run_fields (map fst specs) (r, v) of
      (None, r', v') \<Rightarrow> cut_fields (spec_layout specs) k v = Some v'
    | (Some e, r', v') \<Rightarrow> cut_fields (spec_layout specs) k v = None \<and> (\<exists>needed left. e = UnexpectedEof needed left)"
  using laws rest
proof (induction specs arbitrary: r v k)
  case (Cons t specs)
  obtain f bs u z where t: "t = (f, bs, u, z)" by (cases t)
  have law: "field_law (r_limits r) (f, bs, u, z)" using Cons.prems(1) [of t] by (simp add: t)
  consider "k = 0" | "0 < k" "k < length bs" | "length bs \<le> k" "0 < k" by linarith
  then show ?case
  proof cases
    case 1
    then show ?thesis
      using run_fields_empty [of "t # specs" "r_limits r" r v] Cons.prems by auto
  next
    case 2
    then have "rest r = take k bs" using Cons.prems(2) by (simp add: t)
    then have "strict_prefix (rest r) bs \<and> rest r \<noteq> []"
      using 2 by (auto simp: strict_prefix_def take_is_prefix)
    then obtain needed left where "f (r, v) = (Some (UnexpectedEof needed left), r, v)"
      using field_law_cut [OF law refl] by blast
    with 2 show ?thesis by (simp add: t spec_layout_def)
  next
    case 3
    then have rest: "rest r = bs @ take (k - length bs) (spec_bytes specs)"
      using Cons.prems(2) by (simp add: t)
    have f: "f (r, v) = (None, advance (length bs) r, u v)"
      by (rule field_law_present [OF law refl rest])
    have "case run_fields (map fst specs) (advance (length bs) r, u v) of
        (None, r', v') \<Rightarrow> cut_fields (spec_layout specs) (k - length bs) (u v) = Some v'
      | (Some e, r', v') \<Rightarrow> cut_fields (spec_layout specs) (k - length bs) (u v) = None \<and>
          (\<exists>needed left. e = UnexpectedEof needed left)"
      using Cons.prems(1) rest by (intro Cons.IH) simp_all
    moreover have "cut_fields (spec_layout (t # specs)) k v = cut_fields (spec_layout specs) (k - length bs) (u v)"
      using 3 by (simp add: t spec_layout_def)
    moreover have "run_fields (map fst (t # specs)) (r, v) = run_fields (map fst specs) (advance (length bs) r, u v)"
      using f by (simp add: t)
    ultimately show ?thesis by (simp only:)
  qed
qed (simp add: spec_layout_def)

section \<open>The messages as lists of fields\<close>

lemmas wire_fields =
  wire_u8.field_lawI wire_u16.field_lawI wire_u32.field_lawI wire_f32.field_lawI
  wire_bool.field_lawI wire_string.field_lawI wire_count.field_lawI

definition client_hello_specs :: "ClientHello \<Rightarrow> ClientHello field_spec list" where
  "client_hello_specs m =
    [(field 0 read_u8 (\<lambda>x v. v\<lparr>ch_client_kind := x\<rparr>), [ch_client_kind m],
        \<lambda>v. v\<lparr>ch_client_kind := ch_client_kind m\<rparr>, \<lambda>v. v\<lparr>ch_client_kind := 0\<rparr>),
     (field '''' read_string (\<lambda>x v. v\<lparr>ch_display_name := x\<rparr>), str_bytes (ch_display_name m),
        \<lambda>v. v\<lparr>ch_display_name := ch_display_name m\<rparr>, \<lambda>v. v\<lparr>ch_display_name := ''''\<rparr>)]"

definition welcome_specs :: "Welcome \<Rightarrow> Welcome field_spec list" where
  "welcome_specs m =
    [(field 0 read_u32 (\<lambda>x v. v\<lparr>wl_player_id := x\<rparr>), to_le (wl_player_id m),
        \<lambda>v. v\<lparr>wl_player_id := wl_player_id m\<rparr>, \<lambda>v. v\<lparr>wl_player_id := 0\<rparr>),
     (field 0 read_f32 (\<lambda>x v. v\<lparr>wl_plane_half_size := x\<rparr>), to_le (wl_plane_half_size m),
        \<lambda>v. v\<lparr>wl_plane_half_size := wl_plane_half_size m\<rparr>, \<lambda>v. v\<lparr>wl_plane_half_size := 0\<rparr>),
     (field 0 read_u16 (\<lambda>x v. v\<lparr>wl_tick_rate := x\<rparr>), to_le (wl_tick_rate m),
        \<lambda>v. v\<lparr>wl_tick_rate := wl_tick_rate m\<rparr>, \<lambda>v. v\<lparr>wl_tick_rate := 0\<rparr>)]"

definition player_input_specs :: "PlayerInput \<Rightarrow> PlayerInput field_spec list" where
  "player_input_specs m =
    [(field 0 read_u32 (\<lambda>x v. v\<lparr>pi_sequence := x\<rparr>), to_le (pi_sequence m),
        \<lambda>v. v\<lparr>pi_sequence := pi_sequence m\<rparr>, \<lambda>v. v\<lparr>pi_sequence := 0\<rparr>),
     (field 0 read_f32 (\<lambda>x v. v\<lparr>pi_move_x := x\<rparr>), to_le (pi_move_x m),
        \<lambda>v. v\<lparr>pi_move_x := pi_move_x m\<rparr>, \<lambda>v. v\<lparr>pi_move_x := 0\<rparr>),
     (field 0 read_f32 (\<lambda>x v. v\<lparr>pi_move_z := x\<rparr>), to_le (pi_move_z m),
        \<lambda>v. v\<lparr>pi_move_z := pi_move_z m\<rparr>, \<lambda>v. v\<lparr>pi_move_z := 0\<rparr>),
     (field False read_bool (\<lambda>x v. v\<lparr>pi_jump := x\<rparr>), bool_bytes (pi_jump m),
        \<lambda>v. v\<lparr>pi_jump := pi_jump m\<rparr>, \<lambda>v. v\<lparr>pi_jump := False\<rparr>),
     (field 0 read_f32 (\<lambda>x v. v\<lparr>pi_look_yaw := x\<rparr>), to_le (pi_look_yaw m),
        \<lambda>v. v\<lparr>pi_look_yaw := pi_look_yaw m\<rparr>, \<lambda>v. v\<lparr>pi_look_yaw := 0\<rparr>),
     (field 0 read_f32 (\<lambda>x v. v\<lparr>pi_look_pitch := x\<rparr>), to_le (pi_look_pitch m),
        \<lambda>v. v\<lparr>pi_look_pitch := pi_look_pitch m\<rparr>, \<lambda>v. v\<lparr>pi_look_pitch := 0\<rparr>)]"

definition player_state_specs :: "PlayerState \<Rightarrow> PlayerState field_spec list" where
  "player_state_specs m =
    [(field 0 read_u32 (\<lambda>x v. v\<lparr>ps_player_id := x\<rparr>), to_le (ps_player_id m),
        \<lambda>v. v\<lparr>ps_player_id := ps_player_id m\<rparr>, \<lambda>v. v\<lparr>ps_player_id := 0\<rparr>),
     (field 0 read_u8 (\<lambda>x v. v\<lparr>ps_client_kind := x\<rparr>), [ps_client_kind m],
        \<lambda>v. v\<lparr>ps_client_kind := ps_client_kind m\<rparr>, \<lambda>v. v\<lparr>ps_client_kind := 0\<rparr>),
     (field 0 read_u32 (\<lambda>x v. v\<lparr>ps_color := x\<rparr>), to_le (ps_color m),
        \<lambda>v. v\<lparr>ps_color := ps_color m\<rparr>, \<lambda>v. v\<lparr>ps_color := 0\<rparr>),
     (field 0 read_f32 (\<lambda>x v. v\<lparr>ps_position_x := x\<rparr>), to_le (ps_position_x m),
        \<lambda>v. v\<lparr>ps_position_x := ps_position_x m\<rparr>, \<lambda>v. v\<lparr>ps_position_x := 0\<rparr>),
     (field 0 read_f32 (\<lambda>x v. v\<lparr>ps_position_z := x\<rparr>), to_le (ps_position_z m),
        \<lambda>v. v\<lparr>ps_position_z := ps_position_z m\<rparr>, \<lambda>v. v\<lparr>ps_position_z := 0\<rparr>),
     (field 0 read_f32 (\<lambda>x v. v\<lparr>ps_position_y := x\<rparr>), to_le (ps_position_y m),
        \<lambda>v. v\<lparr>ps_position_y := ps_position_y m\<rparr>, \<lambda>v. v\<lparr>ps_position_y := 0\<rparr>),
     (field 0 read_f32 (\<lambda>x v. v\<lparr>ps_look_yaw := x\<rparr>), to_le (ps_look_yaw m),
        \<lambda>v. v\<lparr>ps_look_yaw := ps_look_yaw m\<rparr>, \<lambda>v. v\<lparr>ps_look_yaw := 0\<rparr>),
     (field 0 read_f32 (\<lambda>x v. v\<lparr>ps_look_pitch := x\<rparr>), to_le (ps_look_pitch m),
        \<lambda>v. v\<lparr>ps_look_pitch := ps_look_pitch m\<rparr>, \<lambda>v. v\<lparr>ps_look_pitch := 0\<rparr>)]"

definition name_fits :: "limits \<Rightarrow> string \<Rightarrow> bool" where
  "name_fits lims s \<longleftrightarrow> length s \<le> max_string_len lims \<and> length s \<le> u32_MAX \<and> utf8_ok (bytes_of_string s)"

lemma client_hello_laws:
  "name_fits lims (ch_display_name m) \<Longrightarrow> t \<in> set (client_hello_specs m) \<Longrightarrow> field_law lims t"
  by (auto simp: client_hello_specs_def name_fits_def intro: wire_fields)

lemma welcome_laws: "t \<in> set (welcome_specs m) \<Longrightarrow> field_law lims t"
  by (auto simp: welcome_specs_def intro: wire_fields)

lemma player_input_laws: "t \<in> set (player_input_specs m) \<Longrightarrow> field_law lims t"
  by (auto simp: player_input_specs_def intro: wire_fields)

lemma player_state_laws: "t \<in> set (player_state_specs m) \<Longrightarrow> field_law lims t"
  by (auto simp: player_state_specs_def intro: wire_fields)

lemma decode_specs:
  "ClientHelloGameCodec_decode = run_fields (map fst (client_hello_specs ch))"
  "WelcomeGameCodec_decode = run_fields (map fst (welcome_specs wl))"
  "PlayerInputGameCodec_decode = run_fields (map fst (player_input_specs i))"
  "PlayerStateGameCodec_decode = run_fields (map fst (player_state_specs ps))"
  by (simp_all add: ClientHelloGameCodec_decode_def client_hello_specs_def WelcomeGameCodec_decode_def
      welcome_specs_def PlayerInputGameCodec_decode_def player_input_specs_def
      PlayerStateGameCodec_decode_def player_state_specs_def)

lemma spec_write_all:
  "spec_write (client_hello_specs ch) v = ch" "spec_write (welcome_specs wl) v' = wl"
  "spec_write (player_input_specs i) w = i" "spec_write (player_state_specs ps) w' = ps"
  by (simp_all add: client_hello_specs_def welcome_specs_def player_input_specs_def player_state_specs_def)

lemma encode_specs:
  "length (ch_display_name ch) \<le> u32_MAX \<Longrightarrow>
     ClientHelloGameCodec_encode ch w = Some (push_bytes (spec_bytes (client_hello_specs ch)) w)"
  "WelcomeGameCodec_encode wl w = push_bytes (spec_bytes (welcome_specs wl)) w"
  "PlayerInputGameCodec_encode i w = push_bytes (spec_bytes (player_input_specs i)) w"
  "PlayerStateGameCodec_encode ps w = push_bytes (spec_bytes (player_state_specs ps)) w"
  by (simp_all add: ClientHelloGameCodec_encode_def write_string_some WelcomeGameCodec_encode_def
      PlayerInputGameCodec_encode_def PlayerStateGameCodec_encode_def write_u8_def write_u32_def
      write_f32_def write_u16_def write_bool_def client_hello_specs_def welcome_specs_def
      player_input_specs_def player_state_specs_def bool_bytes_def Let_def)

lemma into_bytes_push [simp]: "into_bytes (push_bytes bs writer_new) = bs"
  by (simp add: into_bytes_def push_bytes_def writer_new_def)

lemma encode_bytes:
  "length (ch_display_name ch) \<le> u32_MAX \<Longrightarrow> encode_client_hello ch = Some (spec_bytes (client_hello_specs ch))"
  "encode_welcome wl = spec_bytes (welcome_specs wl)"
  "encode_player_input i = spec_bytes (player_input_specs i)"
  by (simp_all add: encode_client_hello_def encode_welcome_def encode_player_input_def encode_specs)

lemma length_player_state [simp]: "length (spec_bytes (player_state_specs p)) = 29"
  by (simp add: player_state_specs_def length_to_le)

lemma length_player_input [simp]: "length (spec_bytes (player_input_specs i)) = 21"
  by (simp add: player_input_specs_def length_to_le bool_bytes_def)

section \<open>The players of a snapshot\<close>

definition player_bytes :: "PlayerState list \<Rightarrow> u8 list" where
  "player_bytes ps = concat (map (\<lambda>p. spec_bytes (player_state_specs p)) ps)"

lemma length_player_bytes [simp]: "length (player_bytes ps) = 29 * length ps"
  by (induction ps) (simp_all add: player_bytes_def)

lemma push_nothing [simp]: "push_bytes [] w = w"
  by (simp add: push_bytes_def)

lemma fold_encode: "fold PlayerStateGameCodec_encode ps w = push_bytes (player_bytes ps) w"
  by (induction ps arbitrary: w) (simp_all add: encode_specs player_bytes_def)

lemma encode_snapshot_bytes:
  "length (ws_players s) \<le> u32_MAX \<Longrightarrow> encode_world_snapshot s =
     Some (to_le (ws_tick s) @ len_bytes (length (ws_players s)) @ player_bytes (ws_players s))"
  by (simp add: encode_world_snapshot_def WorldSnapshotGameCodec_encode_def write_array_count_def
      write_len_some fold_encode write_u32_def)

lemma player_state_back:
  "rest r = spec_bytes (player_state_specs p) @ tail \<Longrightarrow>
     PlayerStateGameCodec_decode (r, v) = (None, advance 29 r, p)"
  using run_fields_back [of "player_state_specs p" r tail v] player_state_laws
  by (simp add: decode_specs(4) [of p] spec_write_all)

lemma player_state_absent:
  "rest r = [] \<Longrightarrow> PlayerStateGameCodec_decode (r, default_player_state) = (None, r, default_player_state)"
  by (simp add: PlayerStateGameCodec_decode_def field_def field_absent_rest default_player_state_def)

lemma read_elements_back:
  "rest r = player_bytes ps @ tail \<Longrightarrow> read_elements (length ps) r = (Inr ps, advance (29 * length ps) r)"
proof (induction ps arbitrary: r)
  case (Cons p ps)
  have "PlayerStateGameCodec_decode (r, default_player_state) = (None, advance 29 r, p)"
    using Cons.prems by (intro player_state_back [where tail = "player_bytes ps @ tail"]) (simp add: player_bytes_def)
  moreover have "read_elements (length ps) (advance 29 r) = (Inr ps, advance (29 * length ps) (advance 29 r))"
    using Cons.prems by (intro Cons.IH) (simp add: player_bytes_def)
  ultimately show ?case by simp
qed (simp add: player_bytes_def)

lemma read_elements_absent:
  "rest r = [] \<Longrightarrow> read_elements n r = (Inr (replicate n default_player_state), r)"
  by (induction n) (simp_all add: player_state_absent)

lemma read_elements_short:
  "rest r = player_bytes ps \<Longrightarrow> read_elements (length ps + n) r =
     (Inr (ps @ replicate n default_player_state), advance (29 * length ps) r)"
proof (induction ps arbitrary: r)
  case Nil
  then show ?case by (simp add: player_bytes_def read_elements_absent)
next
  case (Cons p ps)
  have "PlayerStateGameCodec_decode (r, default_player_state) = (None, advance 29 r, p)"
    using Cons.prems by (intro player_state_back [where tail = "player_bytes ps"]) (simp add: player_bytes_def)
  moreover have "read_elements (length ps + n) (advance 29 r) =
      (Inr (ps @ replicate n default_player_state), advance (29 * length ps) (advance 29 r))"
    using Cons.prems by (intro Cons.IH) (simp add: player_bytes_def)
  ultimately show ?case by simp
qed

text \<open>A snapshot whose bytes stop after \<open>k\<close> whole players: the missing ones are made up from zeros.\<close>

lemma snapshot_short:
  assumes "length ps + n \<le> u32_MAX"
  shows "decode_world_snapshot (to_le tick @ len_bytes (length ps + n) @ player_bytes ps @
       (if n = 0 then tail else [])) =
     Inr \<lparr>ws_tick = tick, ws_players = ps @ replicate n default_player_state\<rparr>"
    (is "decode_world_snapshot ?payload = _")
proof -
  let ?r = "reader_new ?payload"
  have tick: "read_u32 ?r = (Inr tick, advance 4 ?r)"
    using wire_u32.read_back [where r = ?r and x = tick] by (simp add: length_to_le)
  have count: "read_array_count (advance 4 ?r) = (Inr (length ps + n), advance 8 ?r)"
    using wire_count.read_back [where r = "advance 4 ?r" and x = "length ps + n"] assms
    by (simp add: length_to_le UNLIMITED_def)
  have players: "read_elements (length ps + n) (advance 8 ?r) =
      (Inr (ps @ replicate n default_player_state), advance (29 * length ps) (advance 8 ?r))"
    using read_elements_back [of "advance 8 ?r" ps tail] read_elements_short [of "advance 8 ?r" ps n]
    by (cases "n = 0") (simp_all add: length_to_le)
  show ?thesis
    using tick count players
    by (simp add: decode_world_snapshot_def run_decode_def WorldSnapshotGameCodec_decode_def field_def
        players_field_def field_absent_rest default_world_snapshot_def wire_u32.enc_not_Nil
        wire_count.enc_not_Nil length_to_le)
qed

section \<open>Decoding what was encoded\<close>

lemma welcome_back: "decode_welcome (encode_welcome m @ tail) = Inr m"
  using run_fields_back [of "welcome_specs m" "reader_new (encode_welcome m @ tail)"] welcome_laws
  by (simp add: decode_welcome_def run_decode_def decode_specs(2) [of m] encode_bytes spec_write_all)

lemma player_input_back: "decode_player_input (encode_player_input m @ tail) = Inr m"
  using run_fields_back [of "player_input_specs m" "reader_new (encode_player_input m @ tail)"] player_input_laws
  by (simp add: decode_player_input_def run_decode_def decode_specs(3) [of m] encode_bytes spec_write_all)

lemma client_hello_back:
  assumes "length (ch_display_name m) \<le> u32_MAX" "utf8_ok (bytes_of_string (ch_display_name m))"
  shows "\<exists>bytes. encode_client_hello m = Some bytes \<and> decode_client_hello (bytes @ tail) = Inr m"
proof -
  have "name_fits UNLIMITED (ch_display_name m)" using assms by (simp add: name_fits_def UNLIMITED_def)
  then have "decode_client_hello (spec_bytes (client_hello_specs m) @ tail) = Inr m"
    using run_fields_back [of "client_hello_specs m" "reader_new (spec_bytes (client_hello_specs m) @ tail)"]
      client_hello_laws
    by (simp add: decode_client_hello_def run_decode_def decode_specs(1) [of m] spec_write_all)
  with assms(1) show ?thesis by (simp add: encode_bytes)
qed

lemma snapshot_back:
  assumes "length (ws_players m) \<le> u32_MAX"
  shows "\<exists>bytes. encode_world_snapshot m = Some bytes \<and> length bytes = 8 + 29 * length (ws_players m) \<and>
    decode_world_snapshot (bytes @ tail) = Inr m"
  using snapshot_short [of "ws_players m" 0 "ws_tick m" tail] assms by (simp add: encode_snapshot_bytes length_to_le)

end
