(* ===== verification/Protocol_Props.thy ===== *)
theory Protocol_Props
  imports Protocol_Laws
begin

text \<open>The properties of the wire runtime and of the generated message codecs.\<close>

section \<open>Reader\<close>

definition safe_read :: "'a reading \<Rightarrow> reader \<Rightarrow> bool" where
  "safe_read rd r = (case rd r of (Inl e, r') \<Rightarrow> r' = r
     | (Inr x, r') \<Rightarrow> r' = r\<lparr>r_pos := r_pos r'\<rparr> \<and> r_pos r < r_pos r' \<and> r_pos r' \<le> length (r_buf r))"

context wire_type
begin

lemma safe: "safe_read rd r"
proof (cases "rd r")
  case (Pair res r')
  show ?thesis
  proof (cases res)
    case (Inl e)
    with Pair have "r' = r" by (auto intro: failed_unchanged)
    with Inl Pair show ?thesis by (simp add: safe_read_def)
  next
    case (Inr x)
    with Pair obtain n where "0 < n" "n \<le> length (rest r)" "r' = advance n r"
      using stays_inside by blast
    with Inr Pair show ?thesis by (simp add: safe_read_def rest_def advance_def)
  qed
qed

end

text \<open>
  C24: Every read of the \<^verbatim>\<open>Reader\<close>, on any buffer, position and limits: when it fails the reader
  is left exactly as it was (the cursor is put back after a bad bool, an over-long length, a cut
  blob or bad UTF-8), and when it succeeds the cursor has moved forward and is still inside the
  buffer, so no read goes past the end.
\<close>

theorem reads_are_safe:
  "safe_read read_bool r \<and> safe_read read_i8 r \<and> safe_read read_u8 r \<and> safe_read read_i16 r
   \<and> safe_read read_u16 r \<and> safe_read read_i32 r \<and> safe_read read_u32 r \<and> safe_read read_i64 r
   \<and> safe_read read_u64 r \<and> safe_read read_f32 r \<and> safe_read read_f64 r \<and> safe_read read_string r
   \<and> safe_read read_bytes r \<and> safe_read read_array_count r"
  by (intro conjI wire_bool.safe wire_i8.safe wire_u8.safe wire_i16.safe wire_u16.safe wire_i32.safe
      wire_u32.safe wire_i64.safe wire_u64.safe wire_f32.safe wire_f64.safe wire_string.safe
      wire_blob.safe wire_count.safe)

lemma read_string_parts:
  assumes "read_string r = (Inr s, r')"
  shows "length s \<le> max_string_len (r_limits r)" "length s \<le> u32_MAX" "utf8_ok (bytes_of_string s)"
    "\<exists>tail. rest r = len_bytes (length s) @ bytes_of_string s @ tail"
proof -
  let ?v = "from_le (take 4 (rest r)) :: u32"
  from assms have four: "4 \<le> length (rest r)" and lims: "unat ?v \<le> max_string_len (r_limits r)"
    and fits: "4 + unat ?v \<le> length (rest r)" and ok: "utf8_ok (take (unat ?v) (drop 4 (rest r)))"
    and s: "s = string_of_bytes (take (unat ?v) (drop 4 (rest r)))"
    by (auto simp: read_string_eq read_len_eq Let_def split: if_splits)
  have len: "length s = unat ?v" using s fits by simp
  then have "len_bytes (length s) = take 4 (rest r)"
    using four to_le_from_le [of "take 4 (rest r)", where 'a = 32] by (simp add: len_bytes_def min_absorb2)
  moreover have "rest r = take 4 (rest r) @ bytes_of_string s @ drop (unat ?v) (drop 4 (rest r))"
    using s by (simp only: bytes_of_string_of_bytes append_take_drop_id)
  ultimately show "\<exists>tail. rest r = len_bytes (length s) @ bytes_of_string s @ tail" by metis
  show "length s \<le> max_string_len (r_limits r)" "utf8_ok (bytes_of_string s)" using len lims ok s by auto
  show "length s \<le> u32_MAX" using len unsigned_less [of ?v, where 'a = nat] by (simp add: u32_MAX_def)
qed

text \<open>
  C26: \<^verbatim>\<open>read_string\<close> accepts exactly the strings the wire format means: it returns \<open>s\<close> if and
  only if the unread bytes start with a 32-bit little-endian length and that many bytes, the length
  is within the limit, and the bytes are the concatenated UTF-8 encodings of Unicode scalar values
  (no overlong form, no surrogate, nothing above U+10FFFF).
\<close>

theorem read_string_iff:
  "(\<exists>r'. read_string r = (Inr s, r')) \<longleftrightarrow>
     length s \<le> max_string_len (r_limits r) \<and> length s \<le> u32_MAX \<and>
     (\<exists>cps. list_all scalar_value cps \<and> bytes_of_string s = concat (map utf8_encode cps)) \<and>
     (\<exists>tail. rest r = len_bytes (length s) @ bytes_of_string s @ tail)"
  (is "?reads \<longleftrightarrow> ?fits")
proof
  assume ?fits
  then show ?reads
    using wire_string.read_back [of s r]
    by (auto simp: list_all_iff utf8_ok_iff [symmetric] str_bytes_def blob_bytes_def)
next
  assume ?reads
  then obtain r' where "read_string r = (Inr s, r')" by blast
  then show ?fits using read_string_parts [of r s r'] by (simp add: list_all_iff utf8_ok_iff [symmetric])
qed

section \<open>Messages\<close>

text \<open>
  C11: Every message decodes back to what was encoded, on its own or followed by any further bytes
  (a newer peer's extra fields). Encoding panics only on a name or a player list longer than
  \<^verbatim>\<open>u32::MAX\<close>; a name round-trips when it is valid UTF-8, as every Rust \<^verbatim>\<open>String\<close> is.
\<close>

theorem messages_round_trip:
  assumes "length (ch_display_name hello) \<le> u32_MAX" "utf8_ok (bytes_of_string (ch_display_name hello))"
    and "length (ws_players snapshot) \<le> u32_MAX"
  shows "decode_welcome (encode_welcome welcome1 @ tail) = Inr welcome1
    \<and> decode_player_input (encode_player_input input @ tail) = Inr input
    \<and> (\<exists>bytes. encode_client_hello hello = Some bytes \<and> decode_client_hello (bytes @ tail) = Inr hello)
    \<and> (\<exists>bytes. encode_world_snapshot snapshot = Some bytes \<and>
          length bytes = 8 + 29 * length (ws_players snapshot) \<and>
          decode_world_snapshot (bytes @ tail) = Inr snapshot)"
  using assms by (intro conjI welcome_back player_input_back client_hello_back snapshot_back)

theorem messages_round_trip_witness:
  "decode_player_input (encode_player_input (default_player_input\<lparr>pi_jump := True\<rparr>) @ [7]) =
     Inr (default_player_input\<lparr>pi_jump := True\<rparr>)
   \<and> (\<exists>bytes. encode_client_hello \<lparr>ch_client_kind = 4, ch_display_name = ''bot''\<rparr> = Some bytes \<and>
        decode_client_hello (bytes @ [7]) = Inr \<lparr>ch_client_kind = 4, ch_display_name = ''bot''\<rparr>)"
  using messages_round_trip [of "\<lparr>ch_client_kind = 4, ch_display_name = ''bot''\<rparr>"
      "\<lparr>ws_tick = 5, ws_players = [default_player_state]\<rparr>" _ "[7]" "default_player_input\<lparr>pi_jump := True\<rparr>"]
  by (simp add: u32_MAX_def bytes_of_string_def byte_of_char_def)

lemma read_elements_length: "read_elements n r = (Inr ps, r') \<Longrightarrow> length ps = n"
  by (induction n arbitrary: r ps r') (auto split: prod.splits option.splits sum.splits)

lemma read_array_count_bound: "read_array_count r = (Inr n, r') \<Longrightarrow> n \<le> u32_MAX"
proof -
  assume "read_array_count r = (Inr n, r')"
  then have "n = unat (from_le (take 4 (rest r)) :: u32)"
    by (auto simp: read_array_count_def read_len_eq Let_def split: if_splits)
  then show ?thesis
    using unsigned_less [of "from_le (take 4 (rest r)) :: u32", where 'a = nat] by (simp add: u32_MAX_def)
qed

text \<open>
  C35: Decoding establishes the types: whatever bytes arrive, a ClientHello that is accepted carries a
  name that is valid UTF-8, as a Rust \<^verbatim>\<open>String\<close> must, and a snapshot at most \<^verbatim>\<open>u32::MAX\<close> players;
  so an accepted message can always be encoded again without a panic, and decodes to itself.
\<close>

theorem accepted_messages_are_well_typed:
  "(decode_client_hello payload = Inr hello \<longrightarrow> utf8_ok (bytes_of_string (ch_display_name hello)) \<and>
     (\<exists>bytes. encode_client_hello hello = Some bytes \<and> decode_client_hello bytes = Inr hello)) \<and>
   (decode_world_snapshot payload = Inr snapshot \<longrightarrow> length (ws_players snapshot) \<le> u32_MAX \<and>
     (\<exists>bytes. encode_world_snapshot snapshot = Some bytes \<and> decode_world_snapshot bytes = Inr snapshot))"
proof -
  have "length (ch_display_name hello) \<le> u32_MAX \<and> utf8_ok (bytes_of_string (ch_display_name hello))"
    if decoded: "decode_client_hello payload = Inr hello"
    using decoded read_string_parts
    by (auto simp: decode_client_hello_def run_decode_def ClientHelloGameCodec_decode_def field_def bytes_of_string_def
        split: if_splits prod.splits sum.splits)
  moreover have "length (ws_players snapshot) \<le> u32_MAX" if decoded: "decode_world_snapshot payload = Inr snapshot"
    using decoded
    by (auto simp: decode_world_snapshot_def run_decode_def WorldSnapshotGameCodec_decode_def field_def players_field_def
        dest!: read_elements_length read_array_count_bound split: if_splits prod.splits sum.splits)
  ultimately show ?thesis
    using client_hello_back [of hello "[]"] snapshot_back [of snapshot "[]"] by auto
qed

theorem accepted_messages_are_well_typed_witness:
  "\<exists>bytes. encode_client_hello \<lparr>ch_client_kind = 4, ch_display_name = ''''\<rparr> = Some bytes"
proof -
  have "decode_client_hello [4] = Inr \<lparr>ch_client_kind = 4, ch_display_name = ''''\<rparr>"
    by (simp add: decode_client_hello_def run_decode_def ClientHelloGameCodec_decode_def field_def reader_new_def
        field_absent_def remaining_def read_u8_def reader_take_def reading_map_def default_client_hello_def)
  then show ?thesis
    using accepted_messages_are_well_typed [of "[4]" "\<lparr>ch_client_kind = 4, ch_display_name = ''''\<rparr>"] by blast
qed

text \<open>
  The layouts of the fixed-size messages, in declaration order: the width of each field and what it
  does to the value when it is present and when the payload stopped before it.
\<close>

definition welcome_layout :: "Welcome \<Rightarrow> (nat \<times> (Welcome \<Rightarrow> Welcome) \<times> (Welcome \<Rightarrow> Welcome)) list" where
  "welcome_layout m =
    [(4, \<lambda>v. v\<lparr>wl_player_id := wl_player_id m\<rparr>, \<lambda>v. v\<lparr>wl_player_id := 0\<rparr>),
     (4, \<lambda>v. v\<lparr>wl_plane_half_size := wl_plane_half_size m\<rparr>, \<lambda>v. v\<lparr>wl_plane_half_size := 0\<rparr>),
     (2, \<lambda>v. v\<lparr>wl_tick_rate := wl_tick_rate m\<rparr>, \<lambda>v. v\<lparr>wl_tick_rate := 0\<rparr>)]"

definition player_input_layout ::
  "PlayerInput \<Rightarrow> (nat \<times> (PlayerInput \<Rightarrow> PlayerInput) \<times> (PlayerInput \<Rightarrow> PlayerInput)) list" where
  "player_input_layout m =
    [(4, \<lambda>v. v\<lparr>pi_sequence := pi_sequence m\<rparr>, \<lambda>v. v\<lparr>pi_sequence := 0\<rparr>),
     (4, \<lambda>v. v\<lparr>pi_move_x := pi_move_x m\<rparr>, \<lambda>v. v\<lparr>pi_move_x := 0\<rparr>),
     (4, \<lambda>v. v\<lparr>pi_move_z := pi_move_z m\<rparr>, \<lambda>v. v\<lparr>pi_move_z := 0\<rparr>),
     (1, \<lambda>v. v\<lparr>pi_jump := pi_jump m\<rparr>, \<lambda>v. v\<lparr>pi_jump := False\<rparr>),
     (4, \<lambda>v. v\<lparr>pi_look_yaw := pi_look_yaw m\<rparr>, \<lambda>v. v\<lparr>pi_look_yaw := 0\<rparr>),
     (4, \<lambda>v. v\<lparr>pi_look_pitch := pi_look_pitch m\<rparr>, \<lambda>v. v\<lparr>pi_look_pitch := 0\<rparr>)]"

definition decoded_or_cut :: "'a option \<Rightarrow> decode_error + 'a \<Rightarrow> bool" where
  "decoded_or_cut expected result = (case result of Inr v \<Rightarrow> expected = Some v
     | Inl e \<Rightarrow> expected = None \<and> (\<exists>needed left. e = UnexpectedEof needed left))"

lemma decoded_or_cut_run:
  assumes "\<And>t. t \<in> set specs \<Longrightarrow> field_law UNLIMITED t"
  shows "decoded_or_cut (cut_fields (spec_layout specs) k v)
    (run_decode (run_fields (map fst specs)) v (take k (spec_bytes specs)))"
  using run_fields_cut [of specs "reader_new (take k (spec_bytes specs))" k v] assms
  by (auto simp: decoded_or_cut_def run_decode_def split: option.splits prod.splits sum.splits)

lemma player_input_cut:
  "decoded_or_cut (cut_fields (player_input_layout input) k default_player_input)
     (decode_player_input (take k (encode_player_input input)))"
proof -
  have "player_input_layout input = spec_layout (player_input_specs input)"
    by (simp add: player_input_layout_def spec_layout_def player_input_specs_def length_to_le bool_bytes_def)
  then show ?thesis
    using decoded_or_cut_run [of "player_input_specs input"] player_input_laws
    by (simp add: decode_player_input_def decode_specs(3) [of input] encode_bytes)
qed


text \<open>
  C27: A snapshot payload that declares \<open>length ps + n\<close> players and stops after \<open>length ps\<close> of them
  is accepted: the \<open>n\<close> missing players are made up, with every field zero. So a snapshot cut between
  two players decodes to phantom players instead of \<^verbatim>\<open>UnexpectedEof\<close>, and (with \<open>ps = []\<close>) eight
  bytes decode to any number of them up to \<^verbatim>\<open>u32::MAX\<close>, although the runtime says lengths are
  checked against the bytes actually remaining before anything is allocated.
\<close>

theorem snapshot_makes_up_players:
  assumes "length ps + n \<le> u32_MAX"
  shows "decode_world_snapshot (to_le tick @ len_bytes (length ps + n) @
       concat (map (\<lambda>p. w_buf (PlayerStateGameCodec_encode p writer_new)) ps)) =
     Inr \<lparr>ws_tick = tick, ws_players = ps @ replicate n default_player_state\<rparr>"
proof -
  have "concat (map (\<lambda>p. w_buf (PlayerStateGameCodec_encode p writer_new)) ps) = player_bytes ps"
    by (simp add: encode_specs player_bytes_def writer_new_def)
  with snapshot_short [OF assms, of tick "[]"] show ?thesis by simp
qed

theorem snapshot_makes_up_players_witness:
  "decode_world_snapshot [1, 0, 0, 0, 0xFF, 0xFF, 0xFF, 0xFF] =
     Inr \<lparr>ws_tick = 1, ws_players = replicate 4294967295 default_player_state\<rparr>"
proof -
  have "to_le (1 :: u32) = [1, 0, 0, 0]" "len_bytes 4294967295 = [0xFF, 0xFF, 0xFF, 0xFF]"
    by (simp_all add: to_le_def len_bytes_def)
  then show ?thesis using snapshot_makes_up_players [of "[]" 4294967295 1]
    by (simp add: u32_MAX_def)
qed

end
