(* ===== verification/World_Props.thy ===== *)
theory World_Props
  imports World_Reach Protocol_Props
begin

text \<open>The properties of the simulation.\<close>

section \<open>Safety of every reachable world\<close>

text \<open>
  C1: In every world the server can reach, with any joins (fewer than 2^32 of them), leaves, inputs
  (any bit patterns, NaN and infinities included) and ticks in any order: peers are kept in strictly
  increasing order, player ids are distinct, and every player is on the plane, in one of the
  twenty-one vertical states of a jump, with a yaw in [-PI, PI), a pitch within the limit, a move
  direction in the unit square, and the palette color of its id. Assumed of \<^verbatim>\<open>cos\<close> and \<^verbatim>\<open>sin\<close>: on
  finite angles they lie in [-1, 1].
\<close>

theorem reachable_worlds_are_valid:
  assumes "reachable trig n w" "trig_ok trig" "n < 2 ^ 32"
  shows "sorted_wrt (<) (world_peers w) \<and> distinct (map pl_id (bt_values (wd_players w))) \<and>
    list_all player_ok (bt_values (wd_players w))"
proof -
  have ok: "bt_ok (wd_players w)" "bt.all_vals player_ok (wd_players w)" "ids_ok w"
    using reachable_world_ok [OF assms] by (simp_all add: world_ok_def)
  then show ?thesis
    using distinct_ids [OF ok(1,3)] bt_vals_all [OF ok(1), of player_ok] by (simp add: bt_keys_sorted world_peers_def)
qed

text \<open>The witness: a player joins, sends an input full of NaN, infinities and a held jump, and a tick runs.\<close>

definition hostile_input :: PlayerInput where
  "hostile_input = \<lparr>pi_sequence = 5, pi_move_x = 0x7FC00000, pi_move_z = 0x7F800000, pi_jump = True,
     pi_look_yaw = 0x7F7FFFFF, pi_look_pitch = 0xFF800000\<rparr>"

definition witness_world :: "nat world" where
  "witness_world = world_step TICK_DT
     (snd (apply_input 7 hostile_input (snd (join unit_trig 7 1 ''kaiju'' world_new))))"

lemma witness_reachable: "reachable unit_trig 1 witness_world"
  using reachable.stepped [OF reachable.input [OF reachable.joined [OF reachable.start]]]
  by (simp add: witness_world_def)

theorem reachable_worlds_are_valid_witness:
  "list_all player_ok (bt_values (wd_players witness_world))"
  using reachable_worlds_are_valid [OF witness_reachable unit_trig_ok] by simp

section \<open>Angles and directions\<close>

text \<open>
  C18: \<^verbatim>\<open>wrap_angle\<close> maps every finite angle, up to \<^verbatim>\<open>f32::MAX\<close>, into [-PI, PI): the addition does
  not overflow, and the result is strictly below PI although \<^verbatim>\<open>rem_euclid\<close> may round a small
  negative remainder up.
\<close>

theorem wrap_angle_in_range:
  assumes "f32_is_finite angle"
  shows "f32_le (f32_neg f32_PI) (wrap_angle angle) \<and> f32_lt (wrap_angle angle) f32_PI"
  using wrap_angle_range [OF assms] by (simp add: f32_between_def)

theorem wrap_angle_in_range_witness:
  "f32_le (f32_neg f32_PI) (wrap_angle 0xFF7FFFFF) \<and> f32_lt (wrap_angle 0xFF7FFFFF) f32_PI"
  by (rule wrap_angle_in_range) (simp add: feval)

definition f32_real :: "f32 \<Rightarrow> real" where
  "f32_real x = real_of_int (units (f32_val x)) / 2 ^ 149"

lemma unit_norm:
  assumes "\<bar>a\<bar> \<le> unit32" "\<bar>b\<bar> \<le> unit32" "len_units a b \<le> unit32"
  shows "a * a + b * b \<le> unit32 * unit32 + 16 * tick_err * unit32 + 18 * (tick_err * tick_err)"
proof -
  have e: "0 \<le> tick_err" using tick_err_unit by simp
  have "sum_units a b * unit32 \<le> (len_units a b + 4 * tick_err) * (len_units a b + 4 * tick_err)"
    by (rule len_err [OF assms(1,2)])
  also have "\<dots> \<le> (unit32 + 4 * tick_err) * (unit32 + 4 * tick_err)"
    using assms(3) len_units_bounds [OF assms(1,2)] e by (intro mult_mono) simp_all
  finally have s: "sum_units a b * unit32 \<le> unit32 * unit32 + 8 * (tick_err * unit32) + 16 * (tick_err * tick_err)"
    by (simp add: algebra_simps)
  have "(sq_units a + sq_units b) * unit32 \<le> (sum_units a b + 2 * tick_err) * unit32"
    using sum_err [OF assms(1,2)] by (intro mult_right_mono) simp_all
  then have "sq_units a * unit32 + sq_units b * unit32 \<le> sum_units a b * unit32 + 2 * (tick_err * unit32)"
    by (simp add: algebra_simps)
  moreover have "a * a \<le> sq_units a * unit32 + tick_err * unit32" "b * b \<le> sq_units b * unit32 + tick_err * unit32"
    using sq_err [OF assms(1)] sq_err [OF assms(2)] by (simp_all add: algebra_simps)
  moreover have "0 \<le> tick_err * unit32" "0 \<le> tick_err * tick_err" using e by simp_all
  ultimately show ?thesis using s unfolding mult.assoc [of 16] by linarith
qed

lemma bounded_direction_norm_units:
  assumes "bounded_direction a b = (x, z)"
  shows "units (f32_val x) * units (f32_val x) + units (f32_val z) * units (f32_val z)
    \<le> unit32 * unit32 + 16 * tick_err * unit32 + 18 * (tick_err * tick_err)"
proof -
  let ?a = "units (f32_val (axis a))" and ?b = "units (f32_val (axis b))"
  have ab: "\<bar>?a\<bar> \<le> unit32" "\<bar>?b\<bar> \<le> unit32" using axis_in_unit by (simp_all add: in_unit_iff)
  note len = val_len [OF axis_in_unit axis_in_unit, of a b]
  have lt: "f32_lt f32_one (f32_sqrt (f32_add (f32_mul (axis a) (axis a)) (f32_mul (axis b) (axis b))))
      \<longleftrightarrow> unit32 < len_units ?a ?b"
    unfolding f32_lt_def len val_one by (simp add: fv_lt_def)
  show ?thesis
  proof (cases "unit32 < len_units ?a ?b")
    case True
    then have "units (f32_val x) = rnd_key F32 (?a * unit32) (len_units ?a ?b)"
      "units (f32_val z) = rnd_key F32 (?b * unit32) (len_units ?a ?b)"
      using assms div_len_in_unit(2) [OF axis_in_unit len]
      unfolding bounded_direction_def Let_def lt by auto
    with True show ?thesis using normalised_norm [OF ab refl] by simp
  next
    case False
    then have "x = axis a" "z = axis b" using assms unfolding bounded_direction_def Let_def lt by auto
    with False show ?thesis using unit_norm [OF ab] by simp
  qed
qed

text \<open>
  C19: Whatever a client sends as its move direction (NaN, infinities, huge values), the direction
  the server stores has both components finite and in [-1, 1], and a length whose square is at most
  1 + 2^-19: diagonal input is not faster.
\<close>

theorem directions_are_bounded:
  "in_unit (fst (bounded_direction a b)) \<and> in_unit (snd (bounded_direction a b)) \<and>
   (f32_real (fst (bounded_direction a b)))\<^sup>2 + (f32_real (snd (bounded_direction a b)))\<^sup>2 \<le> 1 + 1 / 2 ^ 19"
proof -
  obtain x z where xz: "bounded_direction a b = (x, z)" by (cases "bounded_direction a b")
  let ?X = "units (f32_val x)" and ?Z = "units (f32_val z)"
  have "?X * ?X + ?Z * ?Z \<le> 2 ^ 298 + 2 ^ 279"
    using bounded_direction_norm_units [OF xz] by (simp add: unit32_def tick_err_def)
  then have "real_of_int (?X * ?X + ?Z * ?Z) \<le> real_of_int (2 ^ 298 + 2 ^ 279)" by (simp only: of_int_le_iff)
  then have "real_of_int ?X * real_of_int ?X + real_of_int ?Z * real_of_int ?Z \<le> 2 ^ 298 + 2 ^ 279" by simp
  then have "(f32_real x)\<^sup>2 + (f32_real z)\<^sup>2 \<le> 1 + 1 / 2 ^ 19"
    by (simp add: f32_real_def power2_eq_square field_simps)
  with bounded_direction_in_unit [of a b] show ?thesis by (simp add: xz)
qed

section \<open>Jumping\<close>

text \<open>One tick of a player that has just sent an input.\<close>

definition play :: "PlayerInput \<Rightarrow> player \<Rightarrow> player" where
  "play i p = step_player TICK_DT (take_input i p)"

lemma vertical_play: "vertical (play i p) = vertical_step (pi_jump i) (vertical p)"
  by (simp add: play_def vertical_step_player)

lemma length_arc [simp]: "length jump_arc = 20"
  by (simp add: jump_arc_def)

lemma arc_step: "k < 20 \<Longrightarrow> vertical_step jump (jump_arc ! k) = (jump_arc @ [(0, 0)]) ! Suc k"
proof -
  have "list_all2 (\<lambda>s t. vertical_step jump s = t) jump_arc (tl jump_arc @ [(0, 0)])"
    by (simp add: jump_arc_def air_steps_1 air_steps_2 air_steps_3 air_steps_4 air_steps_5)
  moreover have "(tl jump_arc @ [(0, 0)]) ! k = (jump_arc @ [(0, 0)]) ! Suc k"
    by (simp add: jump_arc_def)
  ultimately show "vertical_step jump (jump_arc ! k) = (jump_arc @ [(0, 0)]) ! Suc k" if "k < 20"
    using list_all2_nthD [of _ jump_arc "tl jump_arc @ [(0, 0)]" k] that by simp
qed

text \<open>
  C20: A player on the ground whose input holds jump leaves it on that tick and follows one fixed
  trajectory, tick by tick and bit by bit, whatever inputs it sends meanwhile (holding jump in the
  air adds nothing): after 20 ticks it is still in the air, after the 21st it is back on the ground
  at rest.
\<close>

theorem jump_trajectory:
  assumes "vertical p = (0, 0)" "pi_jump i" "length later \<le> 20"
  shows "vertical (fold play (i # later) p) = (jump_arc @ [(0, 0)]) ! length later"
  using assms(3)
proof (induction later rule: rev_induct)
  case Nil
  then show ?case using assms by (simp add: vertical_play ground_step jump_arc_def)
next
  case (snoc j later)
  then have "vertical (fold play (i # later) p) = jump_arc ! length later"
    by (simp add: nth_append)
  with snoc.prems show ?case using arc_step [of "length later" "pi_jump j"] by (simp add: vertical_play)
qed

theorem jump_trajectory_witness:
  "vertical (fold play (replicate 21 hostile_input) (new_player unit_trig 1 1 ''kaiju'')) = (0, 0)"
  using jump_trajectory [of "new_player unit_trig 1 1 ''kaiju''" hostile_input "replicate 20 hostile_input"]
  by (simp add: vertical_def new_player_def hostile_input_def jump_arc_def numeral_eq_Suc split: prod.splits)

text \<open>
  C23: No player is ever higher than 1.1111115 (below 1.12), nor below the ground: the peak of a jump
  at the server's tick is 1.111, not the 1.22 that \<^verbatim>\<open>protocol/PROTOCOL.md\<close> gives.
\<close>

theorem jump_peak:
  assumes "reachable trig n w" "trig_ok trig" "n < 2 ^ 32" "world_player w peer = Some p"
  shows "f32_le 0 (pl_position_y p) \<and> f32_le (pl_position_y p) 0x3F8E38E6 \<and> f32_lt (pl_position_y p) (f32_lit 112 100)"
proof -
  have "vertical p \<in> set vertical_states"
    using world_okD [OF reachable_world_ok [OF assms(1-3)] assms(4)] by (simp add: player_ok_def)
  moreover have "list_all (\<lambda>(y, v). f32_le 0 y \<and> f32_le y 0x3F8E38E6 \<and> f32_lt y 0x3F8F5C29) vertical_states"
    by (simp add: vertical_states_def jump_arc_def feval)
  moreover have "f32_lit 112 100 = 0x3F8F5C29" by (simp add: feval)
  ultimately show ?thesis by (auto simp: list_all_iff vertical_def)
qed

theorem jump_peak_witness:
  "\<exists>p. world_player witness_world 7 = Some p \<and> f32_lt (pl_position_y p) (f32_lit 112 100)"
proof -
  have "world_player witness_world 7 \<noteq> None"
    by (simp add: witness_world_def player_step player_apply_input player_join bt_ok_ops world_new_def bt_empty_def)
  then obtain p where "world_player witness_world 7 = Some p" by auto
  with jump_peak [OF witness_reachable unit_trig_ok _ this] show ?thesis by simp
qed

section \<open>Operations\<close>

text \<open>
  C3: The world refines a plain map from peers to players: on a world whose tree is in order, join,
  leave, apply_input and step return what the abstract operations return and lead to the abstract
  world they lead to. So joining twice returns the first id and changes nothing, a new id is one
  more than the last, leaving removes exactly that peer, an input from an unknown peer or with an
  older sequence number changes nothing, one that is accepted touches only its sender, and a tick
  advances every player independently.
\<close>

theorem world_refines:
  assumes "bt_ok (wd_players w)"
  shows "map_prod id abs_world (join trig peer kind name w) = abs_join trig peer kind name (abs_world w)
    \<and> map_prod id abs_world (leave peer w) = abs_leave peer (abs_world w)
    \<and> map_prod id abs_world (apply_input peer i w) = abs_input peer i (abs_world w)
    \<and> abs_world (world_step dt w) = abs_step dt (abs_world w)"
proof (intro conjI)
  have "abs_world (snd (join trig peer kind name w)) = snd (abs_join trig peer kind name (abs_world w))"
    using player_join [OF assms, of trig peer kind name]
    by (intro abs_worldI) (auto simp: abs_join_def next_id tick_of fun_eq_iff split: option.split)
  moreover have "fst (join trig peer kind name w) = fst (abs_join trig peer kind name (abs_world w))"
    by (simp add: join_def abs_join_def world_player_def Let_def split: option.split)
  ultimately show "map_prod id abs_world (join trig peer kind name w) = abs_join trig peer kind name (abs_world w)"
    by (simp add: prod_eq_iff)
  have "abs_world (snd (leave peer w)) = snd (abs_leave peer (abs_world w))"
    using player_leave [OF assms, of peer]
    by (intro abs_worldI) (auto simp: abs_leave_def next_id tick_of fun_eq_iff)
  moreover have "fst (leave peer w) = fst (abs_leave peer (abs_world w))"
    by (simp add: leave_def abs_leave_def world_player_def)
  ultimately show "map_prod id abs_world (leave peer w) = abs_leave peer (abs_world w)"
    by (simp add: prod_eq_iff)
  have "abs_world (snd (apply_input peer i w)) = snd (abs_input peer i (abs_world w))"
    using player_apply_input [OF assms, of peer i]
    by (intro abs_worldI) (auto simp: abs_input_def accepts_def next_id tick_of fun_eq_iff split: option.split)
  moreover have "fst (apply_input peer i w) = fst (abs_input peer i (abs_world w))"
    by (auto simp: fst_apply_input accepts_def abs_input_def split: option.split)
  ultimately show "map_prod id abs_world (apply_input peer i w) = abs_input peer i (abs_world w)"
    by (simp add: prod_eq_iff)
  show "abs_world (world_step dt w) = abs_step dt (abs_world w)"
    by (intro abs_worldI) (auto simp: abs_step_def player_step next_id tick_of fun_eq_iff)
qed

lemma player_new: "world_player world_new k = None" "bt_ok (wd_players world_new)" "wd_next_player_id world_new = 0"
  by (simp_all add: world_player_def world_new_def bt_empty_def bt_get_def)

lemma new_player_fields [simp]:
  "pl_id (new_player trig n kind name) = n" "pl_last_sequence (new_player trig n kind name) = 0"
  "pl_client_kind (new_player trig n kind name) = kind" "pl_display_name (new_player trig n kind name) = name"
  by (simp_all add: new_player_def split: prod.split)

lemma witness_player:
  "world_player witness_world 7 = Some (step_player TICK_DT (take_input hostile_input (new_player unit_trig 1 1 ''kaiju'')))"
  by (simp add: witness_world_def player_step player_apply_input player_join bt_ok_ops player_new accepts_def)

lemma witness_bt_ok: "bt_ok (wd_players witness_world)"
  by (simp add: witness_world_def bt_ok_ops player_new)

theorem world_refines_witness:
  "fst (join unit_trig (7 :: nat) 1 ''kaiju'' witness_world) = 1 \<and>
   abs_world (snd (join unit_trig 7 1 ''kaiju'' witness_world)) = abs_world witness_world"
  using conjunct1 [OF world_refines [OF witness_bt_ok, of unit_trig 7 1 "''kaiju''"]]
  by (simp add: abs_join_def prod_eq_iff witness_player)

text \<open>The sequence number of a player, over a series of inputs and ticks.\<close>

fun feed :: "PlayerInput list \<Rightarrow> 'p::linorder \<Rightarrow> 'p world \<Rightarrow> 'p world" where
  "feed [] peer w = w"
| "feed (i # is) peer w = feed is peer (snd (apply_input peer i w))"

definition last_sequence :: "'p::linorder world \<Rightarrow> 'p \<Rightarrow> u32 option" where
  "last_sequence w peer = map_option pl_last_sequence (world_player w peer)"

lemma last_sequence_apply:
  "bt_ok (wd_players w) \<Longrightarrow> last_sequence w peer = Some s \<Longrightarrow>
     last_sequence (snd (apply_input peer i w)) peer = Some (max s (pi_sequence i))"
  by (auto simp: last_sequence_def player_apply_input accepts_def max_def)

lemma feed_last_sequence:
  "bt_ok (wd_players w) \<Longrightarrow> last_sequence w peer = Some s \<Longrightarrow>
     last_sequence (feed is peer w) peer = Some (fold max (map pi_sequence is) s)"
proof (induction "is" arbitrary: w s)
  case (Cons i "is")
  then show ?case
    using last_sequence_apply [of w peer s i] bt_ok_ops(3) [of w] by (simp add: max.commute)
qed simp

lemma u32_top: "(x :: u32) \<le> 0xFFFFFFFF"
  using unsigned_less [of x, where 'a = nat] by (simp add: word_le_nat_alt)

lemma fold_max_top: "fold max xs (0xFFFFFFFF :: u32) = 0xFFFFFFFF"
  by (induction xs) (simp_all add: max_absorb2 u32_top)

text \<open>
  The last accepted sequence number never decreases: after any series of inputs it is the
  maximum of what it was and the numbers sent. In particular an input overtaken by a newer one is
  never applied after it.
\<close>

theorem sequence_is_the_maximum:
  assumes "bt_ok (wd_players w)" "last_sequence w peer = Some s"
  shows "last_sequence (feed is peer w) peer = Some (fold max (map pi_sequence is) s)"
  using assms by (rule feed_last_sequence)

theorem sequence_is_the_maximum_witness:
  "last_sequence (feed [default_player_input\<lparr>pi_sequence := 9\<rparr>, default_player_input\<lparr>pi_sequence := 8\<rparr>] 7 witness_world) 7
     = Some 9"
proof -
  have "last_sequence witness_world 7 = Some 5"
    by (simp add: last_sequence_def witness_player hostile_input_def)
  from sequence_is_the_maximum [OF witness_bt_ok this, of
      "[default_player_input\<lparr>pi_sequence := 9\<rparr>, default_player_input\<lparr>pi_sequence := 8\<rparr>]"]
  show ?thesis by (simp add: max_def)
qed



section \<open>Snapshots\<close>

text \<open>
  C21: A snapshot carries the tick and one state per joined player, in increasing peer order, with
  the player's own fields; its encoding is 8 bytes plus 29 per player, and a client that decodes it
  gets exactly that snapshot.
\<close>

theorem snapshot_reaches_the_client:
  assumes "bt_ok (wd_players w)" "player_count w \<le> u32_MAX"
  shows "map Some (ws_players (snapshot w)) = map (\<lambda>peer. map_option player_state_of (world_player w peer)) (world_peers w)
    \<and> ws_tick (snapshot w) = wd_tick w
    \<and> (\<exists>bytes. encode_world_snapshot (snapshot w) = Some bytes \<and> length bytes = 8 + 29 * player_count w
         \<and> decode_world_snapshot bytes = Inr (snapshot w))"
proof -
  have "map (map_option player_state_of) (map Some (bt_values (wd_players w))) =
      map (map_option player_state_of) (map (world_player w) (world_peers w))"
    using bt_values_get [OF assms(1)] by (simp add: world_player_def world_peers_def)
  moreover have len: "length (ws_players (snapshot w)) = player_count w"
    by (simp add: snapshot_def player_count_def bt_len_values)
  ultimately show ?thesis
    using snapshot_short [of "ws_players (snapshot w)" 0 "ws_tick (snapshot w)" "[]"] assms(2)
    by (simp add: encode_snapshot_bytes length_to_le snapshot_def comp_def)
qed

lemma single_player:
  assumes "bt_ok (wd_players w)" "\<And>k. world_player w k \<noteq> None \<longleftrightarrow> k = peer"
  shows "player_count w = 1"
proof -
  have "set (world_peers w) = {peer}" using assms(2) by (auto simp: world_peers_def bt_keys_get world_player_def)
  then show ?thesis
    using distinct_card [OF bt.keys_distinct [OF assms(1)]] by (simp add: player_count_def bt_len_keys world_peers_def)
qed

lemma witness_keys: "world_player witness_world k \<noteq> None \<longleftrightarrow> k = 7"
  by (auto simp: witness_world_def player_step player_apply_input player_join bt_ok_ops player_new accepts_def)

theorem snapshot_reaches_the_client_witness:
  "\<exists>bytes. encode_world_snapshot (snapshot witness_world) = Some bytes \<and> length bytes = 37"
proof -
  have "player_count witness_world = 1" using witness_bt_ok witness_keys by (rule single_player)
  then show ?thesis using snapshot_reaches_the_client [OF witness_bt_ok] by (auto simp: u32_MAX_def)
qed

end
