(* ===== verification/Client_Kind.thy ===== *)
theory Client_Kind
  imports Prelude
begin

text \<open>\<^verbatim>\<open>server/src/client_kind.rs\<close>: the kinds of client and their names.\<close>

definition BOT :: u8 where "BOT = 0"
definition UNITY :: u8 where "UNITY = 1"
definition GODOT :: u8 where "GODOT = 2"
definition UNREAL :: u8 where "UNREAL = 3"
definition KAIJU :: u8 where "KAIJU = 4"

definition kind_name :: "u8 \<Rightarrow> string" where
  "kind_name kind =
    (if kind = BOT then ''bot'' else if kind = UNITY then ''unity'' else if kind = GODOT then ''godot''
     else if kind = UNREAL then ''unreal'' else if kind = KAIJU then ''kaiju'' else ''unknown'')"

lemma kind_name_not_Nil: "kind_name kind \<noteq> []"
  by (simp add: kind_name_def)

end
