(* ===== verification/Peers.thy ===== *)
theory Peers
  imports World Client_Kind Text_Format Durations
begin

text \<open>
  \<^verbatim>\<open>server/src/peers.rs\<close>: the directory of connections and the texts about peers. A \<^verbatim>\<open>SocketAddr\<close>
  is its text, which is all the program reads of it; \<open>show_peer\<close> is the \<^verbatim>\<open>Display\<close> of \<^verbatim>\<open>PeerId\<close>,
  which belongs to \<^verbatim>\<open>fomoxa_net\<close>.
\<close>

record peer_record =
  pr_address :: "string option"
  pr_connected_at :: instant
  pr_handshake_accepted :: bool

definition address_label :: "string option \<Rightarrow> string" where
  "address_label address = (case address of None \<Rightarrow> ''unknown address'' | Some a \<Rightarrow> a)"

definition record_address_label :: "peer_record \<Rightarrow> string" where
  "record_address_label r = address_label (pr_address r)"

definition connected_for :: "peer_record \<Rightarrow> instant \<Rightarrow> duration" where
  "connected_for r now = since now (pr_connected_at r)"

type_synonym 'p directory = "('p, peer_record) btree"

definition directory_new :: "'p directory" where
  "directory_new = bt_empty"

definition directory_len :: "'p directory \<Rightarrow> nat" where
  "directory_len d = bt_len d"

definition directory_is_empty :: "'p directory \<Rightarrow> bool" where
  "directory_is_empty d \<longleftrightarrow> d = []"

definition directory_connect :: "'p::linorder \<Rightarrow> string option \<Rightarrow> instant \<Rightarrow> 'p directory \<Rightarrow> 'p directory" where
  "directory_connect peer address now d =
     bt_insert peer \<lparr>pr_address = address, pr_connected_at = now, pr_handshake_accepted = False\<rparr> d"

definition accept_handshake :: "'p::linorder \<Rightarrow> 'p directory \<Rightarrow> 'p directory" where
  "accept_handshake peer d = (case bt_get d peer of None \<Rightarrow> d
     | Some r \<Rightarrow> bt_insert peer (r\<lparr>pr_handshake_accepted := True\<rparr>) d)"

definition directory_get :: "'p directory \<Rightarrow> 'p \<Rightarrow> peer_record option" where
  "directory_get d peer = bt_get d peer"

definition directory_address_label :: "'p directory \<Rightarrow> 'p \<Rightarrow> string" where
  "directory_address_label d peer = address_label (Option.bind (bt_get d peer) pr_address)"

definition directory_remove :: "'p \<Rightarrow> 'p directory \<Rightarrow> peer_record option \<times> 'p directory" where
  "directory_remove peer d = (bt_get d peer, bt_remove peer d)"

definition describe_player :: "player \<Rightarrow> string" where
  "describe_player p = ''#'' @ show_nat (unat (pl_id p)) @ '' '' @ kind_name (pl_client_kind p) @ '' '' @ [CHR 0x22]
     @ pl_display_name p @ [CHR 0x22]"

definition roster_entry :: "('p \<Rightarrow> string) \<Rightarrow> 'p directory \<Rightarrow> 'p \<times> player \<Rightarrow> string" where
  "roster_entry show_peer d entry = (case entry of (peer, p) \<Rightarrow>
     describe_player p @ '' @'' @ directory_address_label d peer @ '' ('' @ show_peer peer @ '')'')"

definition roster :: "('p \<Rightarrow> string) \<Rightarrow> 'p world \<Rightarrow> 'p directory \<Rightarrow> string" where
  "roster show_peer w d =
    (let entries = map (roster_entry show_peer d)
           (List.map_filter (\<lambda>peer. map_option (Pair peer) (world_player w peer)) (world_peers w))
     in if entries = [] then ''online 0''
        else ''online '' @ show_nat (length entries) @ '': '' @ join_with '', '' entries)"

section \<open>Lemmas\<close>

lemma get_connect: "bt_ok d \<Longrightarrow> directory_get (directory_connect peer a now d) k =
    (if k = peer then Some \<lparr>pr_address = a, pr_connected_at = now, pr_handshake_accepted = False\<rparr> else directory_get d k)"
  by (simp add: directory_get_def directory_connect_def bt_get_insert)

lemma get_accept: "bt_ok d \<Longrightarrow> directory_get (accept_handshake peer d) k =
    (if k = peer then map_option (\<lambda>r. r\<lparr>pr_handshake_accepted := True\<rparr>) (directory_get d k) else directory_get d k)"
  by (auto simp: directory_get_def accept_handshake_def bt_get_insert split: option.split)

lemma get_remove: "bt_ok d \<Longrightarrow> directory_get (snd (directory_remove peer d)) k = (if k = peer then None else directory_get d k)"
  by (simp add: directory_get_def directory_remove_def bt_get_remove)

lemma bt_ok_directory [simp]:
  "bt_ok d \<Longrightarrow> bt_ok (directory_connect peer a now d)" "bt_ok d \<Longrightarrow> bt_ok (accept_handshake peer d)"
  "bt_ok d \<Longrightarrow> bt_ok (snd (directory_remove peer d))"
  by (simp_all add: directory_connect_def accept_handshake_def directory_remove_def split: option.split)

lemma roster_entries:
  assumes "bt_ok (wd_players w)"
  shows "List.map_filter (\<lambda>peer. map_option (Pair peer) (world_player w peer)) (world_peers w) = wd_players w"
proof -
  have "world_player w (fst e) = Some (snd e)" if "e \<in> set (wd_players w)" for e
    using bt.keys_distinct [OF assms] that by (simp add: world_player_def bt_get_def bt_keys_def)
  then have "List.map_filter (\<lambda>e. map_option (Pair (fst e)) (world_player w (fst e))) es = es"
    if "set es \<subseteq> set (wd_players w)" for es
    using that by (induction es) (simp_all add: map_filter_simps)
  from this [of "wd_players w"] show ?thesis
    by (simp add: world_peers_def bt_keys_def List.map_filter_def comp_def filter_map)
qed

text \<open>
  The roster lists every joined player exactly once, in peer order: it is \<^verbatim>\<open>online 0\<close> when the
  world is empty and otherwise gives the number of players and then one entry per player.
\<close>

theorem roster_lists_everyone:
  assumes "bt_ok (wd_players w)"
  shows "roster show_peer w d = (if player_count w = 0 then ''online 0''
    else ''online '' @ show_nat (player_count w) @ '': '' @
      join_with '', '' (map (roster_entry show_peer d) (wd_players w)))"
  by (simp add: roster_def roster_entries [OF assms] player_count_def bt_len_def)

definition one_player_world :: "nat world" where
  "one_player_world = \<lparr>wd_players = [(3, \<lparr>pl_id = 1, pl_client_kind = KAIJU, pl_display_name = ''ann'', pl_color = 0,
     pl_position_x = 0, pl_position_y = 0, pl_position_z = 0, pl_look_yaw = 0, pl_look_pitch = 0, pl_move_x = 0,
     pl_move_z = 0, pl_vertical_velocity = 0, pl_jump_held = False, pl_last_sequence = 0\<rparr>)],
     wd_next_player_id = 1, wd_tick = 0\<rparr>"

theorem roster_lists_everyone_witness:
  "roster (\<lambda>p. ''peer '' @ show_nat p) one_player_world directory_new
     = ''online 1: #1 kaiju '' @ [CHR 0x22] @ ''ann'' @ [CHR 0x22] @ '' @unknown address (peer 3)''"
proof -
  have digits: "show_nat 1 = ''1''" "show_nat 3 = ''3''" by code_simp+
  have label: "directory_address_label (directory_new :: nat directory) 3 = ''unknown address''"
    "kind_name KAIJU = ''kaiju''" "bt_ok (wd_players one_player_world)" "player_count one_player_world = 1"
    by (simp_all add: directory_address_label_def directory_new_def bt_get_def bt_empty_def address_label_def
        kind_name_def BOT_def UNITY_def GODOT_def UNREAL_def KAIJU_def one_player_world_def player_count_def bt_len_def)
  have entries: "map (roster_entry (\<lambda>p. ''peer '' @ show_nat p) directory_new) (wd_players one_player_world) =
      [''#1 kaiju '' @ [CHR 0x22] @ ''ann'' @ [CHR 0x22] @ '' @unknown address (peer 3)'']"
    using label using digits by (simp add: one_player_world_def roster_entry_def describe_player_def)
  show ?thesis
    using roster_lists_everyone [OF label(3), of "\<lambda>p. ''peer '' @ show_nat p" directory_new]
    unfolding entries label(4) digits by simp
qed

end
