(* ===== verification/Handshake.thy ===== *)
theory Handshake
  imports Prelude
begin

text \<open>
  \<^verbatim>\<open>server/src/generated/handshake.rs\<close>: the table of message fingerprints and the comparison with a
  peer's table. Field counts are \<^verbatim>\<open>u32\<close>; slice indices are \<open>nat\<close>.
\<close>

section \<open>The table\<close>

record fomoxa_msg =
  fm_id :: u32
  fm_name :: string
  fm_fingerprint :: u64
  fm_prefixes :: "u64 list"

definition FOMOXA_SCHEMA_FINGERPRINT :: u64 where
  "FOMOXA_SCHEMA_FINGERPRINT = 0xC179C08CBF309660"

definition CLIENT_HELLO_FINGERPRINT :: u64 where
  "CLIENT_HELLO_FINGERPRINT = 0x30700E5257639EF8"

definition PLAYER_INPUT_FINGERPRINT :: u64 where
  "PLAYER_INPUT_FINGERPRINT = 0x074CF527667FDF49"

definition PLAYER_STATE_FINGERPRINT :: u64 where
  "PLAYER_STATE_FINGERPRINT = 0x3372A54D05707577"

definition WELCOME_FINGERPRINT :: u64 where
  "WELCOME_FINGERPRINT = 0xA4BEC7001DAC7205"

definition WORLD_SNAPSHOT_FINGERPRINT :: u64 where
  "WORLD_SNAPSHOT_FINGERPRINT = 0x90F8E2C1EB849B57"

definition CLIENT_HELLO_GAME_MESSAGE_ID :: u32 where
  "CLIENT_HELLO_GAME_MESSAGE_ID = 0xACEB4840"

definition PLAYER_INPUT_GAME_MESSAGE_ID :: u32 where
  "PLAYER_INPUT_GAME_MESSAGE_ID = 0x6984A5A4"

definition PLAYER_STATE_GAME_MESSAGE_ID :: u32 where
  "PLAYER_STATE_GAME_MESSAGE_ID = 0x9C787B03"

definition WELCOME_GAME_MESSAGE_ID :: u32 where
  "WELCOME_GAME_MESSAGE_ID = 0x00876FB0"

definition WORLD_SNAPSHOT_GAME_MESSAGE_ID :: u32 where
  "WORLD_SNAPSHOT_GAME_MESSAGE_ID = 0x7DDE7B54"

lemmas message_ids = CLIENT_HELLO_GAME_MESSAGE_ID_def PLAYER_INPUT_GAME_MESSAGE_ID_def PLAYER_STATE_GAME_MESSAGE_ID_def
  WELCOME_GAME_MESSAGE_ID_def WORLD_SNAPSHOT_GAME_MESSAGE_ID_def

definition CLIENT_HELLO_GAME :: fomoxa_msg where
  "CLIENT_HELLO_GAME = \<lparr>fm_id = CLIENT_HELLO_GAME_MESSAGE_ID, fm_name = ''ClientHello.game'', fm_fingerprint = 0x1D75366230B9D0EF,
     fm_prefixes = [0xBAC7A1A8F670D680, 0x1D75366230B9D0EF]\<rparr>"

definition PLAYER_INPUT_GAME :: fomoxa_msg where
  "PLAYER_INPUT_GAME = \<lparr>fm_id = PLAYER_INPUT_GAME_MESSAGE_ID, fm_name = ''PlayerInput.game'', fm_fingerprint = 0xB12F80F42BD84E52,
     fm_prefixes = [0xE80972CC3424521B, 0xFFD5ED0A3874CC2B, 0x5DE3D616C00C3176, 0x22A1574907FB4108,
       0x409606AC2E28759F, 0xB12F80F42BD84E52]\<rparr>"

definition PLAYER_STATE_GAME :: fomoxa_msg where
  "PLAYER_STATE_GAME = \<lparr>fm_id = PLAYER_STATE_GAME_MESSAGE_ID, fm_name = ''PlayerState.game'', fm_fingerprint = 0x841F5F0775C65445,
     fm_prefixes = [0x4042091069C386AC, 0x5B88618AF7C95878, 0x4756E491AC625A05, 0x3EC7147492E1D88E,
       0xB10152FD1556DF79, 0x3A4D6EC8A2E907C1, 0x79BCD37E1B8F43C0, 0x841F5F0775C65445]\<rparr>"

definition WELCOME_GAME :: fomoxa_msg where
  "WELCOME_GAME = \<lparr>fm_id = WELCOME_GAME_MESSAGE_ID, fm_name = ''Welcome.game'', fm_fingerprint = 0x2D2DF98B821DCD9D,
     fm_prefixes = [0xDD3552E402DFFD57, 0x55618608F9BB4B86, 0x2D2DF98B821DCD9D]\<rparr>"

definition WORLD_SNAPSHOT_GAME :: fomoxa_msg where
  "WORLD_SNAPSHOT_GAME = \<lparr>fm_id = WORLD_SNAPSHOT_GAME_MESSAGE_ID, fm_name = ''WorldSnapshot.game'', fm_fingerprint = 0x3966DDBA99FE7647,
     fm_prefixes = [0x3D1D4E1F22FEF15F, 0x3966DDBA99FE7647]\<rparr>"

definition FOMOXA_MESSAGES :: "fomoxa_msg list" where
  "FOMOXA_MESSAGES = [WELCOME_GAME, PLAYER_INPUT_GAME, WORLD_SNAPSHOT_GAME, PLAYER_STATE_GAME, CLIENT_HELLO_GAME]"

definition FOMOXA_VALIDATE_MESSAGE_FINGERPRINT :: bool where
  "FOMOXA_VALIDATE_MESSAGE_FINGERPRINT = False"

section \<open>Lookup\<close>

text \<open>The loop \<^verbatim>\<open>while low < high\<close>: a binary search for the first entry whose id is not below.\<close>

function search_loop :: "fomoxa_msg list \<Rightarrow> u32 \<Rightarrow> nat \<Rightarrow> nat \<Rightarrow> nat" where
  "search_loop ms i low high = (if low < high then
      let middle = (low + high) div 2
      in if fm_id (ms ! middle) < i then search_loop ms i (middle + 1) high
         else search_loop ms i low middle
    else low)"
  by pat_completeness auto
termination
  by (relation "measure (\<lambda>(ms, i, low, high). high - low)") auto

declare search_loop.simps [simp del]

definition slice_get :: "'a list \<Rightarrow> nat \<Rightarrow> 'a option" where
  "slice_get xs n = (if n < length xs then Some (xs ! n) else None)"

definition fomoxa_message :: "u32 \<Rightarrow> fomoxa_msg option" where
  "fomoxa_message i =
    (case slice_get FOMOXA_MESSAGES (search_loop FOMOXA_MESSAGES i 0 (length FOMOXA_MESSAGES)) of
       Some message \<Rightarrow> if fm_id message = i then Some message else None
     | None \<Rightarrow> None)"

definition fomoxa_prefix :: "u32 \<Rightarrow> u32 \<Rightarrow> u64 option" where
  "fomoxa_prefix i field_count =
    (case fomoxa_message i of None \<Rightarrow> None
     | Some message \<Rightarrow>
         if field_count = 0 then None else slice_get (fm_prefixes message) (unat field_count - 1))"

section \<open>Comparison\<close>

datatype fomoxa_message_check = Match | RejectMessage | NeedPrefix u32

datatype fomoxa_handshake = Current | Outdated | Reject | NeedMore

definition message_check :: "u32 \<Rightarrow> u32 \<Rightarrow> u64 \<Rightarrow> fomoxa_message_check" where
  "message_check i peer_field_count peer_fingerprint =
    (case fomoxa_message i of
       None \<Rightarrow> Match
     | Some known \<Rightarrow>
        let local_field_count = of_nat (length (fm_prefixes known)) :: u32 in
        if peer_fingerprint = fm_fingerprint known then Match
        else if peer_field_count = 0 \<or> local_field_count = 0 then Match
        else if peer_field_count = local_field_count then RejectMessage
        else if peer_field_count < local_field_count then
          (case slice_get (fm_prefixes known) (unat peer_field_count - 1) of
             Some local \<Rightarrow> if local = peer_fingerprint then Match else RejectMessage
           | None \<Rightarrow> RejectMessage)
        else NeedPrefix local_field_count)"

fun check_loop :: "(u32 \<times> u32 \<times> u64) list \<Rightarrow> bool \<Rightarrow> fomoxa_handshake" where
  "check_loop [] need_more = (if need_more then NeedMore else Outdated)"
| "check_loop ((i, field_count, fingerprint) # rest) need_more =
     (case message_check i field_count fingerprint of
        RejectMessage \<Rightarrow> Reject
      | NeedPrefix n \<Rightarrow> check_loop rest True
      | Match \<Rightarrow> check_loop rest need_more)"

definition handshake :: "u64 \<Rightarrow> (u32 \<times> u32 \<times> u64) list \<Rightarrow> fomoxa_handshake" where
  "handshake peer_schema_fingerprint peer_messages =
    (if peer_schema_fingerprint = FOMOXA_SCHEMA_FINGERPRINT then Current
     else check_loop peer_messages False)"

section \<open>The binary search is a lookup\<close>

lemma search_loop_bounds:
  "low \<le> high \<Longrightarrow> low \<le> search_loop ms i low high \<and> search_loop ms i low high \<le> high"
proof (induction ms i low high rule: search_loop.induct)
  case (1 ms i low high)
  show ?case
  proof (cases "low < high")
    case True
    let ?m = "(low + high) div 2"
    have m: "low \<le> ?m" "?m < high" using True by auto
    have "search_loop ms i low high =
        (if fm_id (ms ! ?m) < i then search_loop ms i (?m + 1) high else search_loop ms i low ?m)"
      using True by (subst search_loop.simps) (simp add: Let_def)
    then show ?thesis using "1.IH" [OF True refl] m by (cases "fm_id (ms ! ?m) < i") simp_all
  qed (use 1 in \<open>simp add: search_loop.simps\<close>)
qed

lemma search_loop_split:
  assumes "sorted_wrt (\<lambda>a b. fm_id a < fm_id b) ms" "low \<le> high" "high \<le> length ms"
    and "\<And>k. k < low \<Longrightarrow> fm_id (ms ! k) < i" "\<And>k. high \<le> k \<Longrightarrow> k < length ms \<Longrightarrow> i \<le> fm_id (ms ! k)"
  shows "(\<forall>k < search_loop ms i low high. fm_id (ms ! k) < i) \<and>
    (\<forall>k. search_loop ms i low high \<le> k \<and> k < length ms \<longrightarrow> i \<le> fm_id (ms ! k))"
  using assms
proof (induction ms i low high rule: search_loop.induct)
  case (1 ms i low high)
  show ?case
  proof (cases "low < high")
    case False
    with "1.prems" show ?thesis by (simp add: search_loop.simps)
  next
    case True
    let ?m = "(low + high) div 2"
    have m: "low \<le> ?m" "?m < high" "?m < length ms" using True "1.prems"(3) by auto
    have loop: "search_loop ms i low high =
        (if fm_id (ms ! ?m) < i then search_loop ms i (?m + 1) high else search_loop ms i low ?m)"
      using True by (subst search_loop.simps) (simp add: Let_def)
    have mono: "fm_id (ms ! j) \<le> fm_id (ms ! k)" if "j \<le> k" "k < length ms" for j k
      using "1.prems"(1) that by (cases "j = k") (auto simp: sorted_wrt_iff_nth_less less_imp_le)
    show ?thesis
    proof (cases "fm_id (ms ! ?m) < i")
      case below: True
      have less: "fm_id (ms ! k) < i" if "k < ?m + 1" for k
      proof -
        have "fm_id (ms ! k) \<le> fm_id (ms ! ?m)" using mono [of k ?m] m that by simp
        with below show ?thesis by (rule le_less_trans [rotated])
      qed
      have "search_loop ms i low high = search_loop ms i (?m + 1) high" using loop below by simp
      then show ?thesis
        using "1.IH"(1) [OF True refl below "1.prems"(1) _ "1.prems"(3) less "1.prems"(5)] m(2) by simp
    next
      case above: False
      have ge: "i \<le> fm_id (ms ! k)" if "?m \<le> k" "k < length ms" for k
      proof -
        have "fm_id (ms ! ?m) \<le> fm_id (ms ! k)" using mono [of ?m k] that by simp
        with above show ?thesis by (auto intro: order_trans simp: not_less)
      qed
      have "search_loop ms i low high = search_loop ms i low ?m" using loop above by simp
      then show ?thesis
        using "1.IH"(2) [OF True refl above "1.prems"(1) m(1) _ "1.prems"(4) ge] m(3) by simp
    qed
  qed
qed

lemma search_is_find:
  assumes sorted: "sorted_wrt (\<lambda>a b. fm_id a < fm_id b) ms"
  shows "(case slice_get ms (search_loop ms i 0 (length ms)) of
      Some m \<Rightarrow> if fm_id m = i then Some m else None | None \<Rightarrow> None) = find (\<lambda>m. fm_id m = i) ms"
proof -
  let ?n = "search_loop ms i 0 (length ms)"
  have split: "\<forall>k < ?n. fm_id (ms ! k) < i" "\<forall>k. ?n \<le> k \<and> k < length ms \<longrightarrow> i \<le> fm_id (ms ! k)"
    using search_loop_split [OF sorted, of 0 "length ms" i] by simp_all
  show ?thesis
  proof (cases "?n < length ms \<and> fm_id (ms ! ?n) = i")
    case True
    then have "find (\<lambda>m. fm_id m = i) ms = Some (ms ! ?n)"
      using split(1) by (auto simp: find_Some_iff)
    with True show ?thesis by (simp add: slice_get_def)
  next
    case False
    have "fm_id (ms ! k) \<noteq> i" if k: "k < length ms" for k
    proof (cases "k < ?n")
      case True
      then show ?thesis using split(1) by blast
    next
      case ge: False
      show ?thesis
      proof (cases "k = ?n")
        case neq: False
        with ge k sorted have "fm_id (ms ! ?n) < fm_id (ms ! k)" by (simp add: sorted_wrt_iff_nth_less)
        moreover have "i \<le> fm_id (ms ! ?n)" using split(2) ge k by simp
        ultimately show ?thesis by auto
      qed (use False k in simp)
    qed
    then have "find (\<lambda>m. fm_id m = i) ms = None" by (auto simp: find_None_iff in_set_conv_nth)
    with False show ?thesis by (auto simp: slice_get_def)
  qed
qed

lemma messages_sorted: "sorted_wrt (\<lambda>a b. fm_id a < fm_id b) FOMOXA_MESSAGES"
  by (simp add: FOMOXA_MESSAGES_def WELCOME_GAME_def PLAYER_INPUT_GAME_def WORLD_SNAPSHOT_GAME_def
      PLAYER_STATE_GAME_def CLIENT_HELLO_GAME_def message_ids)

lemma fomoxa_message_find: "fomoxa_message i = find (\<lambda>m. fm_id m = i) FOMOXA_MESSAGES"
  unfolding fomoxa_message_def by (rule search_is_find [OF messages_sorted])

lemma message_prefixes:
  "fomoxa_message i = Some m \<Longrightarrow> fm_id m = i \<and> fm_prefixes m \<noteq> [] \<and> last (fm_prefixes m) = fm_fingerprint m \<and>
     distinct (fm_prefixes m) \<and> length (fm_prefixes m) \<le> 8"
proof -
  assume "fomoxa_message i = Some m"
  then have "m \<in> set FOMOXA_MESSAGES" "fm_id m = i"
    by (auto simp: fomoxa_message_find find_Some_iff)
  moreover have "list_all (\<lambda>m. fm_prefixes m \<noteq> [] \<and> last (fm_prefixes m) = fm_fingerprint m \<and>
     distinct (fm_prefixes m) \<and> length (fm_prefixes m) \<le> 8) FOMOXA_MESSAGES"
    by (simp add: FOMOXA_MESSAGES_def WELCOME_GAME_def PLAYER_INPUT_GAME_def WORLD_SNAPSHOT_GAME_def
        PLAYER_STATE_GAME_def CLIENT_HELLO_GAME_def)
  ultimately show ?thesis by (simp add: list_all_iff)
qed

section \<open>Properties\<close>

text \<open>
  C28: The binary search of \<^verbatim>\<open>fomoxa_message\<close> is the plain lookup by id in the table, for every
  \<^verbatim>\<open>u32\<close>: it finds the message when there is one and nothing otherwise.
\<close>

theorem fomoxa_message_is_lookup: "fomoxa_message i = find (\<lambda>m. fm_id m = i) FOMOXA_MESSAGES"
  by (rule fomoxa_message_find)

text \<open>
  The prefix rule: two field lists, given by the fingerprints of their prefixes, are compatible when
  they agree at the length of the shorter.
\<close>

definition compatible :: "u64 list \<Rightarrow> u64 list \<Rightarrow> bool" where
  "compatible ours theirs \<longleftrightarrow>
     (let k = min (length ours) (length theirs) in ours ! (k - 1) = theirs ! (k - 1))"

text \<open>
  C29: Against a peer whose message has the prefix fingerprints \<open>theirs\<close> (and sends only their number
  and the last one), \<^verbatim>\<open>fomoxa_message_check\<close> decides the prefix rule: when the peer has no more
  fields than this side, it answers \<^verbatim>\<open>Match\<close> exactly when the two are compatible and \<^verbatim>\<open>Reject\<close>
  otherwise; when the peer has more, it asks for the peer's prefix at this side's length, and the
  value that reply is compared with, \<^verbatim>\<open>fomoxa_prefix\<close> there, equals it exactly when the two are
  compatible. The hypothesis on the last entries rules out two different lists with one hash.
\<close>

theorem message_check_decides_prefix_rule:
  assumes known: "fomoxa_message i = Some m" and theirs: "theirs \<noteq> []" "length theirs < 2 ^ 32"
    and hash: "length theirs \<noteq> length (fm_prefixes m) \<Longrightarrow> last theirs \<noteq> fm_fingerprint m"
  shows "if length theirs \<le> length (fm_prefixes m)
    then message_check i (of_nat (length theirs)) (last theirs) =
      (if compatible (fm_prefixes m) theirs then Match else RejectMessage)
    else message_check i (of_nat (length theirs)) (last theirs) = NeedPrefix (of_nat (length (fm_prefixes m))) \<and>
      (fomoxa_prefix i (of_nat (length (fm_prefixes m))) = Some (theirs ! (length (fm_prefixes m) - 1)) \<longleftrightarrow>
         compatible (fm_prefixes m) theirs)"
proof -
  let ?ours = "fm_prefixes m"
  note m = message_prefixes [OF known]
  have last: "last theirs = theirs ! (length theirs - 1)" "fm_fingerprint m = ?ours ! (length ?ours - 1)"
    using theirs m last_conv_nth [of theirs] last_conv_nth [of ?ours] by simp_all
  have ours: "unat (of_nat (length ?ours) :: u32) = length ?ours" using m by (simp add: unat_of_nat)
  have their: "unat (of_nat (length theirs) :: u32) = length theirs" using theirs by (simp add: unat_of_nat)
  have pos: "0 < length ?ours" "0 < length theirs" using m theirs by simp_all
  have nz: "(of_nat (length ?ours) :: u32) \<noteq> 0" "(of_nat (length theirs) :: u32) \<noteq> 0"
    using ours their pos by (metis unat_0 less_irrefl)+
  have eq: "(of_nat (length theirs) :: u32) = of_nat (length ?ours) \<longleftrightarrow> length theirs = length ?ours"
    using ours their by metis
  have lt: "(of_nat (length theirs) :: u32) < of_nat (length ?ours) \<longleftrightarrow> length theirs < length ?ours"
    by (simp add: word_less_nat_alt ours their)
  have prefix: "fomoxa_prefix i (of_nat (length ?ours)) = Some (fm_fingerprint m)"
    using known nz(1) ours pos last by (simp add: fomoxa_prefix_def slice_get_def)
  consider "length theirs < length ?ours" | "length theirs = length ?ours" | "length ?ours < length theirs" by linarith
  then show ?thesis
  proof cases
    case 1
    then show ?thesis using nz eq lt hash their last
      by (auto simp: message_check_def known Let_def slice_get_def compatible_def)
  next
    case 2
    then show ?thesis using nz eq last
      by (auto simp: message_check_def known Let_def compatible_def)
  next
    case 3
    then show ?thesis using nz eq lt hash last prefix
      by (auto simp: message_check_def known Let_def compatible_def)
  qed
qed

theorem message_check_decides_prefix_rule_witness:
  "message_check 0x6984A5A4 3 0x5DE3D616C00C3176 = Match"
proof -
  have m: "fomoxa_message 0x6984A5A4 = Some PLAYER_INPUT_GAME"
    by (simp add: fomoxa_message_find FOMOXA_MESSAGES_def WELCOME_GAME_def PLAYER_INPUT_GAME_def message_ids)
  show ?thesis
    using message_check_decides_prefix_rule [OF m, of "[0xE80972CC3424521B, 0xFFD5ED0A3874CC2B, 0x5DE3D616C00C3176]"]
    by (simp add: PLAYER_INPUT_GAME_def compatible_def)
qed

lemma check_loop_spec:
  "check_loop ms need =
    (if list_ex (\<lambda>(i, n, f). message_check i n f = RejectMessage) ms then Reject
     else if need \<or> list_ex (\<lambda>(i, n, f). \<exists>k. message_check i n f = NeedPrefix k) ms then NeedMore
     else Outdated)"
proof (induction ms arbitrary: need)
  case (Cons p ms)
  obtain i n f where "p = (i, n, f)" by (cases p)
  then show ?case using Cons by (cases "message_check i n f") simp_all
qed simp

text \<open>
  C30: The whole-table handshake does not depend on the order of the peer's messages: it is
  \<^verbatim>\<open>Current\<close> on equal schema fingerprints; otherwise \<^verbatim>\<open>Reject\<close> exactly when some message is
  rejected, \<^verbatim>\<open>NeedMore\<close> when none is but some needs a prefix, and \<^verbatim>\<open>Outdated\<close> when all match.
\<close>

theorem handshake_outcome:
  "handshake schema ms =
    (if schema = FOMOXA_SCHEMA_FINGERPRINT then Current
     else if list_ex (\<lambda>(i, n, f). message_check i n f = RejectMessage) ms then Reject
     else if list_ex (\<lambda>(i, n, f). \<exists>k. message_check i n f = NeedPrefix k) ms then NeedMore
     else Outdated)"
  by (simp add: handshake_def check_loop_spec)

end
