(* ===== verification/Cli.thy ===== *)
theory Cli
  imports Prelude Handshake
begin

text \<open>
  \<^verbatim>\<open>server/src/cli.rs\<close>: flags on the command line. \<open>args\<close> is \<^verbatim>\<open>env::args()\<close>, the program's name first.
\<close>

definition has_flag :: "string list \<Rightarrow> string \<Rightarrow> bool" where
  "has_flag args name = list_ex (\<lambda>argument. argument = name) (drop 1 args)"

fun strip_prefix :: "string \<Rightarrow> string \<Rightarrow> string option" where
  "strip_prefix [] s = Some s"
| "strip_prefix (p # ps) [] = None"
| "strip_prefix (p # ps) (c # s) = (if p = c then strip_prefix ps s else None)"

text \<open>The \<^verbatim>\<open>find_map\<close> over \<^verbatim>\<open>arguments.iter().enumerate()\<close>, from position \<open>index\<close> on.\<close>

fun find_flag :: "string \<Rightarrow> string list \<Rightarrow> nat \<Rightarrow> string list \<Rightarrow> string option" where
  "find_flag name arguments index [] = None"
| "find_flag name arguments index (argument # rest) =
     (case (if argument = name then slice_get arguments (index + 1)
            else strip_prefix (name @ ''='') argument) of
        Some value \<Rightarrow> Some value
      | None \<Rightarrow> find_flag name arguments (index + 1) rest)"

definition flag :: "string list \<Rightarrow> string \<Rightarrow> string option" where
  "flag args name = (let arguments = drop 1 args in find_flag name arguments 0 arguments)"

section \<open>Reference\<close>

lemma strip_prefix_iff: "strip_prefix p s = Some v \<longleftrightarrow> s = p @ v"
  by (induction p s rule: strip_prefix.induct) auto

fun flag_value :: "string \<Rightarrow> string list \<Rightarrow> string option" where
  "flag_value name [] = None"
| "flag_value name (argument # rest) =
     (if argument = name then (case rest of [] \<Rightarrow> None | value # _ \<Rightarrow> Some value)
      else case strip_prefix (name @ ''='') argument of
        Some value \<Rightarrow> Some value
      | None \<Rightarrow> flag_value name rest)"

lemma find_flag_value: "find_flag name (before @ rest) (length before) rest = flag_value name rest"
proof (induction rest arbitrary: before)
  case (Cons argument rest)
  have "find_flag name (before @ argument # rest) (Suc (length before)) rest = flag_value name rest"
    using Cons.IH [of "before @ [argument]"] by simp
  then show ?case
    by (cases rest) (auto simp: slice_get_def nth_append split: option.split)
qed simp

text \<open>
  C31: \<^verbatim>\<open>flag(name)\<close> reads the arguments left to right: the first one equal to the name gives the
  argument after it, the first of the form \<^verbatim>\<open>name=value\<close> gives the value, whichever comes first; a
  name with nothing after it gives nothing. The program's own name is never looked at.
\<close>

theorem flag_reads_left_to_right: "flag (program # arguments) name = flag_value name arguments"
  using find_flag_value [of name "[]" arguments] by (simp add: flag_def)

end
