(* ===== verification/Game.thy ===== *)
theory Game
  imports Peers Handshake Cli Protocol_Laws World_Reach
begin

text \<open>
  \<^verbatim>\<open>server/src/main.rs\<close>: the game loop. The network library \<^verbatim>\<open>fomoxa_net\<close>, the clock and the
  sleep are the parameter \<open>env\<close>, a record of functions on a state of their own: nothing is assumed of
  what they return. An event's reason and a send error are their texts. Log lines are values that
  carry what the code interpolates.
\<close>

section \<open>The environment\<close>

datatype event =
    Connected
  | Ready
  | HandshakeFailed string
  | Disconnected string
  | Message u32 "u8 list"
  | Probe
  | Ack

datatype send_error = Congested | SendFailed string

record ('e, 'p) environment =
  env_tick_now :: "'e \<Rightarrow> ('p \<times> event) list \<times> 'e"
  env_send :: "'e \<Rightarrow> 'p \<Rightarrow> u32 \<Rightarrow> u8 list \<Rightarrow> (send_error + unit) \<times> 'e"
  env_peer_addr :: "'e \<Rightarrow> 'p \<Rightarrow> string option"
  env_now :: "'e \<Rightarrow> instant \<times> 'e"
  env_sleep :: "duration \<Rightarrow> 'e \<Rightarrow> 'e"
  env_show_peer :: "'p \<Rightarrow> string"

section \<open>Inbound\<close>

datatype 'p inbound =
    PeerConnected 'p
  | HandshakeAccepted 'p
  | HandshakeRefused 'p string
  | Hello 'p ClientHello
  | Input 'p PlayerInput
  | Undecodable 'p string string
  | Unexpected 'p u32
  | PeerDisconnected 'p string

definition inbound_of :: "'p \<times> event \<Rightarrow> 'p inbound option" where
  "inbound_of seen = (case seen of (peer, e) \<Rightarrow> (case e of
       Connected \<Rightarrow> Some (PeerConnected peer)
     | Ready \<Rightarrow> Some (HandshakeAccepted peer)
     | HandshakeFailed reason \<Rightarrow> Some (HandshakeRefused peer reason)
     | Disconnected reason \<Rightarrow> Some (PeerDisconnected peer reason)
     | Message i payload \<Rightarrow>
         if i = CLIENT_HELLO_GAME_MESSAGE_ID then
           (case decode_client_hello payload of Inr hello \<Rightarrow> Some (Hello peer hello)
            | Inl error \<Rightarrow> Some (Undecodable peer ''ClientHello'' (show_decode_error error)))
         else if i = PLAYER_INPUT_GAME_MESSAGE_ID then
           (case decode_player_input payload of Inr i \<Rightarrow> Some (Input peer i)
            | Inl error \<Rightarrow> Some (Undecodable peer ''PlayerInput'' (show_decode_error error)))
         else Some (Unexpected peer i)
     | Probe \<Rightarrow> None
     | Ack \<Rightarrow> None))"

definition drain_events :: "('e, 'p) environment \<Rightarrow> 'e \<Rightarrow> 'p inbound list \<times> 'e" where
  "drain_events env server = (case env_tick_now env server of (seen, server') \<Rightarrow>
     (List.map_filter inbound_of seen, server'))"

section \<open>The game\<close>

record profile =
  pf_ticks :: u32
  pf_loops :: u32
  pf_events :: duration
  pf_step :: duration
  pf_encode :: duration
  pf_send :: duration

definition default_profile :: profile where
  "default_profile = \<lparr>pf_ticks = 0, pf_loops = 0, pf_events = 0, pf_step = 0, pf_encode = 0, pf_send = 0\<rparr>"

datatype 'p log_line =
    LogConnect 'p string nat
  | LogHandshakeAccepted 'p string
  | LogHandshakeRefused 'p string string
  | LogJoinedAgain 'p
  | LogJoin string string 'p
  | LogRoster string
  | LogUndecodable 'p string string string
  | LogUnexpected 'p string u32
  | LogLeave string string 'p f32 string
  | LogDisconnect 'p string f32 string string
  | LogWelcomeFailed 'p string
  | LogListening string string string
  | LogStatus u32 nat string nat nat
  | LogProfile profile duration

record ('e, 'p) game =
  g_server :: 'e
  g_world :: "'p world"
  g_directory :: "'p directory"
  g_pending :: "('p, unit) btree"
  g_quiet :: bool
  g_sent :: nat
  g_dropped :: nat
  g_profile :: profile
  g_log :: "'p log_line list"

definition log_line :: "'p log_line \<Rightarrow> ('e, 'p) game \<Rightarrow> ('e, 'p) game" where
  "log_line line g = g\<lparr>g_log := g_log g @ [line]\<rparr>"

definition read_clock :: "('e, 'p) environment \<Rightarrow> ('e, 'p) game \<Rightarrow> instant \<times> ('e, 'p) game" where
  "read_clock env g = (case env_now env (g_server g) of (now, server) \<Rightarrow> (now, g\<lparr>g_server := server\<rparr>))"

definition unless_quiet :: "(('e, 'p) game \<Rightarrow> ('e, 'p) game) \<Rightarrow> ('e, 'p) game \<Rightarrow> ('e, 'p) game" where
  "unless_quiet f g = (if g_quiet g then g else f g)"

definition log_roster :: "('e, 'p) environment \<Rightarrow> ('e, 'p) game \<Rightarrow> ('e, 'p) game" where
  "log_roster env g = log_line (LogRoster (roster (env_show_peer env) (g_world g) (g_directory g))) g"

definition forget :: "('e, 'p::linorder) environment \<Rightarrow> 'p \<Rightarrow> instant \<Rightarrow> string \<Rightarrow> ('e, 'p) game \<Rightarrow> ('e, 'p) game" where
  "forget env peer now reason g =
    (let g = g\<lparr>g_pending := bt_remove peer (g_pending g)\<rparr>;
         (record, directory) = directory_remove peer (g_directory g);
         g = g\<lparr>g_directory := directory\<rparr>;
         address = (case record of None \<Rightarrow> ''unknown address'' | Some r \<Rightarrow> record_address_label r);
         connected = (case record of None \<Rightarrow> 0 | Some r \<Rightarrow> as_secs_f32 (connected_for r now));
         (left, world) = leave peer (g_world g);
         g = g\<lparr>g_world := world\<rparr>
      in if g_quiet g then g
         else (case left of
             Some player \<Rightarrow> log_roster env
               (log_line (LogLeave (describe_player player) address peer connected reason) g)
           | None \<Rightarrow> log_line (LogDisconnect peer address connected
               (case record of Some r \<Rightarrow> if pr_handshake_accepted r then ''before sending ClientHello'' else ''during handshake''
                | None \<Rightarrow> ''before connecting'') reason) g))"

definition handle_hello :: "('e, 'p::linorder) environment \<Rightarrow> trig \<Rightarrow> 'p \<Rightarrow> ClientHello \<Rightarrow> ('e, 'p) game \<Rightarrow> ('e, 'p) game" where
  "handle_hello env trig peer hello g =
    (if world_player (g_world g) peer \<noteq> None then log_line (LogJoinedAgain peer) g
     else
       let g = g\<lparr>g_world := snd (join trig peer (ch_client_kind hello) (ch_display_name hello) (g_world g))\<rparr>;
           g = g\<lparr>g_pending := bt_insert peer () (g_pending g)\<rparr>
        in if g_quiet g then g
           else
             let g = (case world_player (g_world g) peer of
                   Some player \<Rightarrow> log_line (LogJoin (describe_player player)
                     (directory_address_label (g_directory g) peer) peer) g
                 | None \<Rightarrow> g)
             in log_roster env g)"

definition handle :: "('e, 'p::linorder) environment \<Rightarrow> trig \<Rightarrow> 'p inbound \<Rightarrow> ('e, 'p) game \<Rightarrow> ('e, 'p) game" where
  "handle env trig inbound g = (case read_clock env g of (now, g) \<Rightarrow>
    (case inbound of
       PeerConnected peer \<Rightarrow>
         let g = g\<lparr>g_directory := directory_connect peer (env_peer_addr env (g_server g) peer) now (g_directory g)\<rparr>
         in unless_quiet (\<lambda>g. log_line (LogConnect peer (directory_address_label (g_directory g) peer)
              (directory_len (g_directory g))) g) g
     | HandshakeAccepted peer \<Rightarrow>
         let g = g\<lparr>g_directory := accept_handshake peer (g_directory g)\<rparr>
         in unless_quiet (\<lambda>g. log_line (LogHandshakeAccepted peer (directory_address_label (g_directory g) peer)) g) g
     | HandshakeRefused peer reason \<Rightarrow>
         forget env peer now reason
           (log_line (LogHandshakeRefused peer (directory_address_label (g_directory g) peer) reason) g)
     | Hello peer hello \<Rightarrow> handle_hello env trig peer hello g
     | Input peer i \<Rightarrow> g\<lparr>g_world := snd (apply_input peer i (g_world g))\<rparr>
     | Undecodable peer message error \<Rightarrow>
         log_line (LogUndecodable peer (directory_address_label (g_directory g) peer) message error) g
     | Unexpected peer i \<Rightarrow>
         log_line (LogUnexpected peer (directory_address_label (g_directory g) peer) i) g
     | PeerDisconnected peer reason \<Rightarrow> forget env peer now reason g))"

section \<open>Sending\<close>

definition welcome_for :: "player \<Rightarrow> Welcome" where
  "welcome_for player = \<lparr>wl_player_id = pl_id player, wl_plane_half_size = PLANE_HALF_SIZE, wl_tick_rate = TICK_RATE\<rparr>"

text \<open>\<^verbatim>\<open>pending_welcomes.retain(...)\<close>, over the set's keys in order: the keys kept, with the environment and log after.\<close>

fun retain_welcomes :: "('e, 'p::linorder) environment \<Rightarrow> 'p list \<Rightarrow> ('e, 'p) game \<Rightarrow> 'p list \<times> ('e, 'p) game" where
  "retain_welcomes env [] g = ([], g)"
| "retain_welcomes env (peer # peers) g =
    (case world_player (g_world g) peer of
       None \<Rightarrow> retain_welcomes env peers g
     | Some player \<Rightarrow>
        (case env_send env (g_server g) peer WELCOME_GAME_MESSAGE_ID (encode_welcome (welcome_for player)) of
           (Inr ok, server) \<Rightarrow> retain_welcomes env peers (g\<lparr>g_server := server\<rparr>)
         | (Inl Congested, server) \<Rightarrow>
             (case retain_welcomes env peers (g\<lparr>g_server := server\<rparr>) of (kept, g) \<Rightarrow> (peer # kept, g))
         | (Inl (SendFailed error), server) \<Rightarrow>
             retain_welcomes env peers (log_line (LogWelcomeFailed peer error) (g\<lparr>g_server := server\<rparr>))))"

definition flush_welcomes :: "('e, 'p::linorder) environment \<Rightarrow> ('e, 'p) game \<Rightarrow> ('e, 'p) game" where
  "flush_welcomes env g = (case retain_welcomes env (bt_keys (g_pending g)) g of (kept, g) \<Rightarrow>
     g\<lparr>g_pending := map (\<lambda>peer. (peer, ())) kept\<rparr>)"

fun send_to_all :: "('e, 'p) environment \<Rightarrow> u8 list \<Rightarrow> 'p list \<Rightarrow> ('e, 'p) game \<Rightarrow> ('e, 'p) game" where
  "send_to_all env payload [] g = g"
| "send_to_all env payload (peer # peers) g =
    (case env_send env (g_server g) peer WORLD_SNAPSHOT_GAME_MESSAGE_ID payload of
       (Inr ok, server) \<Rightarrow> send_to_all env payload peers (g\<lparr>g_server := server, g_sent := g_sent g + 1\<rparr>)
     | (Inl error, server) \<Rightarrow> send_to_all env payload peers (g\<lparr>g_server := server, g_dropped := g_dropped g + 1\<rparr>))"

text \<open>\<open>None\<close> is the panic of the encoder, on more than \<^verbatim>\<open>u32::MAX\<close> players.\<close>

definition broadcast_snapshot :: "('e, 'p) environment \<Rightarrow> ('e, 'p) game \<Rightarrow> ('e, 'p) game option" where
  "broadcast_snapshot env g =
    (case read_clock env g of (encode_started, g) \<Rightarrow>
     (case encode_world_snapshot (snapshot (g_world g)) of None \<Rightarrow> None
      | Some payload \<Rightarrow>
         (case read_clock env g of (send_started, g) \<Rightarrow>
          let g = g\<lparr>g_profile := (g_profile g)\<lparr>pf_encode := pf_encode (g_profile g) + since send_started encode_started\<rparr>\<rparr>;
              g = send_to_all env payload (world_peers (g_world g)) g
          in (case read_clock env g of (now, g) \<Rightarrow>
             Some (g\<lparr>g_profile := (g_profile g)\<lparr>pf_send := pf_send (g_profile g) + since now send_started\<rparr>\<rparr>)))))"

section \<open>The loop\<close>

definition DEFAULT_STATUS_INTERVAL_SECONDS :: nat where
  "DEFAULT_STATUS_INTERVAL_SECONDS = 30"

definition IDLE_SLEEP :: duration where
  "IDLE_SLEEP = from_millis 2"

record ('e, 'p) server_state =
  s_game :: "('e, 'p) game"
  s_next_step :: instant
  s_status_since :: instant
  s_next_status :: "instant option"

definition tick :: "('e, 'p) environment \<Rightarrow> instant \<Rightarrow> ('e, 'p) server_state \<Rightarrow> ('e, 'p) server_state option" where
  "tick env now s =
    (let g = s_game s;
         g = g\<lparr>g_world := world_step TICK_DT (g_world g)\<rparr>
     in (case read_clock env g of (stepped, g) \<Rightarrow>
        let g = g\<lparr>g_profile := (g_profile g)\<lparr>pf_step := pf_step (g_profile g) + since stepped now\<rparr>\<rparr>
        in (case broadcast_snapshot env g of None \<Rightarrow> None
            | Some g \<Rightarrow>
               let g = g\<lparr>g_profile := (g_profile g)\<lparr>pf_ticks := pf_ticks (g_profile g) + 1\<rparr>\<rparr>;
                   next_step = s_next_step s + TICK_STEP;
                   next_step = (if next_step \<le> now then now + TICK_STEP else next_step)
               in Some (s\<lparr>s_game := g, s_next_step := next_step\<rparr>))))"

definition report_status ::
    "('e, 'p) environment \<Rightarrow> bool \<Rightarrow> nat \<Rightarrow> instant \<Rightarrow> ('e, 'p) server_state \<Rightarrow> ('e, 'p) server_state" where
  "report_status env profiling status_interval now s =
    (case s_next_status s of
       None \<Rightarrow> s
     | Some due \<Rightarrow>
        if now < due then s
        else
          let g = s_game s;
              g = log_line (LogStatus (wd_tick (g_world g)) (directory_len (g_directory g))
                    (if g_quiet g then ''online '' @ show_nat (player_count (g_world g))
                     else roster (env_show_peer env) (g_world g) (g_directory g))
                    (g_sent g) (g_dropped g)) g;
              g = (if profiling then log_line (LogProfile (g_profile g) (since now (s_status_since s))) g else g);
              g = g\<lparr>g_profile := default_profile\<rparr>
          in s\<lparr>s_game := g, s_status_since := now, s_next_status := Some (due + from_secs status_interval)\<rparr>)"

text \<open>The first half of a turn of \<^verbatim>\<open>loop { ... }\<close>: the events, the welcomes, and the time the rest goes by.\<close>

definition poll ::
    "('e, 'p::linorder) environment \<Rightarrow> trig \<Rightarrow> ('e, 'p) server_state \<Rightarrow> instant \<times> ('e, 'p) server_state" where
  "poll env trig s =
    (case read_clock env (s_game s) of (loop_started, g) \<Rightarrow>
     (case drain_events env (g_server g) of (inbounds, server) \<Rightarrow>
      let g = fold (handle env trig) inbounds (g\<lparr>g_server := server\<rparr>);
          g = flush_welcomes env g
      in (case read_clock env g of (now, g) \<Rightarrow>
          let g = g\<lparr>g_profile := (g_profile g)\<lparr>pf_events := pf_events (g_profile g) + since now loop_started,
                                                 pf_loops := pf_loops (g_profile g) + 1\<rparr>\<rparr>
          in (now, s\<lparr>s_game := g\<rparr>))))"

definition turn ::
    "('e, 'p::linorder) environment \<Rightarrow> trig \<Rightarrow> bool \<Rightarrow> nat \<Rightarrow> ('e, 'p) server_state \<Rightarrow> ('e, 'p) server_state option" where
  "turn env trig profiling status_interval s =
    (case poll env trig s of (now, s) \<Rightarrow>
      (case (if s_next_step s \<le> now then tick env now s else Some s) of None \<Rightarrow> None
       | Some s \<Rightarrow>
          let s = report_status env profiling status_interval now s;
              g = s_game s
          in Some (s\<lparr>s_game := g\<lparr>g_server := env_sleep env IDLE_SLEEP (g_server g)\<rparr>\<rparr>)))"

section \<open>Start\<close>

definition DEFAULT_ADDRESS :: string where
  "DEFAULT_ADDRESS = ''0.0.0.0:9321''"

definition parse_u64 :: "string \<Rightarrow> nat option" where
  "parse_u64 = parse_uint 64"

record server_options =
  so_address :: string
  so_quiet :: bool
  so_profiling :: bool
  so_status_interval :: nat

definition read_options :: "string list \<Rightarrow> server_options" where
  "read_options args = \<lparr>
     so_address = (case flag args ''--addr'' of Some a \<Rightarrow> a | None \<Rightarrow> DEFAULT_ADDRESS),
     so_quiet = has_flag args ''--quiet'',
     so_profiling = has_flag args ''--profile'',
     so_status_interval = (case Option.bind (flag args ''--status-interval'') parse_u64 of Some n \<Rightarrow> n
       | None \<Rightarrow> DEFAULT_STATUS_INTERVAL_SECONDS)\<rparr>"

definition game_new :: "'e \<Rightarrow> bool \<Rightarrow> ('e, 'p) game" where
  "game_new server quiet = \<lparr>g_server = server, g_world = world_new, g_directory = directory_new, g_pending = bt_empty,
     g_quiet = quiet, g_sent = 0, g_dropped = 0, g_profile = default_profile, g_log = []\<rparr>"

text \<open>What \<^verbatim>\<open>main\<close> sets up before the loop, given its parsed flags and a bound listener.\<close>

definition start_server ::
    "('e, 'p) environment \<Rightarrow> string \<Rightarrow> bool \<Rightarrow> nat \<Rightarrow> 'e \<Rightarrow> ('e, 'p) server_state" where
  "start_server env address quiet status_interval server =
    (case read_clock env (game_new server quiet) of (now1, g) \<Rightarrow>
     (case read_clock env g of (now2, g) \<Rightarrow>
      (case (if 0 < status_interval then map_prod (\<lambda>now. Some (now + from_secs status_interval)) id (read_clock env g)
             else (None, g)) of (next_status, g) \<Rightarrow>
        \<lparr>s_game = log_line (LogListening address
             (if 0 < status_interval then show_nat status_interval @ ''s'' else ''never'')
             (if quiet then '', per-peer logs off'' else '''')) g,
         s_next_step = now1 + TICK_STEP, s_status_since = now2, s_next_status = next_status\<rparr>)))"

fun turns ::
    "('e, 'p::linorder) environment \<Rightarrow> trig \<Rightarrow> bool \<Rightarrow> nat \<Rightarrow> nat \<Rightarrow> ('e, 'p) server_state \<Rightarrow> ('e, 'p) server_state option" where
  "turns env trig profiling status_interval 0 s = Some s"
| "turns env trig profiling status_interval (Suc n) s =
    (case turn env trig profiling status_interval s of None \<Rightarrow> None
     | Some s \<Rightarrow> turns env trig profiling status_interval n s)"

end
