(* ===== verification/Game_Laws.thy ===== *)
theory Game_Laws
  imports Game
begin

text \<open>
  What each part of the game loop does to the world, the directory and the pending welcomes, the
  invariant that ties them together, and the phases of a connection.
\<close>

section \<open>Effects\<close>

lemma log_line_simps [simp]:
  "g_world (log_line l g) = g_world g" "g_directory (log_line l g) = g_directory g"
  "g_pending (log_line l g) = g_pending g" "g_quiet (log_line l g) = g_quiet g"
  "g_server (log_line l g) = g_server g" "g_profile (log_line l g) = g_profile g"
  "g_sent (log_line l g) = g_sent g" "g_dropped (log_line l g) = g_dropped g"
  by (simp_all add: log_line_def)

lemma log_roster_simps [simp]:
  "g_world (log_roster env g) = g_world g" "g_directory (log_roster env g) = g_directory g"
  "g_pending (log_roster env g) = g_pending g"
  by (simp_all add: log_roster_def)

lemma read_clock_simps [simp]:
  "g_world (snd (read_clock env g)) = g_world g" "g_directory (snd (read_clock env g)) = g_directory g"
  "g_pending (snd (read_clock env g)) = g_pending g" "g_sent (snd (read_clock env g)) = g_sent g"
  "g_dropped (snd (read_clock env g)) = g_dropped g"
  by (simp_all add: read_clock_def split: prod.split)

lemma forget_simps [simp]:
  "g_world (forget env peer now reason g) = snd (leave peer (g_world g))"
  "g_directory (forget env peer now reason g) = snd (directory_remove peer (g_directory g))"
  "g_pending (forget env peer now reason g) = bt_remove peer (g_pending g)"
  by (simp_all add: forget_def Let_def split: prod.split option.split)

definition world_effect :: "trig \<Rightarrow> 'p::linorder inbound \<Rightarrow> 'p world \<Rightarrow> 'p world" where
  "world_effect trig inbound w = (case inbound of
     Hello peer hello \<Rightarrow> snd (join trig peer (ch_client_kind hello) (ch_display_name hello) w)
   | Input peer i \<Rightarrow> snd (apply_input peer i w)
   | HandshakeRefused peer reason \<Rightarrow> snd (leave peer w)
   | PeerDisconnected peer reason \<Rightarrow> snd (leave peer w)
   | _ \<Rightarrow> w)"

definition directory_effect :: "string option \<Rightarrow> instant \<Rightarrow> 'p::linorder inbound \<Rightarrow> 'p directory \<Rightarrow> 'p directory" where
  "directory_effect address now inbound d = (case inbound of
     PeerConnected peer \<Rightarrow> directory_connect peer address now d
   | HandshakeAccepted peer \<Rightarrow> accept_handshake peer d
   | HandshakeRefused peer reason \<Rightarrow> snd (directory_remove peer d)
   | PeerDisconnected peer reason \<Rightarrow> snd (directory_remove peer d)
   | _ \<Rightarrow> d)"

definition pending_effect :: "'p::linorder world \<Rightarrow> 'p inbound \<Rightarrow> ('p, unit) btree \<Rightarrow> ('p, unit) btree" where
  "pending_effect w inbound m = (case inbound of
     Hello peer hello \<Rightarrow> if world_player w peer = None then bt_insert peer () m else m
   | HandshakeRefused peer reason \<Rightarrow> bt_remove peer m
   | PeerDisconnected peer reason \<Rightarrow> bt_remove peer m
   | _ \<Rightarrow> m)"

lemma unless_quiet_simps:
  "(\<And>g. g_world (f g) = g_world g) \<Longrightarrow> g_world (unless_quiet f g) = g_world g"
  "(\<And>g. g_directory (f g) = g_directory g) \<Longrightarrow> g_directory (unless_quiet f g) = g_directory g"
  "(\<And>g. g_pending (f g) = g_pending g) \<Longrightarrow> g_pending (unless_quiet f g) = g_pending g"
  by (simp_all add: unless_quiet_def)

lemma hello_simps [simp]:
  "g_world (handle_hello env trig peer hello g) =
     snd (join trig peer (ch_client_kind hello) (ch_display_name hello) (g_world g))"
  "g_directory (handle_hello env trig peer hello g) = g_directory g"
  "g_pending (handle_hello env trig peer hello g) =
     (if world_player (g_world g) peer = None then bt_insert peer () (g_pending g) else g_pending g)"
  by (auto simp: handle_hello_def Let_def join_def world_player_def split: option.split)

lemma handle_effects:
  "g_world (handle env trig inbound g) = world_effect trig inbound (g_world g)"
  "\<exists>address now. g_directory (handle env trig inbound g) = directory_effect address now inbound (g_directory g)"
  "g_pending (handle env trig inbound g) = pending_effect (g_world g) inbound (g_pending g)"
proof -
  obtain now g' where clock: "read_clock env g = (now, g')" by (cases "read_clock env g")
  have g': "g_world g' = g_world g" "g_directory g' = g_directory g" "g_pending g' = g_pending g"
    using read_clock_simps [of env g] by (simp_all add: clock)
  show "g_world (handle env trig inbound g) = world_effect trig inbound (g_world g)"
    using g' by (cases inbound) (simp_all add: handle_def clock world_effect_def Let_def unless_quiet_simps)
  show "\<exists>address now. g_directory (handle env trig inbound g) = directory_effect address now inbound (g_directory g)"
    using g' by (cases inbound) (auto simp: handle_def clock directory_effect_def Let_def unless_quiet_simps)
  show "g_pending (handle env trig inbound g) = pending_effect (g_world g) inbound (g_pending g)"
    using g' by (cases inbound) (simp_all add: handle_def clock pending_effect_def Let_def unless_quiet_simps)
qed

section \<open>Invariant\<close>

definition linked :: "('e, 'p::linorder) game \<Rightarrow> bool" where
  "linked g \<longleftrightarrow> bt_ok (wd_players (g_world g)) \<and> bt_ok (g_directory g) \<and> bt_ok (g_pending g) \<and>
     set (bt_keys (g_pending g)) \<subseteq> set (world_peers (g_world g))"

definition game_ok :: "('e, 'p::linorder) game \<Rightarrow> bool" where
  "game_ok g \<longleftrightarrow> world_ok (g_world g) \<and> linked g"

lemma world_peers_player: "set (world_peers w) = {k. world_player w k \<noteq> None}"
  by (auto simp: world_peers_def world_player_def bt_keys_get)

lemma pending_player: "set (bt_keys m) \<subseteq> set (world_peers w) \<longleftrightarrow> (\<forall>k. bt_get m k \<noteq> None \<longrightarrow> world_player w k \<noteq> None)"
  using bt_keys_get [of _ m] by (force simp: world_peers_player)

definition is_hello :: "'p inbound \<Rightarrow> bool" where
  "is_hello inbound = (case inbound of Hello peer hello \<Rightarrow> True | _ \<Rightarrow> False)"

definition room :: "('e, 'p::linorder) game \<Rightarrow> nat \<Rightarrow> bool" where
  "room g n \<longleftrightarrow> unat (wd_next_player_id (g_world g)) + n < 2 ^ 32"

lemma world_effect_ok:
  assumes "world_ok w" "trig_ok trig" "is_hello inbound \<Longrightarrow> unat (wd_next_player_id w) < 2 ^ 32 - 1"
  shows "world_ok (world_effect trig inbound w)"
  using assms by (cases inbound) (auto simp: world_effect_def is_hello_def intro: join_ok leave_ok apply_input_ok)

lemma world_effect_next:
  "unat (wd_next_player_id (world_effect trig inbound w)) \<le> unat (wd_next_player_id w) + (if is_hello inbound then 1 else 0)"
proof -
  have "unat (wd_next_player_id w + 1) \<le> Suc (unat (wd_next_player_id w))"
    by (auto simp: unat_plus_if_size)
  then show ?thesis by (cases inbound) (simp_all add: world_effect_def is_hello_def next_id)
qed

lemma handle_linked:
  assumes "linked g"
  shows "linked (handle env trig inbound g)"
proof -
  let ?g = "handle env trig inbound g"
  have bt: "bt_ok (wd_players (g_world g))" "bt_ok (g_directory g)" "bt_ok (g_pending g)"
    and sub: "\<forall>k. bt_get (g_pending g) k \<noteq> None \<longrightarrow> world_player (g_world g) k \<noteq> None"
    using assms by (simp_all add: linked_def pending_player)
  obtain address now where d: "g_directory ?g = directory_effect address now inbound (g_directory g)"
    using handle_effects(2) [of env trig inbound g] by blast
  have "bt_ok (wd_players (g_world ?g))" "bt_ok (g_directory ?g)" "bt_ok (g_pending ?g)"
    using bt unfolding handle_effects(1,3) d
    by (cases inbound; simp add: world_effect_def directory_effect_def pending_effect_def bt_ok_ops)+
  moreover have "\<forall>k. bt_get (g_pending ?g) k \<noteq> None \<longrightarrow> world_player (g_world ?g) k \<noteq> None"
    unfolding handle_effects using bt sub
    by (cases inbound) (auto simp: pending_effect_def world_effect_def bt_get_insert bt_get_remove
        player_join player_leave player_apply_input)
  ultimately show ?thesis by (simp add: linked_def pending_player)
qed

lemma handle_ok:
  assumes "game_ok g" and trig: "trig_ok trig" and room: "is_hello inbound \<Longrightarrow> room g 1"
  shows "game_ok (handle env trig inbound g)"
proof -
  have "world_ok (g_world (handle env trig inbound g))"
    unfolding handle_effects using assms by (intro world_effect_ok) (auto simp: game_ok_def room_def)
  then show ?thesis using assms(1) handle_linked [of g env trig inbound] by (simp add: game_ok_def)
qed

lemma handle_next:
  "unat (wd_next_player_id (g_world (handle env trig inbound g))) \<le>
     unat (wd_next_player_id (g_world g)) + (if is_hello inbound then 1 else 0)"
  unfolding handle_effects by (rule world_effect_next)

lemma fold_handle_ok:
  assumes "game_ok g" "trig_ok trig" "room g (length inbounds)"
  shows "game_ok (fold (handle env trig) inbounds g) \<and>
    unat (wd_next_player_id (g_world (fold (handle env trig) inbounds g)))
      \<le> unat (wd_next_player_id (g_world g)) + length inbounds"
  using assms
proof (induction inbounds arbitrary: g)
  case (Cons i inbounds)
  let ?g = "handle env trig i g"
  have next_le: "unat (wd_next_player_id (g_world ?g)) \<le> unat (wd_next_player_id (g_world g)) + 1"
    using handle_next [of env trig i g] by (simp split: if_splits)
  have "game_ok ?g" using Cons.prems by (intro handle_ok) (simp_all add: room_def)
  moreover have "room ?g (length inbounds)" using next_le Cons.prems(3) by (simp add: room_def)
  ultimately show ?case using Cons.IH [of ?g] next_le Cons.prems(2) by simp
qed simp

section \<open>Welcomes\<close>

text \<open>What \<^verbatim>\<open>flush_welcomes\<close> sends: each peer with the player it is for, and the result.\<close>

fun welcome_trace :: "('e, 'p::linorder) environment \<Rightarrow> 'p world \<Rightarrow> 'p list \<Rightarrow> 'e \<Rightarrow> ('p \<times> player \<times> (send_error + unit)) list" where
  "welcome_trace env w [] server = []"
| "welcome_trace env w (peer # peers) server =
    (case world_player w peer of
       None \<Rightarrow> welcome_trace env w peers server
     | Some player \<Rightarrow>
        (case env_send env server peer WELCOME_GAME_MESSAGE_ID (encode_welcome (welcome_for player)) of
           (result, server') \<Rightarrow> (peer, player, result) # welcome_trace env w peers server'))"

lemma retain_trace_all:
  "fst (retain_welcomes env peers g) =
     map fst (filter (\<lambda>(peer, player, result). result = Inl Congested) (welcome_trace env (g_world g) peers (g_server g)))
   \<and> g_world (snd (retain_welcomes env peers g)) = g_world g \<and> g_directory (snd (retain_welcomes env peers g)) = g_directory g"
proof (induction peers arbitrary: g)
  case (Cons peer peers)
  show ?case
  proof (cases "world_player (g_world g) peer")
    case None
    then show ?thesis using Cons [of g] by simp
  next
    case (Some player)
    obtain result server where send:
      "env_send env (g_server g) peer WELCOME_GAME_MESSAGE_ID (encode_welcome (welcome_for player)) = (result, server)"
      by (cases "env_send env (g_server g) peer WELCOME_GAME_MESSAGE_ID (encode_welcome (welcome_for player))")
    show ?thesis
    proof (cases result)
      case (Inr ok)
      then show ?thesis using Cons [of "g\<lparr>g_server := server\<rparr>"] Some send by simp
    next
      case (Inl e)
      show ?thesis
      proof (cases e)
        case Congested
        then show ?thesis using Cons [of "g\<lparr>g_server := server\<rparr>"] Some send Inl
          by (cases "retain_welcomes env peers (g\<lparr>g_server := server\<rparr>)") simp
      next
        case (SendFailed reason)
        then show ?thesis
          using Cons [of "log_line (LogWelcomeFailed peer reason) (g\<lparr>g_server := server\<rparr>)"] Some send Inl by simp
      qed
    qed
  qed
qed simp

lemmas retain_trace = retain_trace_all [THEN conjunct1] retain_trace_all [THEN conjunct2, THEN conjunct1]
  retain_trace_all [THEN conjunct2, THEN conjunct2]

lemma trace_peers: "map (\<lambda>(peer, player, result). (peer, Some player)) (welcome_trace env w peers server) =
    map (\<lambda>peer. (peer, world_player w peer)) (filter (\<lambda>peer. world_player w peer \<noteq> None) peers)"
  by (induction env w peers server rule: welcome_trace.induct) (auto split: option.split prod.split)

lemma trace_subset: "fst ` set (welcome_trace env w peers server) \<subseteq> set peers"
proof (induction peers arbitrary: server)
  case (Cons peer peers)
  show ?case
  proof (cases "world_player w peer")
    case None
    with Cons [of server] show ?thesis by auto
  next
    case (Some player)
    obtain result server' where "env_send env server peer WELCOME_GAME_MESSAGE_ID (encode_welcome (welcome_for player)) = (result, server')"
      by (cases "env_send env server peer WELCOME_GAME_MESSAGE_ID (encode_welcome (welcome_for player))")
    with Some Cons [of server'] show ?thesis by auto
  qed
qed simp

lemma kept_sublist: "set (map fst (filter P (welcome_trace env w peers server))) \<subseteq> set peers"
  using trace_subset [of env w peers server] by auto

lemma kept_sorted:
  "sorted_wrt (<) peers \<Longrightarrow> sorted_wrt (<) (map fst (filter P (welcome_trace env w peers server)))"
proof (induction env w peers server rule: welcome_trace.induct)
  case (2 env w peer peers server)
  show ?case
  proof (cases "world_player w peer")
    case (Some player)
    obtain result server' where send: "env_send env server peer WELCOME_GAME_MESSAGE_ID (encode_welcome (welcome_for player)) = (result, server')"
      by (cases "env_send env server peer WELCOME_GAME_MESSAGE_ID (encode_welcome (welcome_for player))")
    have "sorted_wrt (<) (map fst (filter P (welcome_trace env w peers server')))"
      using "2.IH"(2) [OF Some send [symmetric]] "2.prems" by simp
    then show ?thesis
      using Some send "2.prems" kept_sublist [of P env w peers server'] by auto
  qed (use "2.IH"(1) "2.prems" in simp)
qed simp

lemma flush_effects:
  "g_world (flush_welcomes env g) = g_world g" "g_directory (flush_welcomes env g) = g_directory g"
  "bt_keys (g_pending (flush_welcomes env g)) = map fst (filter (\<lambda>(peer, player, result). result = Inl Congested)
     (welcome_trace env (g_world g) (bt_keys (g_pending g)) (g_server g)))"
  using retain_trace [of env "bt_keys (g_pending g)" g]
  by (auto simp: flush_welcomes_def bt_keys_def comp_def split: prod.split)

lemma flush_linked: "linked g \<Longrightarrow> linked (flush_welcomes env g)"
proof -
  assume ok: "linked g"
  then have "sorted_wrt (<) (bt_keys (g_pending g))" by (simp add: linked_def bt_keys_sorted)
  then have "sorted_wrt (<) (bt_keys (g_pending (flush_welcomes env g)))" unfolding flush_effects by (rule kept_sorted)
  then have "bt_ok (g_pending (flush_welcomes env g))" by (simp add: bt_ok_def bt_keys_def)
  with ok show ?thesis
    using kept_sublist [of "\<lambda>(peer, player, result). result = Inl Congested" env "g_world g" "bt_keys (g_pending g)" "g_server g"]
    by (auto simp: linked_def flush_effects)
qed

lemma flush_ok: "game_ok g \<Longrightarrow> game_ok (flush_welcomes env g)"
  by (simp add: game_ok_def flush_linked flush_effects)

section \<open>Broadcast\<close>

lemma send_step:
  "\<exists>server. send_to_all env payload (peer # peers) g = send_to_all env payload peers (g\<lparr>g_server := server, g_sent := g_sent g + 1\<rparr>)
     \<or> send_to_all env payload (peer # peers) g = send_to_all env payload peers (g\<lparr>g_server := server, g_dropped := g_dropped g + 1\<rparr>)"
  by (cases "env_send env (g_server g) peer WORLD_SNAPSHOT_GAME_MESSAGE_ID payload"; cases "fst (env_send env (g_server g) peer WORLD_SNAPSHOT_GAME_MESSAGE_ID payload)") auto

lemma send_to_all_all:
  "g_world (send_to_all env payload peers g) = g_world g \<and> g_directory (send_to_all env payload peers g) = g_directory g \<and>
   g_pending (send_to_all env payload peers g) = g_pending g \<and>
   g_sent (send_to_all env payload peers g) + g_dropped (send_to_all env payload peers g) = g_sent g + g_dropped g + length peers"
proof (induction peers arbitrary: g)
  case (Cons peer peers)
  obtain server where "send_to_all env payload (peer # peers) g = send_to_all env payload peers (g\<lparr>g_server := server, g_sent := g_sent g + 1\<rparr>)
      \<or> send_to_all env payload (peer # peers) g = send_to_all env payload peers (g\<lparr>g_server := server, g_dropped := g_dropped g + 1\<rparr>)"
    using send_step [of env payload peer peers g] by (elim exE)
  then show ?case
  proof
    assume step: "send_to_all env payload (peer # peers) g = send_to_all env payload peers (g\<lparr>g_server := server, g_sent := g_sent g + 1\<rparr>)"
    show ?thesis unfolding step using Cons [of "g\<lparr>g_server := server, g_sent := g_sent g + 1\<rparr>"] by simp
  next
    assume step: "send_to_all env payload (peer # peers) g = send_to_all env payload peers (g\<lparr>g_server := server, g_dropped := g_dropped g + 1\<rparr>)"
    show ?thesis unfolding step using Cons [of "g\<lparr>g_server := server, g_dropped := g_dropped g + 1\<rparr>"] by simp
  qed
qed simp

lemmas send_to_all_effects = send_to_all_all [THEN conjunct1] send_to_all_all [THEN conjunct2, THEN conjunct1]
  send_to_all_all [THEN conjunct2, THEN conjunct2, THEN conjunct1] send_to_all_all [THEN conjunct2, THEN conjunct2, THEN conjunct2]

lemma few_players: "world_ok w \<Longrightarrow> player_count w \<le> u32_MAX"
proof -
  assume ok: "world_ok w"
  let ?ids = "map (\<lambda>p. unat (pl_id p)) (bt_values (wd_players w))"
  have "distinct ?ids"
    using distinct_ids [of w] ok by (auto simp: world_ok_def distinct_map inj_on_def word_unat_eq_iff)
  moreover have "set ?ids \<subseteq> {1..u32_MAX}"
  proof
    fix n assume "n \<in> set ?ids"
    then obtain p where p: "p \<in> set (bt_values (wd_players w))" "n = unat (pl_id p)" by auto
    then have "Some p \<in> set (map (bt_get (wd_players w)) (bt_keys (wd_players w)))"
      using ok bt_values_get [of "wd_players w", symmetric] by (simp add: world_ok_def)
    then have "0 < n" using ok p by (auto simp: world_ok_def ids_ok_def world_player_def)
    then show "n \<in> {1..u32_MAX}" using p unsigned_less [of "pl_id p", where 'a = nat] by (simp add: u32_MAX_def)
  qed
  ultimately have "length ?ids \<le> u32_MAX"
    using card_mono [of "{1..u32_MAX}" "set ?ids"] distinct_card [of ?ids] by simp
  then show ?thesis by (simp add: player_count_def bt_len_values)
qed

lemma broadcast_effects:
  assumes "broadcast_snapshot env g = Some g'"
  shows "g_world g' = g_world g" "g_directory g' = g_directory g" "g_pending g' = g_pending g"
    "g_sent g' + g_dropped g' = g_sent g + g_dropped g + player_count (g_world g)"
proof -
  obtain t1 g1 where c1: "read_clock env g = (t1, g1)" by (cases "read_clock env g")
  obtain t2 g2 where c2: "read_clock env g1 = (t2, g2)" by (cases "read_clock env g1")
  have g1: "g_world g1 = g_world g" "g_directory g1 = g_directory g" "g_pending g1 = g_pending g"
    "g_sent g1 = g_sent g" "g_dropped g1 = g_dropped g" using read_clock_simps [of env g] by (simp_all add: c1)
  have g2: "g_world g2 = g_world g" "g_directory g2 = g_directory g" "g_pending g2 = g_pending g"
    "g_sent g2 = g_sent g" "g_dropped g2 = g_dropped g" using read_clock_simps [of env g1] g1 by (simp_all add: c2)
  show "g_world g' = g_world g" "g_directory g' = g_directory g" "g_pending g' = g_pending g"
    "g_sent g' + g_dropped g' = g_sent g + g_dropped g + player_count (g_world g)"
    using assms g1 g2
    by (auto simp: send_to_all_effects broadcast_snapshot_def c1 c2 Let_def read_clock_def player_count_def
        bt_len_keys world_peers_def split: prod.splits option.splits)
qed

lemma snapshot_encodes:
  assumes "world_ok w"
  obtains payload where "encode_world_snapshot (snapshot w) = Some payload"
proof -
  have "length (ws_players (snapshot w)) \<le> u32_MAX"
    using few_players [OF assms] by (simp add: snapshot_def player_count_def bt_len_values)
  then show ?thesis by (simp add: encode_snapshot_bytes that)
qed

lemma broadcast_some:
  assumes "world_ok (g_world g)"
  obtains g' where "broadcast_snapshot env g = Some g'"
proof -
  obtain payload where "encode_world_snapshot (snapshot (g_world g)) = Some payload"
    by (rule snapshot_encodes [OF assms])
  moreover have "g_world (snd (read_clock env g)) = g_world g" by simp
  ultimately have "broadcast_snapshot env g \<noteq> None"
    by (cases "read_clock env g") (simp add: broadcast_snapshot_def Let_def split: prod.split)
  then show ?thesis using that by blast
qed

section \<open>Turns of the loop\<close>

lemma tick_effects:
  assumes "tick env now s = Some s'"
  shows "g_world (s_game s') = world_step TICK_DT (g_world (s_game s))"
    "g_directory (s_game s') = g_directory (s_game s)" "g_pending (s_game s') = g_pending (s_game s)"
    "s_next_step s' = (if s_next_step s + TICK_STEP \<le> now then now + TICK_STEP else s_next_step s + TICK_STEP)"
proof -
  let ?g = "(s_game s)\<lparr>g_world := world_step TICK_DT (g_world (s_game s))\<rparr>"
  obtain t g1 where c: "read_clock env ?g = (t, g1)" by (cases "read_clock env ?g")
  have g1: "g_world g1 = g_world ?g" "g_directory g1 = g_directory ?g" "g_pending g1 = g_pending ?g"
    using read_clock_simps [of env ?g] by (simp_all only: c snd_conv)
  obtain g2 where b: "broadcast_snapshot env (g1\<lparr>g_profile := (g_profile g1)\<lparr>pf_step := pf_step (g_profile g1) + since t now\<rparr>\<rparr>) = Some g2"
    "s' = s\<lparr>s_game := g2\<lparr>g_profile := (g_profile g2)\<lparr>pf_ticks := pf_ticks (g_profile g2) + 1\<rparr>\<rparr>,
      s_next_step := (if s_next_step s + TICK_STEP \<le> now then now + TICK_STEP else s_next_step s + TICK_STEP)\<rparr>"
    using assms by (auto simp: tick_def Let_def c split: option.splits)
  show "g_world (s_game s') = world_step TICK_DT (g_world (s_game s))"
    "g_directory (s_game s') = g_directory (s_game s)" "g_pending (s_game s') = g_pending (s_game s)"
    "s_next_step s' = (if s_next_step s + TICK_STEP \<le> now then now + TICK_STEP else s_next_step s + TICK_STEP)"
    using g1 b(2) broadcast_effects(1-3) [OF b(1)] by simp_all
qed

lemma tick_some:
  assumes "world_ok (g_world (s_game s))"
  obtains s' where "tick env now s = Some s'"
proof -
  let ?g = "(s_game s)\<lparr>g_world := world_step TICK_DT (g_world (s_game s))\<rparr>"
  obtain t g1 where c: "read_clock env ?g = (t, g1)" by (cases "read_clock env ?g")
  let ?g1 = "g1\<lparr>g_profile := (g_profile g1)\<lparr>pf_step := pf_step (g_profile g1) + since t now\<rparr>\<rparr>"
  have "g_world g1 = g_world ?g" using read_clock_simps(1) [of env ?g] by (simp only: c snd_conv)
  then have "world_ok (g_world ?g1)" using step_ok [OF assms] by simp
  then obtain g2 where "broadcast_snapshot env ?g1 = Some g2" by (rule broadcast_some)
  then show ?thesis using that by (simp add: tick_def Let_def c)
qed

lemma report_effects [simp]:
  "g_world (s_game (report_status env profiling interval now s)) = g_world (s_game s)"
  "g_directory (s_game (report_status env profiling interval now s)) = g_directory (s_game s)"
  "g_pending (s_game (report_status env profiling interval now s)) = g_pending (s_game s)"
  "s_next_step (report_status env profiling interval now s) = s_next_step s"
  by (simp_all add: report_status_def Let_def split: option.split)

text \<open>What one poll takes from the network.\<close>

definition seen_by :: "('e, 'p) environment \<Rightarrow> ('e, 'p) server_state \<Rightarrow> 'p inbound list" where
  "seen_by env s = fst (drain_events env (g_server (snd (read_clock env (s_game s)))))"

lemma seen_by_length: "length (seen_by env s) \<le> length (fst (env_tick_now env (g_server (snd (read_clock env (s_game s))))))"
  by (simp add: seen_by_def drain_events_def List.map_filter_def split: prod.split)

lemma poll_effects:
  obtains g0 where "g_world g0 = g_world (s_game s)" "g_directory g0 = g_directory (s_game s)"
    "g_pending g0 = g_pending (s_game s)"
    "g_world (s_game (snd (poll env trig s))) = g_world (flush_welcomes env (fold (handle env trig) (seen_by env s) g0))"
    "g_directory (s_game (snd (poll env trig s))) = g_directory (flush_welcomes env (fold (handle env trig) (seen_by env s) g0))"
    "g_pending (s_game (snd (poll env trig s))) = g_pending (flush_welcomes env (fold (handle env trig) (seen_by env s) g0))"
    "s_next_step (snd (poll env trig s)) = s_next_step s"
proof -
  obtain t g1 where c1: "read_clock env (s_game s) = (t, g1)" by (cases "read_clock env (s_game s)")
  have g1: "g_world g1 = g_world (s_game s)" "g_directory g1 = g_directory (s_game s)" "g_pending g1 = g_pending (s_game s)"
    using read_clock_simps [of env "s_game s"] by (simp_all add: c1)
  obtain inbounds server where d: "drain_events env (g_server g1) = (inbounds, server)"
    by (cases "drain_events env (g_server g1)")
  let ?g = "flush_welcomes env (fold (handle env trig) inbounds (g1\<lparr>g_server := server\<rparr>))"
  obtain now g2 where c2: "read_clock env ?g = (now, g2)" by (cases "read_clock env ?g")
  have g2: "g_world g2 = g_world ?g" "g_directory g2 = g_directory ?g" "g_pending g2 = g_pending ?g"
    using read_clock_simps [of env ?g] by (simp_all only: c2 snd_conv)
  show ?thesis
    using that [of "g1\<lparr>g_server := server\<rparr>"] g1 g2
    by (simp add: poll_def seen_by_def c1 c2 d Let_def)
qed

lemma poll_ok:
  assumes ok: "game_ok (s_game s)" and trig: "trig_ok trig" and room: "room (s_game s) (length (seen_by env s))"
  shows "game_ok (s_game (snd (poll env trig s)))"
    "unat (wd_next_player_id (g_world (s_game (snd (poll env trig s))))) \<le>
       unat (wd_next_player_id (g_world (s_game s))) + length (seen_by env s)"
proof -
  obtain g0 where g0: "g_world g0 = g_world (s_game s)" "g_directory g0 = g_directory (s_game s)"
      "g_pending g0 = g_pending (s_game s)"
    and eq: "g_world (s_game (snd (poll env trig s))) = g_world (flush_welcomes env (fold (handle env trig) (seen_by env s) g0))"
    "g_directory (s_game (snd (poll env trig s))) = g_directory (flush_welcomes env (fold (handle env trig) (seen_by env s) g0))"
    "g_pending (s_game (snd (poll env trig s))) = g_pending (flush_welcomes env (fold (handle env trig) (seen_by env s) g0))"
    by (rule poll_effects)
  have "game_ok g0" "room g0 (length (seen_by env s))" using ok room g0 by (simp_all add: game_ok_def linked_def room_def)
  note fold = fold_handle_ok [OF this(1) trig this(2), of env]
  then show "game_ok (s_game (snd (poll env trig s)))"
    using flush_ok [of "fold (handle env trig) (seen_by env s) g0" env] by (simp add: game_ok_def linked_def eq)
  show "unat (wd_next_player_id (g_world (s_game (snd (poll env trig s))))) \<le>
      unat (wd_next_player_id (g_world (s_game s))) + length (seen_by env s)"
    using fold g0 by (simp add: eq flush_effects)
qed

lemma turn_unfold:
  "turn env trig profiling interval s = map_option
     (\<lambda>s'. let s'' = report_status env profiling interval (fst (poll env trig s)) s'
           in s''\<lparr>s_game := (s_game s'')\<lparr>g_server := env_sleep env IDLE_SLEEP (g_server (s_game s''))\<rparr>\<rparr>)
     (if s_next_step (snd (poll env trig s)) \<le> fst (poll env trig s)
      then tick env (fst (poll env trig s)) (snd (poll env trig s)) else Some (snd (poll env trig s)))"
  by (simp add: turn_def Let_def split: prod.split option.split)

lemma turn_ok:
  assumes ok: "game_ok (s_game s)" and trig: "trig_ok trig" and room: "room (s_game s) (length (seen_by env s))"
  obtains s' where "turn env trig profiling interval s = Some s'" "game_ok (s_game s')"
    "unat (wd_next_player_id (g_world (s_game s'))) \<le> unat (wd_next_player_id (g_world (s_game s))) + length (seen_by env s)"
proof -
  let ?p = "snd (poll env trig s)" and ?now = "fst (poll env trig s)"
  note p = poll_ok [OF ok trig room]
  then have w: "world_ok (g_world (s_game ?p))" by (simp add: game_ok_def)
  show ?thesis
  proof (cases "s_next_step ?p \<le> ?now")
    case False
    with p that show ?thesis by (simp add: turn_unfold Let_def game_ok_def linked_def)
  next
    case True
    obtain q where q: "tick env ?now ?p = Some q" by (rule tick_some [OF w])
    note eff = tick_effects [OF q]
    have "world_ok (g_world (s_game q))" unfolding eff by (rule step_ok [OF w])
    moreover have "world_peers (world_step TICK_DT (g_world (s_game ?p))) = world_peers (g_world (s_game ?p))"
      by (simp add: world_peers_def world_step_def)
    ultimately show ?thesis
      using True that p q eff by (simp add: turn_unfold Let_def game_ok_def linked_def bt_ok_ops next_id)
  qed
qed

end
