(* ===== verification/Game_Props.thy ===== *)
theory Game_Props
  imports Game_Laws
begin

text \<open>The properties of the game loop.\<close>

section \<open>The loop keeps running\<close>

lemma turns_ok:
  assumes trig: "trig_ok trig" and burst: "\<And>e. length (fst (env_tick_now env e)) \<le> burst"
  shows "game_ok (s_game s) \<Longrightarrow> room (s_game s) (n * burst) \<Longrightarrow>
    \<exists>s'. turns env trig profiling interval n s = Some s' \<and> game_ok (s_game s')"
proof (induction n arbitrary: s)
  case (Suc n)
  have seen: "length (seen_by env s) \<le> burst" using seen_by_length [of env s] burst le_trans by blast
  have "room (s_game s) (length (seen_by env s))" using Suc.prems(2) seen by (simp add: room_def)
  then obtain s1 where s1: "turn env trig profiling interval s = Some s1" "game_ok (s_game s1)"
    "unat (wd_next_player_id (g_world (s_game s1))) \<le> unat (wd_next_player_id (g_world (s_game s))) + length (seen_by env s)"
    by (rule turn_ok [OF Suc.prems(1) trig])
  have "room (s_game s1) (n * burst)" using Suc.prems(2) s1(3) seen by (simp add: room_def)
  from Suc.IH [OF s1(2) this] s1(1) show ?case by simp
qed simp

lemma start_effects:
  "g_world (s_game (start_server env address quiet interval server)) = world_new"
  "g_directory (s_game (start_server env address quiet interval server)) = directory_new"
  "g_pending (s_game (start_server env address quiet interval server)) = bt_empty"
proof -
  let ?g0 = "game_new server quiet"
  let ?g1 = "snd (read_clock env ?g0)"
  let ?g2 = "snd (read_clock env ?g1)"
  have "g_world ?g2 = world_new \<and> g_directory ?g2 = directory_new \<and> g_pending ?g2 = bt_empty \<and>
      g_world (snd (read_clock env ?g2)) = world_new \<and> g_directory (snd (read_clock env ?g2)) = directory_new \<and>
      g_pending (snd (read_clock env ?g2)) = bt_empty"
    by (simp add: game_new_def)
  then show "g_world (s_game (start_server env address quiet interval server)) = world_new"
    "g_directory (s_game (start_server env address quiet interval server)) = directory_new"
    "g_pending (s_game (start_server env address quiet interval server)) = bt_empty"
    by (simp_all add: start_server_def case_prod_unfold)
qed

lemma new_game_ok: "g_world g = world_new \<Longrightarrow> g_directory g = directory_new \<Longrightarrow> g_pending g = bt_empty \<Longrightarrow> game_ok g"
  by (simp add: game_ok_def linked_def new_world_ok directory_new_def bt_keys_def)
    (simp add: world_new_def bt_empty_def)

text \<open>
  C2: The server does not stop by itself. Whatever the clients send and however the network answers,
  as long as fewer than 2\<open>\<^sup>3\<^sup>2\<close> events have arrived, every turn of the loop completes - the snapshot
  encoder, the only panic on the way, is never reached - and leaves a valid game: a valid world, an
  ordered directory, and pending welcomes only for joined peers.
\<close>

theorem server_keeps_running:
  assumes "trig_ok trig" and "\<And>e. length (fst (env_tick_now env e)) \<le> burst" and "n * burst < 2 ^ 32"
  shows "\<exists>s. turns env trig profiling interval n (start_server env address quiet interval server) = Some s
    \<and> game_ok (s_game s)"
proof (rule turns_ok [OF assms(1,2)])
  let ?s = "start_server env address quiet interval server"
  show "game_ok (s_game ?s)" by (rule new_game_ok [OF start_effects])
  show "room (s_game ?s) (n * burst)" using assms(3) by (simp add: room_def start_effects world_new_def)
qed

text \<open>A scripted network: the events of each poll, a clock of 10 ms steps, and congestion on every third send.\<close>

definition scripted :: "('p \<times> event) list \<Rightarrow> (nat, 'p) environment" where
  "scripted seen = \<lparr>env_tick_now = \<lambda>e. (seen, e + 1),
     env_send = \<lambda>e peer i payload. (if e mod 3 = 0 then Inl Congested else Inr (), e + 1),
     env_peer_addr = \<lambda>e peer. None, env_now = \<lambda>e. (e * 10000000, e + 1), env_sleep = \<lambda>d e. e + 1,
     env_show_peer = \<lambda>peer. ''peer''\<rparr>"

theorem server_keeps_running_witness:
  "\<exists>s. turns (scripted [(1 :: nat, Connected), (2, Probe)]) unit_trig True 1 1000
      (start_server (scripted [(1, Connected), (2, Probe)]) DEFAULT_ADDRESS False 1 0) = Some s \<and> game_ok (s_game s)"
  by (rule server_keeps_running [OF unit_trig_ok, where burst = 2]) (simp_all add: scripted_def)

section \<open>The pace of the simulation\<close>

text \<open>
  C12: A turn steps the world exactly when the deadline has passed at the time it read after the
  events. It then steps once, by one tick, and the next deadline lies after that time and at most
  one tick period after it; otherwise the world and the deadline stay as they are.
\<close>

theorem turn_steps_when_due:
  assumes "game_ok (s_game s)" "trig_ok trig" "room (s_game s) (length (seen_by env s))"
    and "poll env trig s = (now, polled)"
  shows "\<exists>s'. turn env trig profiling interval s = Some s' \<and>
    (if s_next_step s \<le> now
     then g_world (s_game s') = world_step TICK_DT (g_world (s_game polled)) \<and> now < s_next_step s' \<and>
       s_next_step s + TICK_STEP \<le> s_next_step s' \<and> s_next_step s' \<le> now + TICK_STEP
     else g_world (s_game s') = g_world (s_game polled) \<and> s_next_step s' = s_next_step s)"
proof -
  have "game_ok (s_game polled)" using poll_ok(1) [OF assms(1-3)] assms(4) by simp
  then have w: "world_ok (g_world (s_game polled))" by (simp add: game_ok_def)
  have next_step: "s_next_step polled = s_next_step s"
    using poll_effects [of s env trig] assms(4) by (metis snd_conv)
  show ?thesis
  proof (cases "s_next_step s \<le> now")
    case False
    then show ?thesis using assms(4) next_step by (simp add: turn_unfold Let_def)
  next
    case True
    obtain q where q: "tick env now polled = Some q" by (rule tick_some [OF w])
    with True assms(4) next_step show ?thesis
      using tick_effects [OF q] by (auto simp: turn_unfold Let_def TICK_STEP_def TICK_RATE_def from_secs_def)
  qed
qed

lemma scripted_poll: "poll (scripted []) unit_trig (start_server (scripted []) DEFAULT_ADDRESS True 0 0) =
    (40000000, snd (poll (scripted []) unit_trig (start_server (scripted []) DEFAULT_ADDRESS True 0 0)))"
  "g_world (s_game (snd (poll (scripted []) unit_trig (start_server (scripted []) DEFAULT_ADDRESS True 0 0)))) = world_new"
  "s_next_step (start_server (scripted []) DEFAULT_ADDRESS True 0 0) = 33333333"
  "seen_by (scripted []) (start_server (scripted []) DEFAULT_ADDRESS True 0 0) = []"
  by (simp_all add: scripted_def start_server_def read_clock_def game_new_def poll_def drain_events_def map_filter_simps
      flush_welcomes_def bt_empty_def bt_keys_def log_line_def Let_def TICK_STEP_def from_secs_def TICK_RATE_def seen_by_def)

theorem turn_steps_when_due_witness:
  "\<exists>s'. turn (scripted []) unit_trig False 0 (start_server (scripted []) DEFAULT_ADDRESS True 0 0) = Some s' \<and>
     g_world (s_game s') = world_step TICK_DT (world_new :: nat world) \<and> 40000000 < s_next_step s'"
proof -
  let ?s = "start_server (scripted []) DEFAULT_ADDRESS True 0 0 :: (nat, nat) server_state"
  have "game_ok (s_game ?s)" "room (s_game ?s) (length (seen_by (scripted []) ?s))"
    by (simp_all add: new_game_ok start_effects room_def scripted_poll(4) world_new_def)
  from turn_steps_when_due [OF this(1) unit_trig_ok this(2) scripted_poll(1), where interval = 0 and profiling = False]
  show ?thesis by (auto simp: scripted_poll(2,3))
qed

lemma handle_tick: "wd_tick (g_world (fold (handle env trig) inbounds g)) = wd_tick (g_world g)"
proof (induction inbounds arbitrary: g)
  case (Cons i inbounds)
  have "wd_tick (world_effect trig i w) = wd_tick w" for w
    by (cases i) (simp_all add: world_effect_def tick_of)
  then show ?case using Cons by (simp add: handle_effects)
qed simp

lemma poll_tick: "wd_tick (g_world (s_game (snd (poll env trig s)))) = wd_tick (g_world (s_game s))"
  "s_next_step (snd (poll env trig s)) = s_next_step s"
  by (rule poll_effects [of s env trig], simp add: flush_effects handle_tick)+

text \<open>
  C33: The simulation never runs faster than its tick rate: after any number of turns the tick has
  advanced by some \<open>k\<close>, and the deadline of the next step by at least \<open>k\<close> tick periods. A late
  server drops the backlog instead of catching up.
\<close>

theorem never_faster_than_the_tick_rate:
  assumes "turns env trig profiling interval n s = Some s'"
  shows "\<exists>k \<le> n. wd_tick (g_world (s_game s')) = wd_tick (g_world (s_game s)) + of_nat k \<and>
    s_next_step s + k * TICK_STEP \<le> s_next_step s'"
  using assms
proof (induction n arbitrary: s)
  case (Suc n)
  let ?now = "fst (poll env trig s)" and ?p = "snd (poll env trig s)"
  obtain s1 where s1: "turn env trig profiling interval s = Some s1" "turns env trig profiling interval n s1 = Some s'"
    using Suc.prems by (auto split: option.splits)
  obtain k where k: "k \<le> n" "wd_tick (g_world (s_game s')) = wd_tick (g_world (s_game s1)) + of_nat k"
    "s_next_step s1 + k * TICK_STEP \<le> s_next_step s'"
    using Suc.IH [OF s1(2)] by blast
  show ?case
  proof (cases "s_next_step s \<le> ?now")
    case False
    then have "wd_tick (g_world (s_game s1)) = wd_tick (g_world (s_game s))" "s_next_step s1 = s_next_step s"
      using s1(1) by (auto simp: turn_unfold Let_def poll_tick)
    with k show ?thesis by (intro exI [of _ k]) simp
  next
    case True
    then obtain q where q: "tick env ?now ?p = Some q" and "wd_tick (g_world (s_game s1)) = wd_tick (g_world (s_game q))"
      "s_next_step s1 = s_next_step q"
      using s1(1) by (auto simp: turn_unfold Let_def poll_tick)
    then have "wd_tick (g_world (s_game s1)) = wd_tick (g_world (s_game s)) + 1"
      "s_next_step s + TICK_STEP \<le> s_next_step s1"
      using tick_effects [OF q] by (simp_all add: tick_of poll_tick)
    with k show ?thesis by (intro exI [of _ "Suc k"]) simp
  qed
qed simp

theorem never_faster_than_the_tick_rate_witness:
  "\<exists>s' k. turns (scripted []) unit_trig False 0 5 (start_server (scripted []) DEFAULT_ADDRESS True 0 0) = Some s' \<and> k \<le> 5 \<and>
     wd_tick (g_world (s_game s') :: nat world) = of_nat k \<and> 33333333 + k * TICK_STEP \<le> s_next_step s'"
proof -
  let ?s = "start_server (scripted []) DEFAULT_ADDRESS True 0 0 :: (nat, nat) server_state"
  have "\<exists>s'. turns (scripted []) unit_trig False 0 5 ?s = Some s' \<and> game_ok (s_game s')"
    by (rule turns_ok [OF unit_trig_ok, where burst = 0])
      (simp_all add: scripted_def new_game_ok start_effects room_def world_new_def)
  then obtain s' where "turns (scripted []) unit_trig False 0 5 ?s = Some s'" by blast
  moreover have "wd_tick (g_world (s_game ?s)) = 0" by (simp add: start_effects world_new_def)
  ultimately show ?thesis
    using never_faster_than_the_tick_rate [of "scripted []" unit_trig False 0 5 ?s s'] by (auto simp: scripted_poll(3))
qed

section \<open>Who is in the world\<close>

text \<open>What the events of one peer say of it: whether it has joined, and whether it is connected and accepted.\<close>

fun joined_by :: "'p \<Rightarrow> 'p inbound \<Rightarrow> bool \<Rightarrow> bool" where
  "joined_by peer (Hello q hello) joined = (joined \<or> q = peer)"
| "joined_by peer (HandshakeRefused q reason) joined = (joined \<and> q \<noteq> peer)"
| "joined_by peer (PeerDisconnected q reason) joined = (joined \<and> q \<noteq> peer)"
| "joined_by peer other joined = joined"

fun accepted_by :: "'p \<Rightarrow> 'p inbound \<Rightarrow> bool option \<Rightarrow> bool option" where
  "accepted_by peer (PeerConnected q) status = (if q = peer then Some False else status)"
| "accepted_by peer (HandshakeAccepted q) status = (if q = peer then map_option (\<lambda>accepted. True) status else status)"
| "accepted_by peer (HandshakeRefused q reason) status = (if q = peer then None else status)"
| "accepted_by peer (PeerDisconnected q reason) status = (if q = peer then None else status)"
| "accepted_by peer other status = status"

definition handshake_status :: "'p directory \<Rightarrow> 'p \<Rightarrow> bool option" where
  "handshake_status d peer = map_option pr_handshake_accepted (directory_get d peer)"

lemma handle_joined:
  "linked g \<Longrightarrow> (world_player (g_world (handle env trig i g)) peer \<noteq> None) =
     joined_by peer i (world_player (g_world g) peer \<noteq> None)"
  unfolding handle_effects
  by (cases i) (auto simp: world_effect_def linked_def player_join player_leave player_apply_input)

lemma handle_status:
  "linked g \<Longrightarrow> handshake_status (g_directory (handle env trig i g)) peer =
     accepted_by peer i (handshake_status (g_directory g) peer)"
proof -
  assume "linked g"
  moreover obtain address now where "g_directory (handle env trig i g) = directory_effect address now i (g_directory g)"
    using handle_effects(2) [of env trig i g] by blast
  ultimately show ?thesis
    by (cases i) (auto simp: directory_effect_def linked_def handshake_status_def get_connect get_accept get_remove
        option.map_comp comp_def)
qed

lemma fold_membership:
  "linked g \<Longrightarrow> linked (fold (handle env trig) inbounds g) \<and>
    (world_player (g_world (fold (handle env trig) inbounds g)) peer \<noteq> None) =
      fold (joined_by peer) inbounds (world_player (g_world g) peer \<noteq> None) \<and>
    handshake_status (g_directory (fold (handle env trig) inbounds g)) peer =
      fold (accepted_by peer) inbounds (handshake_status (g_directory g) peer)"
  by (induction inbounds arbitrary: g) (simp_all add: handle_linked handle_joined handle_status del: not_None_eq)

lemma game_ok_new: "game_ok (game_new server quiet)"
  by (rule new_game_ok) (simp_all add: game_new_def)

lemmas new_game_linked = game_ok_new [unfolded game_ok_def, THEN conjunct2]

lemma new_game_membership:
  "world_player (g_world (game_new server quiet)) peer = None"
  "handshake_status (g_directory (game_new server quiet)) peer = None"
  by (simp_all add: game_new_def world_player_def world_new_def handshake_status_def directory_get_def directory_new_def
      bt_get_empty)

text \<open>
  C10: Membership is the history of the events, for any events in any order: a peer is in the world
  exactly if it said hello since it was last disconnected or refused, and the directory holds it
  exactly if it connected since, with the handshake flag set by an acceptance after that.
\<close>

theorem membership_follows_the_events:
  "(world_player (g_world (fold (handle env trig) inbounds (game_new server quiet))) peer \<noteq> None)
     = fold (joined_by peer) inbounds False
   \<and> map_option pr_handshake_accepted (directory_get (g_directory (fold (handle env trig) inbounds (game_new server quiet))) peer)
     = fold (accepted_by peer) inbounds None"
  by (simp add: fold_membership [OF new_game_linked] new_game_membership flip: handshake_status_def del: not_None_eq)

text \<open>The life of a connection: which inbound may follow, seen from one peer.\<close>

datatype phase = Away | Handshaking | Open

fun next_phase :: "'p \<Rightarrow> 'p inbound \<Rightarrow> phase \<Rightarrow> phase option" where
  "next_phase peer (PeerConnected q) ph = (if q \<noteq> peer then Some ph else if ph = Away then Some Handshaking else None)"
| "next_phase peer (HandshakeAccepted q) ph = (if q \<noteq> peer then Some ph else if ph = Handshaking then Some Open else None)"
| "next_phase peer (HandshakeRefused q reason) ph = Some (if q = peer then Away else ph)"
| "next_phase peer (PeerDisconnected q reason) ph = Some (if q = peer then Away else ph)"
| "next_phase peer (Hello q hello) ph = (if q = peer \<and> ph \<noteq> Open then None else Some ph)"
| "next_phase peer (Input q i) ph = (if q = peer \<and> ph \<noteq> Open then None else Some ph)"
| "next_phase peer (Undecodable q message error) ph = (if q = peer \<and> ph \<noteq> Open then None else Some ph)"
| "next_phase peer (Unexpected q i) ph = (if q = peer \<and> ph \<noteq> Open then None else Some ph)"

fun phases :: "'p \<Rightarrow> 'p inbound list \<Rightarrow> phase \<Rightarrow> phase option" where
  "phases peer [] ph = Some ph"
| "phases peer (i # inbounds) ph = Option.bind (next_phase peer i ph) (phases peer inbounds)"

definition status_of :: "phase \<Rightarrow> bool option" where
  "status_of ph = (case ph of Away \<Rightarrow> None | Handshaking \<Rightarrow> Some False | Open \<Rightarrow> Some True)"

lemma next_phase_status:
  assumes "next_phase peer i ph = Some ph'"
  shows "accepted_by peer i (status_of ph) = status_of ph'" "(joined \<longrightarrow> ph = Open) \<Longrightarrow> joined_by peer i joined \<longrightarrow> ph' = Open"
  using assms by (cases i; auto simp: status_of_def split: if_splits)+

lemma phases_status:
  "phases peer inbounds ph = Some ph' \<Longrightarrow> (joined \<longrightarrow> ph = Open) \<Longrightarrow>
    fold (accepted_by peer) inbounds (status_of ph) = status_of ph' \<and>
    (fold (joined_by peer) inbounds joined \<longrightarrow> ph' = Open)"
proof (induction inbounds arbitrary: ph joined)
  case (Cons i inbounds)
  then obtain ph1 where "next_phase peer i ph = Some ph1" "phases peer inbounds ph1 = Some ph'"
    by (auto simp: bind_eq_Some_conv)
  with Cons.prems(2) show ?case
    using next_phase_status [of peer i ph ph1] Cons.IH [of ph1 "joined_by peer i joined"] by simp
qed (simp add: status_of_def)

lemma bt_empty_iff: "(\<forall>k. bt_get m k = None) \<longleftrightarrow> bt_len m = 0"
proof -
  have "(\<forall>k. bt_get m k = None) \<longleftrightarrow> (\<forall>k. k \<notin> set (bt_keys m))" by (simp add: bt_keys_get)
  also have "\<dots> \<longleftrightarrow> bt_len m = 0" by (cases "bt_keys m") (auto simp: bt_len_keys)
  finally show ?thesis .
qed

text \<open>
  C6: No ghosts. As long as the library delivers a peer's events in the order of a connection's life
  (connected, accepted, messages, and closed at any point), every player in the world belongs to a
  peer that the directory holds with its handshake accepted, and once every peer is gone the world,
  the directory and the pending welcomes are empty.
\<close>

theorem no_ghost_players:
  assumes "\<And>peer. phases peer inbounds Away = Some (ph peer)"
    and "g = fold (handle env trig) inbounds (game_new server quiet)"
  shows "(\<forall>peer. world_player (g_world g) peer \<noteq> None \<longrightarrow>
      (\<exists>r. directory_get (g_directory g) peer = Some r \<and> pr_handshake_accepted r))
    \<and> ((\<forall>peer. ph peer = Away) \<longrightarrow>
      player_count (g_world g) = 0 \<and> directory_len (g_directory g) = 0 \<and> bt_len (g_pending g) = 0)"
proof -
  note membership = fold_membership [OF new_game_linked, of env trig inbounds server quiet, folded assms(2),
    unfolded new_game_membership]
  have status: "handshake_status (g_directory g) peer = status_of (ph peer)" for peer
    using membership [of peer] phases_status [OF assms(1) [of peer], of False] by (simp add: status_of_def)
  have joined: "world_player (g_world g) peer \<noteq> None \<Longrightarrow> ph peer = Open" for peer
    using membership [of peer] phases_status [OF assms(1) [of peer], of False] by simp
  have "\<exists>r. directory_get (g_directory g) peer = Some r \<and> pr_handshake_accepted r"
    if "world_player (g_world g) peer \<noteq> None" for peer
    using status [of peer] joined [OF that] by (auto simp: handshake_status_def status_of_def)
  moreover have "player_count (g_world g) = 0 \<and> directory_len (g_directory g) = 0 \<and> bt_len (g_pending g) = 0"
    if away: "\<forall>peer. ph peer = Away"
  proof -
    have players: "world_player (g_world g) peer = None" for peer using joined [of peer] away by force
    have "directory_get (g_directory g) peer = None" for peer
      using status [of peer] away by (simp add: handshake_status_def status_of_def)
    moreover have "bt_get (g_pending g) peer = None" for peer
      using membership players by (cases "bt_get (g_pending g) peer") (simp_all add: linked_def pending_player)
    ultimately show ?thesis
      using players by (simp add: player_count_def directory_len_def world_player_def directory_get_def flip: bt_empty_iff)
  qed
  ultimately show ?thesis by blast
qed

definition short_visit :: "nat inbound list" where
  "short_visit = [PeerConnected 1, HandshakeAccepted 1, Hello 1 \<lparr>ch_client_kind = 4, ch_display_name = ''ann''\<rparr>,
     Unexpected 1 7, PeerDisconnected 1 ''bye'']"

theorem no_ghost_players_witness:
  "player_count (g_world (fold (handle (scripted []) unit_trig) short_visit (game_new 0 True))) = 0"
proof -
  have "phases peer short_visit Away = Some Away" for peer by (simp add: short_visit_def)
  from no_ghost_players [OF this refl, where env = "scripted []" and trig = unit_trig and server = 0 and quiet = True]
  show ?thesis by simp
qed

end
