(* ===== verification/Game_Send.thy ===== *)
theory Game_Send
  imports Game_Props
begin

text \<open>
  What the game loop sends. \<open>recorded env\<close> is the environment \<open>env\<close> with a record, in its state, of
  every message handed to \<^verbatim>\<open>Server::send\<close> and of the answer.
\<close>

section \<open>Recording what is sent\<close>

type_synonym 'p sent = "'p \<times> u32 \<times> u8 list \<times> (send_error + unit)"

definition recorded :: "('e, 'p) environment \<Rightarrow> ('e \<times> 'p sent list, 'p) environment" where
  "recorded env = \<lparr>
     env_tick_now = \<lambda>(e, sent). map_prod id (\<lambda>e. (e, sent)) (env_tick_now env e),
     env_send = \<lambda>(e, sent) peer i payload. (case env_send env e peer i payload of
       (result, e) \<Rightarrow> (result, (e, sent @ [(peer, i, payload, result)]))),
     env_peer_addr = \<lambda>(e, sent). env_peer_addr env e,
     env_now = \<lambda>(e, sent). map_prod id (\<lambda>e. (e, sent)) (env_now env e),
     env_sleep = \<lambda>d (e, sent). (env_sleep env d e, sent),
     env_show_peer = env_show_peer env\<rparr>"

abbreviation record_of :: "('e \<times> 'p sent list, 'p) game \<Rightarrow> 'p sent list" where
  "record_of g \<equiv> snd (g_server g)"

lemma recorded_send:
  obtains result e' where
    "env_send (recorded env) (e, sent) peer i payload = (result, (e', sent @ [(peer, i, payload, result)]))"
  by (cases "env_send env e peer i payload") (simp add: recorded_def)

lemma recorded_clock [simp]: "record_of (snd (read_clock (recorded env) g)) = record_of g"
  by (cases "g_server g") (simp add: read_clock_def recorded_def map_prod_def case_prod_unfold)

lemma log_line_server [simp]: "g_server (log_line l g) = g_server g"
  by (rule log_line_simps)

definition congested :: "'p sent \<Rightarrow> bool" where
  "congested s \<longleftrightarrow> (case s of (peer, i, payload, result) \<Rightarrow> result = Inl Congested)"

definition delivered :: "'p sent \<Rightarrow> bool" where
  "delivered s \<longleftrightarrow> (case s of (peer, i, payload, result) \<Rightarrow> result = Inr ())"

section \<open>Welcomes\<close>

definition welcomes :: "'p::linorder world \<Rightarrow> 'p \<Rightarrow> 'p sent \<Rightarrow> bool" where
  "welcomes w peer s \<longleftrightarrow> (case s of (receiver, i, payload, result) \<Rightarrow>
     receiver = peer \<and> i = WELCOME_GAME_MESSAGE_ID \<and>
     (\<exists>player. world_player w peer = Some player \<and> decode_welcome payload = Inr (welcome_for player)))"

lemma retain_recorded:
  assumes "\<And>peer. peer \<in> set peers \<Longrightarrow> world_player (g_world g) peer \<noteq> None"
  shows "\<exists>sent. record_of (snd (retain_welcomes (recorded env) peers g)) = record_of g @ sent \<and>
    list_all2 (welcomes (g_world g)) peers sent \<and>
    fst (retain_welcomes (recorded env) peers g) = map fst (filter congested sent)"
  using assms
proof (induction peers arbitrary: g)
  case (Cons peer peers)
  obtain player where player: "world_player (g_world g) peer = Some player" using Cons.prems [of peer] by auto
  obtain e sent0 where server: "g_server g = (e, sent0)" by (cases "g_server g")
  let ?payload = "encode_welcome (welcome_for player)"
  obtain result e' where send: "env_send (recorded env) (e, sent0) peer WELCOME_GAME_MESSAGE_ID ?payload =
      (result, (e', sent0 @ [(peer, WELCOME_GAME_MESSAGE_ID, ?payload, result)]))"
    by (rule recorded_send)
  let ?s = "(peer, WELCOME_GAME_MESSAGE_ID, ?payload, result)"
  have first: "welcomes (g_world g) peer ?s"
    using player welcome_back [of "welcome_for player" "[]"] by (simp add: welcomes_def)
  obtain g1 where g1: "g_world g1 = g_world g" "g_server g1 = (e', sent0 @ [?s])"
    and step: "retain_welcomes (recorded env) (peer # peers) g =
      (case retain_welcomes (recorded env) peers g1 of (kept, g2) \<Rightarrow> (if congested ?s then peer # kept else kept, g2))"
  proof (cases result)
    case (Inr ok)
    with player send server show ?thesis
      by (intro that [of "g\<lparr>g_server := (e', sent0 @ [?s])\<rparr>"]) (simp_all add: congested_def)
  next
    case (Inl error)
    show ?thesis
    proof (cases error)
      case Congested
      with Inl player send server show ?thesis
        by (intro that [of "g\<lparr>g_server := (e', sent0 @ [?s])\<rparr>"]) (simp_all add: congested_def)
    next
      case (SendFailed reason)
      with Inl player send server show ?thesis
        by (intro that [of "log_line (LogWelcomeFailed peer reason) (g\<lparr>g_server := (e', sent0 @ [?s])\<rparr>)"])
          (simp_all add: congested_def)
    qed
  qed
  obtain sent where sent: "record_of (snd (retain_welcomes (recorded env) peers g1)) = record_of g1 @ sent"
    "list_all2 (welcomes (g_world g1)) peers sent"
    "fst (retain_welcomes (recorded env) peers g1) = map fst (filter congested sent)"
    using Cons.IH [of g1] Cons.prems g1(1) by auto
  show ?case
    using sent first g1 server step by (intro exI [of _ "?s # sent"]) (auto split: prod.split)
qed simp

lemma flush_recorded:
  assumes "linked g"
  shows "\<exists>sent. record_of (flush_welcomes (recorded env) g) = record_of g @ sent \<and>
    list_all2 (welcomes (g_world g)) (bt_keys (g_pending g)) sent \<and>
    bt_keys (g_pending (flush_welcomes (recorded env) g)) = map fst (filter congested sent) \<and>
    g_world (flush_welcomes (recorded env) g) = g_world g"
proof -
  have "world_player (g_world g) peer \<noteq> None" if "peer \<in> set (bt_keys (g_pending g))" for peer
    using assms that world_peers_player [of "g_world g"] by (auto simp: linked_def)
  from retain_recorded [where env = env and peers = "bt_keys (g_pending g)" and g = g, OF this] show ?thesis
    using flush_effects(1) [of "recorded env" g]
    by (auto simp: flush_welcomes_def bt_keys_def comp_def split: prod.splits)
qed

text \<open>
  C8: Flushing the welcomes sends one Welcome to every pending peer, in peer order, carrying that
  player's own id, the plane and the tick rate. Exactly the peers whose link was congested stay
  pending: a delivered or failed one is dropped, so nobody is welcomed twice or forgotten. The world
  is not touched.
\<close>

theorem welcomes_until_delivered:
  assumes "linked g"
  shows "\<exists>sent. record_of (flush_welcomes (recorded env) g) = record_of g @ sent \<and>
    list_all2 (welcomes (g_world g)) (bt_keys (g_pending g)) sent \<and>
    bt_keys (g_pending (flush_welcomes (recorded env) g)) = map fst (filter congested sent) \<and>
    g_world (flush_welcomes (recorded env) g) = g_world g"
  by (rule flush_recorded [OF assms])

text \<open>Two players have joined and wait for their welcome; the first send meets congestion.\<close>

definition two_waiting :: "(nat \<times> nat sent list, nat) game" where
  "two_waiting = (game_new (0, []) True)\<lparr>
     g_world := snd (join unit_trig 5 4 ''bo'' (snd (join unit_trig 2 4 ''al'' world_new))),
     g_pending := bt_insert 5 () (bt_insert 2 () bt_empty)\<rparr>"

lemma two_waiting_linked: "linked two_waiting"
proof -
  have "bt_ok (wd_players (world_new :: nat world))" "\<And>k. world_player (world_new :: nat world) k = None"
    by (simp_all add: world_new_def bt_get_empty world_player_def)
  then show ?thesis
    by (auto simp: two_waiting_def linked_def pending_player bt_ok_ops bt_get_empty player_join bt_get_insert
        game_new_def directory_new_def bt_get_empty)
qed

theorem welcomes_until_delivered_witness:
  "\<exists>sent. record_of (flush_welcomes (recorded (scripted [])) two_waiting) = sent \<and> length sent = 2 \<and>
     bt_keys (g_pending (flush_welcomes (recorded (scripted [])) two_waiting)) = map fst (filter congested sent)"
proof -
  have "length (bt_keys (g_pending two_waiting)) = 2" "record_of two_waiting = []"
    by (simp_all add: two_waiting_def bt_empty_def bt_keys_def game_new_def)
  then show ?thesis
    using welcomes_until_delivered [OF two_waiting_linked, of "scripted []"] by (auto dest: list_all2_lengthD)
qed

section \<open>Snapshots\<close>

lemma send_recorded:
  "\<exists>sent. record_of (send_to_all (recorded env) payload peers g) = record_of g @ sent \<and>
    map (\<lambda>(peer, i, bytes, result). (peer, i, bytes)) sent = map (\<lambda>peer. (peer, WORLD_SNAPSHOT_GAME_MESSAGE_ID, payload)) peers \<and>
    g_sent (send_to_all (recorded env) payload peers g) = g_sent g + length (filter delivered sent)"
proof (induction peers arbitrary: g)
  case (Cons peer peers)
  obtain e sent0 where server: "g_server g = (e, sent0)" by (cases "g_server g")
  obtain result e' where send: "env_send (recorded env) (e, sent0) peer WORLD_SNAPSHOT_GAME_MESSAGE_ID payload =
      (result, (e', sent0 @ [(peer, WORLD_SNAPSHOT_GAME_MESSAGE_ID, payload, result)]))"
    by (rule recorded_send)
  let ?s = "(peer, WORLD_SNAPSHOT_GAME_MESSAGE_ID, payload, result)"
  obtain g1 where g1: "g_server g1 = (e', sent0 @ [?s])" "g_sent g1 = g_sent g + (if delivered ?s then 1 else 0)"
    and step: "send_to_all (recorded env) payload (peer # peers) g = send_to_all (recorded env) payload peers g1"
  proof (cases result)
    case (Inr ok)
    with send server show ?thesis
      by (intro that [of "g\<lparr>g_server := (e', sent0 @ [?s]), g_sent := g_sent g + 1\<rparr>"]) (simp_all add: delivered_def)
  next
    case (Inl error)
    with send server show ?thesis
      by (intro that [of "g\<lparr>g_server := (e', sent0 @ [?s]), g_dropped := g_dropped g + 1\<rparr>"]) (simp_all add: delivered_def)
  qed
  obtain sent where sent: "record_of (send_to_all (recorded env) payload peers g1) = record_of g1 @ sent"
    "map (\<lambda>(peer, i, bytes, result). (peer, i, bytes)) sent = map (\<lambda>peer. (peer, WORLD_SNAPSHOT_GAME_MESSAGE_ID, payload)) peers"
    "g_sent (send_to_all (recorded env) payload peers g1) = g_sent g1 + length (filter delivered sent)"
    using Cons [of g1] by blast
  show ?case using sent g1 server unfolding step by (intro exI [of _ "?s # sent"]) simp
qed simp

lemma broadcast_recorded:
  assumes "broadcast_snapshot (recorded env) g = Some g'" "encode_world_snapshot (snapshot (g_world g)) = Some payload"
  shows "\<exists>sent. record_of g' = record_of g @ sent \<and>
    map (\<lambda>(peer, i, bytes, result). (peer, i, bytes)) sent =
      map (\<lambda>peer. (peer, WORLD_SNAPSHOT_GAME_MESSAGE_ID, payload)) (world_peers (g_world g)) \<and>
    g_sent g' = g_sent g + length (filter delivered sent)"
proof -
  let ?env = "recorded env"
  obtain t1 g1 where c1: "read_clock ?env g = (t1, g1)" by (cases "read_clock ?env g")
  obtain t2 g2 where c2: "read_clock ?env g1 = (t2, g2)" by (cases "read_clock ?env g1")
  have g1: "g_world g1 = g_world g" "g_sent g1 = g_sent g" "record_of g1 = record_of g"
    using read_clock_simps(1,4) [of ?env g] recorded_clock [of env g] by (simp_all add: c1)
  have g2: "g_world g2 = g_world g" "g_sent g2 = g_sent g" "record_of g2 = record_of g"
    using read_clock_simps(1,4) [of ?env g1] recorded_clock [of env g1] g1 by (simp_all add: c2)
  let ?g3 = "g2\<lparr>g_profile := (g_profile g2)\<lparr>pf_encode := pf_encode (g_profile g2) + since t2 t1\<rparr>\<rparr>"
  let ?g4 = "send_to_all ?env payload (world_peers (g_world g)) ?g3"
  obtain t3 g5 where c3: "read_clock ?env ?g4 = (t3, g5)" by (cases "read_clock ?env ?g4")
  have g5: "g_sent g5 = g_sent ?g4" "record_of g5 = record_of ?g4"
    using read_clock_simps(4) [of ?env ?g4] recorded_clock [of env ?g4] by (simp_all only: c3 snd_conv)
  have "g_sent g' = g_sent g5" "g_server g' = g_server g5"
    using assms g1 g2 by (auto simp: broadcast_snapshot_def c1 c2 c3 Let_def)
  then show ?thesis
    using send_recorded [of env payload "world_peers (g_world g)" ?g3] g2 g5 by auto
qed

text \<open>
  C9: A broadcast sends every joined peer, and nobody else, the same payload, which decodes to the
  snapshot of the world; \<^verbatim>\<open>snapshots_sent\<close> grows by the sends that succeeded and \<^verbatim>\<open>snapshots_dropped\<close>
  by the others, and neither the world nor the pending welcomes change.
\<close>

theorem broadcast_reaches_everyone:
  assumes "world_ok (g_world g)"
  shows "\<exists>g' payload sent. broadcast_snapshot (recorded env) g = Some g' \<and>
    decode_world_snapshot payload = Inr (snapshot (g_world g)) \<and> record_of g' = record_of g @ sent \<and>
    map (\<lambda>(peer, i, bytes, result). (peer, i, bytes)) sent =
      map (\<lambda>peer. (peer, WORLD_SNAPSHOT_GAME_MESSAGE_ID, payload)) (world_peers (g_world g)) \<and>
    g_sent g' = g_sent g + length (filter delivered sent) \<and>
    g_dropped g' = g_dropped g + length (filter (\<lambda>s. \<not> delivered s) sent) \<and>
    g_world g' = g_world g \<and> g_pending g' = g_pending g"
proof -
  have "length (ws_players (snapshot (g_world g))) \<le> u32_MAX"
    using few_players [OF assms] by (simp add: snapshot_def player_count_def bt_len_values)
  then obtain payload where payload: "encode_world_snapshot (snapshot (g_world g)) = Some payload"
    "decode_world_snapshot payload = Inr (snapshot (g_world g))"
    using snapshot_back [of "snapshot (g_world g)" "[]"] by auto
  obtain g' where g': "broadcast_snapshot (recorded env) g = Some g'" by (rule broadcast_some [OF assms])
  obtain sent where sent: "record_of g' = record_of g @ sent"
    "map (\<lambda>(peer, i, bytes, result). (peer, i, bytes)) sent =
      map (\<lambda>peer. (peer, WORLD_SNAPSHOT_GAME_MESSAGE_ID, payload)) (world_peers (g_world g))"
    "g_sent g' = g_sent g + length (filter delivered sent)"
    using broadcast_recorded [OF g' payload(1)] by blast
  have "length sent = player_count (g_world g)"
    using arg_cong [OF sent(2), of length] by (simp add: player_count_def world_peers_def bt_len_keys)
  then have "g_dropped g' = g_dropped g + length (filter (\<lambda>s. \<not> delivered s) sent)"
    using broadcast_effects(4) [OF g'] sent(3) sum_length_filter_compl [of delivered sent] by simp
  then show ?thesis using g' payload(2) sent broadcast_effects(1,3) [OF g'] by blast
qed

theorem broadcast_reaches_everyone_witness:
  "\<exists>g'. broadcast_snapshot (recorded (scripted [])) two_waiting = Some g' \<and> g_world g' = g_world two_waiting"
proof -
  have "world_ok (g_world two_waiting)"
    unfolding two_waiting_def
    by (simp, intro join_ok new_world_ok unit_trig_ok)
      (simp_all add: next_id unat_plus_if_size word_size, simp_all add: world_new_def)
  from broadcast_reaches_everyone [OF this, of "scripted []"] show ?thesis by blast
qed

section \<open>Messages that change nothing\<close>

text \<open>
  C34: A message that does not decode, or whose id the server does not expect, reaches the log and
  nothing else: for every sender, joined or not, the world, the directory, the pending welcomes and
  the counters stay as they are.
\<close>

theorem bad_messages_change_nothing:
  assumes "i = CLIENT_HELLO_GAME_MESSAGE_ID \<Longrightarrow> decode_client_hello payload = Inl error"
    and "i = PLAYER_INPUT_GAME_MESSAGE_ID \<Longrightarrow> decode_player_input payload = Inl error"
  shows "\<exists>inbound line. inbound_of (peer, Message i payload) = Some inbound \<and>
    g_world (handle env trig inbound g) = g_world g \<and> g_directory (handle env trig inbound g) = g_directory g \<and>
    g_pending (handle env trig inbound g) = g_pending g \<and> g_sent (handle env trig inbound g) = g_sent g \<and>
    g_dropped (handle env trig inbound g) = g_dropped g \<and> g_log (handle env trig inbound g) = g_log g @ [line]"
proof -
  obtain now g1 where clock: "read_clock env g = (now, g1)" by (cases "read_clock env g")
  have g1: "g_world g1 = g_world g" "g_directory g1 = g_directory g" "g_pending g1 = g_pending g" "g_sent g1 = g_sent g"
    "g_dropped g1 = g_dropped g" "g_log g1 = g_log g"
    using clock by (auto simp: read_clock_def split: prod.splits)
  obtain inbound where inbound: "inbound_of (peer, Message i payload) = Some inbound"
    and kind: "inbound = Unexpected peer i \<or> (\<exists>message text. inbound = Undecodable peer message text)"
    using assms by (cases "i = CLIENT_HELLO_GAME_MESSAGE_ID"; cases "i = PLAYER_INPUT_GAME_MESSAGE_ID") (auto simp: inbound_of_def)
  then obtain line where "handle env trig inbound g = log_line line g1" by (auto simp: handle_def clock)
  with inbound g1 show ?thesis by (intro exI [of _ inbound] exI [of _ line]) (simp add: log_line_def)
qed

theorem bad_messages_change_nothing_witness:
  "\<exists>inbound. inbound_of (2, Message PLAYER_INPUT_GAME_MESSAGE_ID [1, 2]) = Some inbound \<and>
     g_world (handle (recorded (scripted [])) unit_trig inbound two_waiting) = g_world two_waiting"
proof -
  have "decode_player_input [1, 2] = Inl (UnexpectedEof 4 2)"    by (simp add: decode_player_input_def run_decode_def PlayerInputGameCodec_decode_def field_def reader_new_def
        field_absent_def remaining_def read_u32_def reader_take_def reading_map_def)
  then show ?thesis
    using bad_messages_change_nothing [of PLAYER_INPUT_GAME_MESSAGE_ID "[1, 2]" "UnexpectedEof 4 2" 2 "recorded (scripted [])"
        unit_trig two_waiting] by (auto simp: message_ids)
qed

end
