(* ===== verification/Client_Net.thy ===== *)
theory Client_Net
  imports Game
begin

text \<open>
  What the two bots, \<^verbatim>\<open>bin/bench.rs\<close> and \<^verbatim>\<open>bin/bot.rs\<close>, see of \<^verbatim>\<open>fomoxa_net\<close>, the clock and the sleep:
  a record of functions on a state of their own. An error of the transport is its text.
\<close>

record ('c, 'e) client_net =
  cn_connect :: "string \<Rightarrow> 'e \<Rightarrow> (string + 'c) \<times> 'e"
  cn_tick_now :: "'c \<Rightarrow> 'e \<Rightarrow> event list \<times> 'c \<times> 'e"
  cn_send :: "u32 \<Rightarrow> u8 list \<Rightarrow> 'c \<Rightarrow> 'e \<Rightarrow> (send_error + unit) \<times> 'c \<times> 'e"
  cn_now :: "'e \<Rightarrow> instant \<times> 'e"
  cn_sleep :: "duration \<Rightarrow> 'e \<Rightarrow> 'e"

text \<open>What a run needs of the connection: nothing turns the clock back, and a sleep takes its time.\<close>

definition client_net_ok :: "('c, 'e) client_net \<Rightarrow> ('e \<Rightarrow> instant) \<Rightarrow> bool" where
  "client_net_ok net clock \<longleftrightarrow>
     (\<forall>e. clock e \<le> fst (cn_now net e) \<and> fst (cn_now net e) \<le> clock (snd (cn_now net e))) \<and>
     (\<forall>c e. clock e \<le> clock (snd (snd (cn_tick_now net c e)))) \<and>
     (\<forall>i payload c e. clock e \<le> clock (snd (snd (cn_send net i payload c e)))) \<and>
     (\<forall>d e. clock e + d \<le> clock (cn_sleep net d e))"

lemma client_net_okD:
  assumes "client_net_ok net clock"
  shows "cn_now net e = (now, e') \<Longrightarrow> clock e \<le> clock e'"
    and "cn_tick_now net c e = (evs, c', e') \<Longrightarrow> clock e \<le> clock e'"
    and "cn_send net i payload c e = (sent, c', e') \<Longrightarrow> clock e \<le> clock e'"
  using assms unfolding client_net_ok_def by (metis fst_conv snd_conv le_trans)+

end
