(* ===== verification/Rust_F64.thy ===== *)
theory Rust_F64
  imports Rust_Float
begin

text \<open>
  Rust's \<^verbatim>\<open>f64\<close> as its bit patterns, with the operations the load generator uses. As for \<^verbatim>\<open>f32\<close>,
  an invalid operation gives the one value \<open>NaN\<close>.
\<close>

definition f64_val :: "f64 \<Rightarrow> fval" where
  "f64_val w = from_bits F64 (uint w)"

definition f64_of :: "fval \<Rightarrow> f64" where
  "f64_of v = word_of_int (to_bits F64 v)"

definition f64_lit :: "int \<Rightarrow> int \<Rightarrow> f64" where
  "f64_lit n d = f64_of (fv_round F64 False (n * funit F64) d)"

definition f64_NAN :: f64 where
  "f64_NAN = f64_of NaN"

definition f64_EPSILON :: f64 where
  "f64_EPSILON = f64_lit 1 (2 ^ 52)"

definition f64_add :: "f64 \<Rightarrow> f64 \<Rightarrow> f64" where
  "f64_add a b = f64_of (fv_add F64 (f64_val a) (f64_val b))"

definition f64_sub :: "f64 \<Rightarrow> f64 \<Rightarrow> f64" where
  "f64_sub a b = f64_of (fv_sub F64 (f64_val a) (f64_val b))"

definition f64_mul :: "f64 \<Rightarrow> f64 \<Rightarrow> f64" where
  "f64_mul a b = f64_of (fv_mul F64 (f64_val a) (f64_val b))"

definition f64_div :: "f64 \<Rightarrow> f64 \<Rightarrow> f64" where
  "f64_div a b = f64_of (fv_div F64 (f64_val a) (f64_val b))"

definition f64_ceil :: "f64 \<Rightarrow> f64" where
  "f64_ceil a = f64_of (fv_ceil F64 (f64_val a))"

definition f64_lt :: "f64 \<Rightarrow> f64 \<Rightarrow> bool" where
  "f64_lt a b \<longleftrightarrow> fv_lt F64 (f64_val a) (f64_val b)"

definition f64_le :: "f64 \<Rightarrow> f64 \<Rightarrow> bool" where
  "f64_le a b \<longleftrightarrow> fv_le F64 (f64_val a) (f64_val b)"

definition f64_is_nan :: "f64 \<Rightarrow> bool" where
  "f64_is_nan a \<longleftrightarrow> f64_val a = NaN"

definition f64_max :: "f64 \<Rightarrow> f64 \<Rightarrow> f64" where
  "f64_max a b = (if f64_is_nan a then b else if f64_is_nan b then a else if f64_lt a b then b else a)"

definition f64_of_nat :: "nat \<Rightarrow> f64" where
  "f64_of_nat n = f64_of (fv_of_nat F64 n)"

definition f64_to_nat :: "nat \<Rightarrow> f64 \<Rightarrow> nat" where
  "f64_to_nat hi a = fv_to_nat F64 hi (f64_val a)"

text \<open>\<^verbatim>\<open>iter.sum::<f64>()\<close>, left to right.\<close>

definition f64_sum :: "f64 list \<Rightarrow> f64" where
  "f64_sum xs = foldl f64_add 0 xs"

text \<open>The key by which \<^verbatim>\<open>f64::total_cmp\<close> compares: the bits as \<^verbatim>\<open>i64\<close>, with those below the sign flipped when negative.\<close>

definition f64_total_key :: "f64 \<Rightarrow> int" where
  "f64_total_key a = (if uint a < 2 ^ 63 then uint a else 2 ^ 63 - uint a - 1)"

section \<open>Decoding\<close>

lemma sign_bit_F64: "sign_bit F64 = 2 ^ 63"
  by (simp add: sign_bit_def)

lemma f64_val_ok [simp]: "fv_ok F64 (f64_val w)"
  unfolding f64_val_def
  using f64_format.from_bits_ok [of "uint w"] uint_bounded [of w] by (simp add: sign_bit_F64)

lemma f64_val_of [simp]: "fv_ok F64 v \<Longrightarrow> f64_val (f64_of v) = v"
  using f64_format.to_bits_bounds [of v] f64_format.from_to_bits [of v]
  by (simp add: f64_val_def f64_of_def sign_bit_F64 uint_word_of_int)

named_theorems f64_vals \<open>decoding the result of an operation\<close>

lemma f64_val_lit [f64_vals]: "0 \<le> n \<Longrightarrow> 0 < d \<Longrightarrow> f64_val (f64_lit n d) = fv_round F64 False (n * funit F64) d"
  by (simp add: f64_lit_def)

lemma f64_val_add [f64_vals]: "f64_val (f64_add a b) = fv_add F64 (f64_val a) (f64_val b)"
  by (simp add: f64_add_def fv_add_ok)

lemma f64_val_sub [f64_vals]: "f64_val (f64_sub a b) = fv_sub F64 (f64_val a) (f64_val b)"
  by (simp add: f64_sub_def fv_sub_ok)

lemma f64_val_mul [f64_vals]: "f64_val (f64_mul a b) = fv_mul F64 (f64_val a) (f64_val b)"
  by (simp add: f64_mul_def fv_mul_ok)

lemma f64_val_div [f64_vals]: "f64_val (f64_div a b) = fv_div F64 (f64_val a) (f64_val b)"
  by (simp add: f64_div_def fv_div_ok)

lemma f64_val_of_nat [f64_vals]: "f64_val (f64_of_nat n) = fv_of_nat F64 n"
  by (simp add: f64_of_nat_def fv_of_nat_def)

lemma total_key_inject: "f64_total_key a = f64_total_key b \<longleftrightarrow> a = b"
proof
  assume "f64_total_key a = f64_total_key b"
  moreover have "0 \<le> uint a" "0 \<le> uint b" by simp_all
  ultimately have "uint a = uint b"
    unfolding f64_total_key_def by (cases "uint a < 2 ^ 63"; cases "uint b < 2 ^ 63"; simp only: if_True if_False; linarith)
  then show "a = b" by (rule word_uint_eqI)
qed simp

end
