(* ===== verification/Float_Text.thy ===== *)
theory Float_Text
  imports Rust_F64 Text_Format Durations
begin

text \<open>
  Floats as text and as durations: \<^verbatim>\<open>{:.n}\<close> in \<^verbatim>\<open>format!\<close> (the exact value rounded to \<open>n\<close> decimals,
  ties to even), \<^verbatim>\<open>str::parse::<f32>\<close> (the nearest float to the decimal) and the conversions of
  \<^verbatim>\<open>Duration\<close>.
\<close>

section \<open>Formatting\<close>

fun show_fixed :: "float_fmt \<Rightarrow> nat \<Rightarrow> fval \<Rightarrow> string" where
  "show_fixed F digits NaN = ''NaN''"
| "show_fixed F digits (Infty s) = (if s then ''-inf'' else ''inf'')"
| "show_fixed F digits (Fin s k) =
    (let n = nat (rne (k * 10 ^ digits) (funit F)) in
     (if s then ''-'' else '''') @ show_nat (n div 10 ^ digits)
       @ (if digits = 0 then '''' else ''.'' @ show_pad digits (n mod 10 ^ digits)))"

definition show_f32 :: "nat \<Rightarrow> f32 \<Rightarrow> string" where
  "show_f32 digits a = show_fixed F32 digits (f32_val a)"

definition show_f64 :: "nat \<Rightarrow> f64 \<Rightarrow> string" where
  "show_f64 digits a = show_fixed F64 digits (f64_val a)"

section \<open>Parsing\<close>

definition to_lower :: "string \<Rightarrow> string" where
  "to_lower s = map (\<lambda>c. if 65 \<le> (of_char c :: nat) \<and> (of_char c :: nat) \<le> 90 then char_of ((of_char c :: nat) + 32) else c) s"

definition take_sign :: "string \<Rightarrow> bool \<times> string" where
  "take_sign s = (case s of
     c # cs \<Rightarrow> if c = CHR ''-'' then (True, cs) else if c = CHR ''+'' then (False, cs) else (False, s)
   | [] \<Rightarrow> (False, s))"

definition parse_exponent :: "string \<Rightarrow> int option" where
  "parse_exponent s = (case s of
     [] \<Rightarrow> Some 0
   | c # cs \<Rightarrow> if c = CHR ''e'' \<or> c = CHR ''E'' then
       (case take_sign cs of (negative, digits) \<Rightarrow>
          if digits \<noteq> [] \<and> list_all is_digit digits
          then Some (if negative then - int (read_nat digits) else int (read_nat digits)) else None)
     else None)"

definition fv_decimal :: "float_fmt \<Rightarrow> bool \<Rightarrow> nat \<Rightarrow> int \<Rightarrow> fval" where
  "fv_decimal F s m e = (if 0 \<le> e then fv_round F s (int m * 10 ^ nat e * funit F) 1
     else fv_round F s (int m * funit F) (10 ^ nat (- e)))"

definition parse_number :: "float_fmt \<Rightarrow> bool \<Rightarrow> string \<Rightarrow> fval option" where
  "parse_number F s text =
    (let whole = takeWhile is_digit text; after = dropWhile is_digit text;
         (fraction, tail) = (case after of
            c # cs \<Rightarrow> if c = CHR ''.'' then (takeWhile is_digit cs, dropWhile is_digit cs) else ([], after)
          | [] \<Rightarrow> ([], after))
     in if whole = [] \<and> fraction = [] then None
        else map_option (\<lambda>e. fv_decimal F s (read_nat (whole @ fraction)) (e - int (length fraction))) (parse_exponent tail))"

definition parse_float :: "float_fmt \<Rightarrow> string \<Rightarrow> fval option" where
  "parse_float F text = (case take_sign text of (s, body) \<Rightarrow>
     if to_lower body = ''nan'' then Some NaN
     else if to_lower body = ''inf'' \<or> to_lower body = ''infinity'' then Some (Infty s)
     else parse_number F s body)"

definition parse_f32 :: "string \<Rightarrow> f32 option" where
  "parse_f32 text = map_option f32_of (parse_float F32 text)"

section \<open>Durations\<close>

text \<open>\<^verbatim>\<open>Duration::from_secs_f32\<close>: to the nearest nanosecond; \<open>None\<close> is its panic.\<close>

fun duration_of_fval :: "float_fmt \<Rightarrow> fval \<Rightarrow> duration option" where
  "duration_of_fval F (Fin s k) =
    (if s \<and> k \<noteq> 0 then None
     else let n = nat (rne (k * 1000000000) (funit F)) in if n < 2 ^ 64 * 1000000000 then Some n else None)"
| "duration_of_fval F x = None"

definition from_secs_f32 :: "f32 \<Rightarrow> duration option" where
  "from_secs_f32 a = duration_of_fval F32 (f32_val a)"

definition from_micros :: "nat \<Rightarrow> duration" where
  "from_micros us = us * 1000"

definition as_micros :: "duration \<Rightarrow> nat" where
  "as_micros d = d div 1000"

definition as_secs_f64 :: "duration \<Rightarrow> f64" where
  "as_secs_f64 d = f64_add (f64_of_nat (d div 1000000000))
     (f64_div (f64_of_nat (d mod 1000000000)) (f64_of_nat 1000000000))"

lemma duration_fraction:
  assumes "0 \<le> k" "k \<le> funit F"
  shows "\<exists>n. duration_of_fval F (Fin False k) = Some n \<and> n \<le> 1000000000"
proof -
  have "rne (k * 1000000000) (funit F) \<le> 1000000000" using assms by (intro rne_le) (simp_all add: mult.commute)
  then have "nat (rne (k * 1000000000) (funit F)) \<le> 1000000000" by simp
  moreover from this have "nat (rne (k * 1000000000) (funit F)) < 2 ^ 64 * 1000000000" by simp
  ultimately show ?thesis by (simp add: Let_def)
qed

end
