(* ===== verification/Bot.thy ===== *)
theory Bot
  imports Client_Net Float_Text
begin

text \<open>
  \<^verbatim>\<open>server/src/bin/bot.rs\<close>: the bot of the smoke test. A line it prints is a value that carries what the
  code interpolates, and the text of the summary.
\<close>

section \<open>Constants and options\<close>

definition BOT_DEFAULT_ADDRESS :: string where
  "BOT_DEFAULT_ADDRESS = ''127.0.0.1:9321''"

definition INPUT_INTERVAL :: duration where
  "INPUT_INTERVAL = from_millis 33"

definition REPORT_INTERVAL :: duration where
  "REPORT_INTERVAL = from_secs 1"

definition BOT_IDLE_SLEEP :: duration where
  "BOT_IDLE_SLEEP = from_millis 5"

record bot_options =
  bo_address :: string
  bo_display_name :: string
  bo_run_for :: "duration option"
  bo_expected_players :: nat

text \<open>\<open>None\<close> is the panic of \<^verbatim>\<open>Duration::from_secs_f32\<close>.\<close>

definition bot_options_of :: "string list \<Rightarrow> bot_options option" where
  "bot_options_of args =
    (let address = (case flag args ''--addr'' of Some value \<Rightarrow> value | None \<Rightarrow> BOT_DEFAULT_ADDRESS);
         display_name = (case flag args ''--name'' of Some value \<Rightarrow> value | None \<Rightarrow> ''bot'');
         expected_players = (case Option.bind (flag args ''--expect-players'') (parse_uint 64) of Some n \<Rightarrow> n | None \<Rightarrow> 1)
     in case Option.bind (flag args ''--seconds'') parse_f32 of
          None \<Rightarrow> Some \<lparr>bo_address = address, bo_display_name = display_name, bo_run_for = None,
            bo_expected_players = expected_players\<rparr>
        | Some seconds \<Rightarrow> map_option (\<lambda>limit. \<lparr>bo_address = address, bo_display_name = display_name, bo_run_for = Some limit,
            bo_expected_players = expected_players\<rparr>) (from_secs_f32 seconds))"

section \<open>What it observes\<close>

record observed =
  ob_player_id :: "u32 option"
  ob_latest :: "WorldSnapshot option"
  ob_most_players :: nat
  ob_saw_itself :: bool

definition default_observed :: observed where
  "default_observed = \<lparr>ob_player_id = None, ob_latest = None, ob_most_players = 0, ob_saw_itself = False\<rparr>"

definition observed_record :: "WorldSnapshot \<Rightarrow> observed \<Rightarrow> observed" where
  "observed_record snap seen =
    (let seen = seen\<lparr>ob_most_players := max (ob_most_players seen) (length (ws_players snap))\<rparr>;
         seen = (case ob_player_id seen of None \<Rightarrow> seen
              | Some player_id \<Rightarrow> seen\<lparr>ob_saw_itself := ob_saw_itself seen \<or>
                  list_ex (\<lambda>state. ps_player_id state = player_id) (ws_players snap)\<rparr>)
     in seen\<lparr>ob_latest := Some snap\<rparr>)"

definition state_text :: "PlayerState \<Rightarrow> string" where
  "state_text state = ''#'' @ show_nat (unat (ps_player_id state)) @ '' '' @ kind_name (ps_client_kind state)
     @ '' pos ('' @ show_f32 1 (ps_position_x state) @ '', '' @ show_f32 1 (ps_position_y state) @ '', ''
     @ show_f32 1 (ps_position_z state) @ '') look ('' @ show_f32 2 (ps_look_yaw state) @ '', ''
     @ show_f32 2 (ps_look_pitch state) @ '')''"

definition observed_summary :: "string \<Rightarrow> observed \<Rightarrow> string" where
  "observed_summary display_name seen =
    (case ob_latest seen of None \<Rightarrow> display_name @ '': no snapshot yet''
     | Some snap \<Rightarrow> display_name @ '' #'' @ show_nat (case ob_player_id seen of Some i \<Rightarrow> unat i | None \<Rightarrow> 0)
         @ '': tick '' @ show_nat (unat (ws_tick snap)) @ '' '' @ [CHR 0xC2, CHR 0xB7] @ '' ''
         @ show_nat (length (ws_players snap)) @ '' players: '' @ join_with '', '' (map state_text (ws_players snap)))"

section \<open>The loop\<close>

datatype bot_line =
    BotUnreachable string string string
  | BotJoined string u32 f32 f32 u16
  | BotUndecodable string string string
  | BotFailed string string
  | BotSummary string
  | BotVerdict string bool bool nat nat

record ('c, 'e) bot_run =
  br_connection :: 'c
  br_env :: 'e
  br_observed :: observed
  br_hello_pending :: bool
  br_sequence :: u32
  br_last_input :: instant
  br_last_report :: instant
  br_log :: "bot_line list"

definition bot_print :: "bot_line \<Rightarrow> ('c, 'e) bot_run \<Rightarrow> ('c, 'e) bot_run" where
  "bot_print line s = s\<lparr>br_log := br_log s @ [line]\<rparr>"

definition bot_now :: "('c, 'e) client_net \<Rightarrow> ('c, 'e) bot_run \<Rightarrow> instant \<times> ('c, 'e) bot_run" where
  "bot_now net s = (case cn_now net (br_env s) of (now, e) \<Rightarrow> (now, s\<lparr>br_env := e\<rparr>))"

definition bot_send :: "('c, 'e) client_net \<Rightarrow> u32 \<Rightarrow> u8 list \<Rightarrow> ('c, 'e) bot_run \<Rightarrow> (send_error + unit) \<times> ('c, 'e) bot_run" where
  "bot_send net i payload s = (case cn_send net i payload (br_connection s) (br_env s) of (sent, c, e) \<Rightarrow>
     (sent, s\<lparr>br_connection := c, br_env := e\<rparr>))"

text \<open>One event; the second component is \<^verbatim>\<open>failure\<close>.\<close>

definition bot_event :: "string \<Rightarrow> event \<Rightarrow> ('c, 'e) bot_run \<times> string option \<Rightarrow> ('c, 'e) bot_run \<times> string option" where
  "bot_event display_name e sf = (case sf of (s, failure) \<Rightarrow> (case e of
       Ready \<Rightarrow> (s\<lparr>br_hello_pending := True\<rparr>, failure)
     | Message i payload \<Rightarrow>
         if i = WELCOME_GAME_MESSAGE_ID then
           (case decode_welcome payload of
              Inr w \<Rightarrow> (bot_print (BotJoined display_name (wl_player_id w) (f32_mul (wl_plane_half_size w) (f32_lit 2 1))
                  (f32_mul (wl_plane_half_size w) (f32_lit 2 1)) (wl_tick_rate w))
                (s\<lparr>br_observed := (br_observed s)\<lparr>ob_player_id := Some (wl_player_id w)\<rparr>\<rparr>), failure)
            | Inl error \<Rightarrow> (bot_print (BotUndecodable display_name ''Welcome'' (show_decode_error error)) s, failure))
         else if i = WORLD_SNAPSHOT_GAME_MESSAGE_ID then
           (case decode_world_snapshot payload of
              Inr snap \<Rightarrow> (s\<lparr>br_observed := observed_record snap (br_observed s)\<rparr>, failure)
            | Inl error \<Rightarrow> (bot_print (BotUndecodable display_name ''WorldSnapshot'' (show_decode_error error)) s, failure))
         else (s, failure)
     | HandshakeFailed reason \<Rightarrow> (s, Some (''handshake refused: '' @ reason))
     | Disconnected reason \<Rightarrow> (s, Some (''disconnected: '' @ reason))
     | Connected \<Rightarrow> (s, failure)
     | Probe \<Rightarrow> (s, failure)
     | Ack \<Rightarrow> (s, failure)))"

definition bot_events :: "string \<Rightarrow> event list \<Rightarrow> ('c, 'e) bot_run \<Rightarrow> ('c, 'e) bot_run \<times> string option" where
  "bot_events display_name evs s = fold (bot_event display_name) evs (s, None)"

text \<open>\<open>None\<close> is the panic of the encoder on a name beyond \<^verbatim>\<open>u32::MAX\<close> bytes.\<close>

definition bot_hello :: "('c, 'e) client_net \<Rightarrow> string \<Rightarrow> ('c, 'e) bot_run \<Rightarrow> ('c, 'e) bot_run option" where
  "bot_hello net display_name s =
    (if \<not> br_hello_pending s then Some s
     else map_option (\<lambda>payload. case bot_send net CLIENT_HELLO_GAME_MESSAGE_ID payload s of (sent, s) \<Rightarrow>
            s\<lparr>br_hello_pending := (sent = Inl Congested)\<rparr>)
          (encode_client_hello \<lparr>ch_client_kind = BOT, ch_display_name = display_name\<rparr>))"

definition bot_input ::
    "('c, 'e) client_net \<Rightarrow> trig \<Rightarrow> (f32 \<Rightarrow> f32 \<Rightarrow> f32) \<Rightarrow> instant \<Rightarrow> ('c, 'e) bot_run \<Rightarrow> ('c, 'e) bot_run" where
  "bot_input net trig atan2 started s =
    (if ob_player_id (br_observed s) = None then s
     else (case bot_now net s of (now, s) \<Rightarrow>
       if since now (br_last_input s) < INPUT_INTERVAL then s
       else (case bot_now net s of (now, s) \<Rightarrow>
         let angle = as_secs_f32 (since now started);
             s = s\<lparr>br_sequence := br_sequence s + 1\<rparr>;
             move_x = trig_cos trig angle; move_z = trig_sin trig angle;
             input = \<lparr>pi_sequence = br_sequence s, pi_move_x = move_x, pi_move_z = move_z, pi_jump = True,
               pi_look_yaw = atan2 (f32_neg move_x) (f32_neg move_z),
               pi_look_pitch = f32_mul (f32_lit 4 10) (trig_sin trig (f32_mul angle (f32_lit 2 1)))\<rparr>
         in (case bot_send net PLAYER_INPUT_GAME_MESSAGE_ID (encode_player_input input) s of
               (Inr ok, s) \<Rightarrow> (case bot_now net s of (now, s) \<Rightarrow> s\<lparr>br_last_input := now\<rparr>)
             | (Inl error, s) \<Rightarrow> s))))"

definition bot_report :: "('c, 'e) client_net \<Rightarrow> string \<Rightarrow> ('c, 'e) bot_run \<Rightarrow> ('c, 'e) bot_run" where
  "bot_report net display_name s =
    (case bot_now net s of (now, s) \<Rightarrow>
       if since now (br_last_report s) < REPORT_INTERVAL then s
       else (case bot_now net (bot_print (BotSummary (observed_summary display_name (br_observed s))) s) of
         (now, s) \<Rightarrow> s\<lparr>br_last_report := now\<rparr>))"

text \<open>The end of a turn: \<open>Some code\<close> when the bot exits.\<close>

definition bot_verdict ::
    "('c, 'e) client_net \<Rightarrow> bot_options \<Rightarrow> instant \<Rightarrow> ('c, 'e) bot_run \<Rightarrow> nat option \<times> ('c, 'e) bot_run" where
  "bot_verdict net options started s =
    (case bo_run_for options of None \<Rightarrow> (None, s)
     | Some limit \<Rightarrow>
       (case bot_now net s of (now, s) \<Rightarrow>
        if since now started < limit then (None, s)
        else
          let passed = ob_saw_itself (br_observed s) \<and> bo_expected_players options \<le> ob_most_players (br_observed s)
          in (Some (if passed then 0 else 1),
              bot_print (BotVerdict (bo_display_name options) passed (ob_saw_itself (br_observed s))
                (ob_most_players (br_observed s)) (bo_expected_players options)) s)))"

text \<open>One turn of \<^verbatim>\<open>loop\<close>, up to the sleep: \<open>None\<close> is a panic, an exit code ends the program.\<close>

definition bot_turn ::
    "('c, 'e) client_net \<Rightarrow> trig \<Rightarrow> (f32 \<Rightarrow> f32 \<Rightarrow> f32) \<Rightarrow> bot_options \<Rightarrow> instant \<Rightarrow> ('c, 'e) bot_run
      \<Rightarrow> (nat option \<times> ('c, 'e) bot_run) option" where
  "bot_turn net trig atan2 options started s =
    (case cn_tick_now net (br_connection s) (br_env s) of (evs, c, e) \<Rightarrow>
     (case bot_events (bo_display_name options) evs (s\<lparr>br_connection := c, br_env := e\<rparr>) of
        (s, Some reason) \<Rightarrow> Some (Some 1, bot_print (BotFailed (bo_display_name options) reason) s)
      | (s, None) \<Rightarrow>
        map_option (\<lambda>s. bot_verdict net options started
            (bot_report net (bo_display_name options) (bot_input net trig atan2 started s)))
          (bot_hello net (bo_display_name options) s)))"

definition bot_sleep :: "('c, 'e) client_net \<Rightarrow> ('c, 'e) bot_run \<Rightarrow> ('c, 'e) bot_run" where
  "bot_sleep net s = s\<lparr>br_env := cn_sleep net BOT_IDLE_SLEEP (br_env s)\<rparr>"

partial_function (option) bot_loop ::
    "('c, 'e) client_net \<Rightarrow> trig \<Rightarrow> (f32 \<Rightarrow> f32 \<Rightarrow> f32) \<Rightarrow> bot_options \<Rightarrow> instant \<Rightarrow> ('c, 'e) bot_run
      \<Rightarrow> (nat \<times> ('c, 'e) bot_run) option" where
  "bot_loop net trig atan2 options started s =
    Option.bind (bot_turn net trig atan2 options started s) (\<lambda>(code, s).
      case code of Some n \<Rightarrow> Some (n, s)
      | None \<Rightarrow> bot_loop net trig atan2 options started (bot_sleep net s))"

definition bot_start :: "'c \<Rightarrow> instant \<Rightarrow> 'e \<Rightarrow> ('c, 'e) bot_run" where
  "bot_start connection started e = \<lparr>br_connection = connection, br_env = e, br_observed = default_observed,
     br_hello_pending = False, br_sequence = 0, br_last_input = started, br_last_report = started, br_log = []\<rparr>"

text \<open>\<^verbatim>\<open>main\<close>: the exit code and what was printed; \<open>None\<close> when it panics or runs forever.\<close>

definition bot_main ::
    "('c, 'e) client_net \<Rightarrow> trig \<Rightarrow> (f32 \<Rightarrow> f32 \<Rightarrow> f32) \<Rightarrow> string list \<Rightarrow> 'e \<Rightarrow> (nat \<times> bot_line list) option" where
  "bot_main net trig atan2 args e =
    (case bot_options_of args of None \<Rightarrow> None
     | Some options \<Rightarrow>
       (case cn_connect net (bo_address options) e of
          (Inl error, e) \<Rightarrow> Some (1, [BotUnreachable (bo_display_name options) (bo_address options) error])
        | (Inr connection, e) \<Rightarrow>
          (case cn_now net e of (started, e) \<Rightarrow>
             map_option (\<lambda>(code, s). (code, br_log s))
               (bot_loop net trig atan2 options started (bot_start connection started e)))))"

end
