(* ===== verification/Bot_Props.thy ===== *)
theory Bot_Props
  imports Bot
begin

text \<open>What the bot of the smoke test remembers of the server's messages, and its verdict.\<close>

section \<open>The history of the events\<close>

definition event_welcome :: "event \<Rightarrow> u32 option" where
  "event_welcome e = (case e of Message i payload \<Rightarrow>
       if i = WELCOME_GAME_MESSAGE_ID then (case decode_welcome payload of Inr w \<Rightarrow> Some (wl_player_id w) | Inl error \<Rightarrow> None)
       else None
     | _ \<Rightarrow> None)"

definition event_snapshot :: "event \<Rightarrow> WorldSnapshot option" where
  "event_snapshot e = (case e of Message i payload \<Rightarrow>
       if i = WORLD_SNAPSHOT_GAME_MESSAGE_ID then (case decode_world_snapshot payload of Inr snap \<Rightarrow> Some snap | Inl error \<Rightarrow> None)
       else None
     | _ \<Rightarrow> None)"

definition event_failure :: "event \<Rightarrow> string option" where
  "event_failure e = (case e of HandshakeFailed reason \<Rightarrow> Some (''handshake refused: '' @ reason)
     | Disconnected reason \<Rightarrow> Some (''disconnected: '' @ reason) | _ \<Rightarrow> None)"

definition latest :: "('a \<Rightarrow> 'b option) \<Rightarrow> 'a list \<Rightarrow> 'b option" where
  "latest f xs = fold (\<lambda>x y. case f x of None \<Rightarrow> y | Some z \<Rightarrow> Some z) xs None"

definition saw_itself_in :: "event list \<Rightarrow> bool" where
  "saw_itself_in evs \<longleftrightarrow> (\<exists>k < length evs. \<exists>snap i. event_snapshot (evs ! k) = Some snap \<and>
     latest event_welcome (take k evs) = Some i \<and> i \<in> ps_player_id ` set (ws_players snap))"

lemma latest_simps [simp]:
  "latest f [] = None"
  "latest f (xs @ [x]) = (case f x of None \<Rightarrow> latest f xs | Some z \<Rightarrow> Some z)"
  by (simp add: latest_def, cases "f x", simp_all add: latest_def)

lemma saw_itself_snoc:
  "saw_itself_in (evs @ [e]) \<longleftrightarrow> saw_itself_in evs \<or>
     (\<exists>snap i. event_snapshot e = Some snap \<and> latest event_welcome evs = Some i \<and> i \<in> ps_player_id ` set (ws_players snap))"
proof -
  have split: "(\<exists>k < Suc n. P k) \<longleftrightarrow> (\<exists>k < n. P k) \<or> P n" for n and P :: "nat \<Rightarrow> bool"
    by (auto simp: less_Suc_eq)
  show ?thesis unfolding saw_itself_in_def length_append_singleton split
    by (intro arg_cong2 [where f = "(\<or>)"]) (auto simp: nth_append)
qed

lemma map_filter_snoc: "List.map_filter f (xs @ [x]) = List.map_filter f xs @ (case f x of None \<Rightarrow> [] | Some y \<Rightarrow> [y])"
  by (simp add: List.map_filter_def split: option.split)

lemma game_ids: "WELCOME_GAME_MESSAGE_ID \<noteq> WORLD_SNAPSHOT_GAME_MESSAGE_ID"
  by (simp add: WELCOME_GAME_MESSAGE_ID_def WORLD_SNAPSHOT_GAME_MESSAGE_ID_def)

lemma bot_event_observed:
  "br_observed (fst (bot_event name e (s, f))) =
     (case event_snapshot e of Some snap \<Rightarrow> observed_record snap (br_observed s)
      | None \<Rightarrow> (case event_welcome e of Some i \<Rightarrow> (br_observed s)\<lparr>ob_player_id := Some i\<rparr> | None \<Rightarrow> br_observed s))"
  using game_ids
  by (auto simp: bot_event_def event_snapshot_def event_welcome_def bot_print_def split: event.split sum.split)

lemma bot_event_failure:
  "snd (bot_event name e (s, f)) = (case event_failure e of None \<Rightarrow> f | Some reason \<Rightarrow> Some reason)"
  by (auto simp: bot_event_def event_failure_def split: event.split sum.split)

lemma event_kinds: "event_snapshot e = Some snap \<Longrightarrow> event_welcome e = None"
  using game_ids by (auto simp: event_snapshot_def event_welcome_def split: event.splits if_splits)

lemma events_observed:
  assumes "br_observed s = default_observed"
  shows "br_observed (fst (bot_events name evs s)) =
      \<lparr>ob_player_id = latest event_welcome evs, ob_latest = latest event_snapshot evs,
       ob_most_players = Max (insert 0 (length ` ws_players ` set (List.map_filter event_snapshot evs))),
       ob_saw_itself = saw_itself_in evs\<rparr>
    \<and> snd (bot_events name evs s) = latest event_failure evs"
proof (induction evs rule: rev_induct)
  case Nil
  then show ?case using assms by (simp add: bot_events_def default_observed_def saw_itself_in_def)
next
  case (snoc e evs)
  obtain s' f where run: "bot_events name evs s = (s', f)" by (cases "bot_events name evs s")
  have step: "bot_events name (evs @ [e]) s = bot_event name e (s', f)" using run by (simp add: bot_events_def)
  have most: "Max (insert 0 (insert n A)) = max (Max (insert 0 A)) n" if "finite A" for n :: nat and A
    using that by (simp add: insert_commute [of 0 n] max.commute)
  have observed: "br_observed s' = \<lparr>ob_player_id = latest event_welcome evs, ob_latest = latest event_snapshot evs,
       ob_most_players = Max (insert 0 (length ` ws_players ` set (List.map_filter event_snapshot evs))),
       ob_saw_itself = saw_itself_in evs\<rparr>" and failure: "f = latest event_failure evs"
    using snoc.IH unfolding run by (simp_all only: fst_conv snd_conv)
  show ?case
  proof (cases "event_snapshot e")
    case None
    then show ?thesis
      by (cases "event_welcome e") (simp_all add: step bot_event_observed bot_event_failure saw_itself_snoc map_filter_snoc
          observed failure)
  next
    case (Some snap)
    have "observed_record snap (br_observed s') = \<lparr>ob_player_id = latest event_welcome evs, ob_latest = Some snap,
        ob_most_players = max (ob_most_players (br_observed s')) (length (ws_players snap)),
        ob_saw_itself = saw_itself_in (evs @ [e])\<rparr>"
      unfolding saw_itself_snoc Some observed
      by (cases "latest event_welcome evs") (auto simp: observed_record_def list_ex_iff image_iff)
    with Some show ?thesis
      using most [of "length ` ws_players ` set (List.map_filter event_snapshot evs)" "length (ws_players snap)"]
      by (simp add: step bot_event_observed bot_event_failure map_filter_snoc event_kinds failure observed)
  qed
qed

text \<open>
  C40: What the bot remembers is the history of its connection: the identity of the last welcome it
  could decode, the last snapshot, the largest number of players in any of them, and whether some
  snapshot showed the identity the bot had at that moment. A disconnection or a refused handshake
  anywhere among the events of a turn is reported, the last one, even when messages follow it.
\<close>

theorem bot_remembers_its_history:
  assumes "br_observed s = default_observed"
  shows "br_observed (fst (bot_events name evs s)) =
      \<lparr>ob_player_id = latest event_welcome evs, ob_latest = latest event_snapshot evs,
       ob_most_players = Max (insert 0 (length ` ws_players ` set (List.map_filter event_snapshot evs))),
       ob_saw_itself = saw_itself_in evs\<rparr>
    \<and> snd (bot_events name evs s) = latest event_failure evs"
  by (rule events_observed [OF assms])

theorem bot_remembers_its_history_witness:
  "br_observed (fst (bot_events ''bot'' [Message WELCOME_GAME_MESSAGE_ID (encode_welcome (default_welcome\<lparr>wl_player_id := 3\<rparr>)),
      Disconnected ''reset'', Ready] (bot_start (0 :: nat) 0 (0 :: nat)))) =
    \<lparr>ob_player_id = Some 3, ob_latest = None, ob_most_players = 0, ob_saw_itself = False\<rparr>"
    (is "br_observed (fst (bot_events _ ?evs _)) = _")
proof -
  let ?w = "default_welcome\<lparr>wl_player_id := 3\<rparr>"
  have joined: "latest event_welcome ?evs = Some 3"
    using welcome_back [of ?w "[]"] by (simp add: latest_def event_welcome_def)
  have none: "event_snapshot (?evs ! k) = None" if "k < 3" for k
    using that game_ids less_antisym [of k 2] by (auto simp: event_snapshot_def nth_Cons split: nat.split)
  then have "\<not> saw_itself_in ?evs" by (auto simp: saw_itself_in_def)
  moreover have "latest event_snapshot ?evs = None" "List.map_filter event_snapshot ?evs = []"
    using none [of 0] none [of 1] none [of 2] by (simp_all add: latest_def List.map_filter_def)
  ultimately show ?thesis
    using conjunct1 [OF bot_remembers_its_history [of "bot_start (0 :: nat) 0 (0 :: nat)" "''bot''" ?evs]] joined
    by (simp add: bot_start_def)
qed

section \<open>The verdict\<close>

lemma bot_now_ok:
  assumes "client_net_ok net clock" "bot_now net s = (now, s')"
  shows "clock (br_env s) \<le> now" "now \<le> clock (br_env s')"
proof -
  obtain e where "cn_now net (br_env s) = (now, e)" "br_env s' = e"
    using assms(2) by (auto simp: bot_now_def split: prod.splits)
  with assms(1) show "clock (br_env s) \<le> now" "now \<le> clock (br_env s')"
    unfolding client_net_ok_def by (metis fst_conv, metis fst_conv snd_conv)
qed

lemma bot_send_ok:
  assumes "client_net_ok net clock" "bot_send net i payload s = (sent, s')"
  shows "clock (br_env s) \<le> clock (br_env s')"
  using assms client_net_okD(3) [OF assms(1)] by (auto simp: bot_send_def split: prod.splits)

lemma bot_event_env: "br_env (fst (bot_event name e sf)) = br_env (fst sf)"
  by (auto simp: bot_event_def bot_print_def split: event.split sum.split prod.split)

lemma fold_event_env: "br_env (fst (fold (bot_event name) evs sf)) = br_env (fst sf)"
  by (induction evs arbitrary: sf) (simp_all add: bot_event_env)

lemma bot_events_env: "br_env (fst (bot_events name evs s)) = br_env s"
  by (simp add: bot_events_def fold_event_env)

lemma bot_print_env [simp]: "br_env (bot_print line s) = br_env s"
  by (simp add: bot_print_def)

lemma bot_hello_ok:
  assumes "client_net_ok net clock" "length name \<le> u32_MAX"
  shows "\<exists>s'. bot_hello net name s = Some s' \<and> clock (br_env s) \<le> clock (br_env s')"
  using assms bot_send_ok [OF assms(1)] by (auto simp: bot_hello_def encode_bytes split: prod.split)

lemma bot_input_ok:
  assumes "client_net_ok net clock"
  shows "clock (br_env s) \<le> clock (br_env (bot_input net trig atan2 started s))"
proof -
  obtain t1 s1 where 1: "bot_now net s = (t1, s1)" by (cases "bot_now net s")
  obtain t2 s2 where 2: "bot_now net s1 = (t2, s2)" by (cases "bot_now net s1")
  have le: "clock (br_env s) \<le> clock (br_env s1)" "clock (br_env s1) \<le> clock (br_env s2)"
    using bot_now_ok [OF assms 1] bot_now_ok [OF assms 2] by linarith+
  have send: "clock (br_env s2) \<le> clock (br_env s4)"
    if "bot_send net i payload (s2\<lparr>br_sequence := q\<rparr>) = (sent, s4)" for i payload q sent s4
    using bot_send_ok [OF assms that] by simp
  have clock_now: "clock (br_env s4) \<le> clock (br_env s5)" if "bot_now net s4 = (t, s5)" for s4 t s5
    using bot_now_ok [OF assms that] by linarith
  show ?thesis
    using le by (auto simp: bot_input_def 1 2 Let_def split: prod.split sum.split dest!: send clock_now)
qed

lemma bot_report_ok:
  assumes "client_net_ok net clock"
  shows "clock (br_env s) \<le> clock (br_env (bot_report net name s))"
proof -
  obtain t1 s1 where 1: "bot_now net s = (t1, s1)" by (cases "bot_now net s")
  obtain t2 s2 where 2: "bot_now net (bot_print (BotSummary (observed_summary name (br_observed s1))) s1) = (t2, s2)"
    by (cases "bot_now net (bot_print (BotSummary (observed_summary name (br_observed s1))) s1)")
  show ?thesis
    using bot_now_ok [OF assms 1] bot_now_ok [OF assms 2] by (auto simp: bot_report_def 1 2)
qed

text \<open>What an exit code stands for, and the last line printed.\<close>

definition verdict_ok :: "bot_options \<Rightarrow> nat \<Rightarrow> ('c, 'e) bot_run \<Rightarrow> bool" where
  "verdict_ok options code s \<longleftrightarrow>
    (let saw = ob_saw_itself (br_observed s); most = ob_most_players (br_observed s); expected = bo_expected_players options
     in (code = 0 \<and> saw \<and> expected \<le> most \<and> last (br_log s) = BotVerdict (bo_display_name options) True saw most expected)
      \<or> (code = 1 \<and> \<not> (saw \<and> expected \<le> most) \<and> last (br_log s) = BotVerdict (bo_display_name options) False saw most expected)
      \<or> (code = 1 \<and> (\<exists>reason. last (br_log s) = BotFailed (bo_display_name options) reason)))"

lemma bot_verdict_ok:
  assumes net: "client_net_ok net clock" and limit: "bo_run_for options = Some limit"
    and run: "bot_verdict net options started s = (code, s')"
  shows "clock (br_env s) \<le> clock (br_env s') \<and>
    (case code of None \<Rightarrow> clock (br_env s) < started + limit | Some n \<Rightarrow> verdict_ok options n s')"
proof -
  obtain now s1 where now: "bot_now net s = (now, s1)" by (cases "bot_now net s")
  note clock = bot_now_ok [OF net now]
  have same: "br_observed s1 = br_observed s" using now by (auto simp: bot_now_def split: prod.splits)
  show ?thesis
    using run clock limit
    by (auto simp: bot_verdict_def now since_def bot_print_def verdict_ok_def Let_def split: if_splits)
qed

lemma bot_turn_ok:
  assumes net: "client_net_ok net clock" and name: "length (bo_display_name options) \<le> u32_MAX"
    and limit: "bo_run_for options = Some limit"
  shows "\<exists>code s'. bot_turn net trig atan2 options started s = Some (code, s') \<and> clock (br_env s) \<le> clock (br_env s') \<and>
    (case code of None \<Rightarrow> clock (br_env s) < started + limit | Some n \<Rightarrow> verdict_ok options n s')"
proof -
  let ?name = "bo_display_name options"
  obtain evs c e where tick: "cn_tick_now net (br_connection s) (br_env s) = (evs, c, e)"
    by (cases "cn_tick_now net (br_connection s) (br_env s)")
  obtain s1 failure where events: "bot_events ?name evs (s\<lparr>br_connection := c, br_env := e\<rparr>) = (s1, failure)"
    by (cases "bot_events ?name evs (s\<lparr>br_connection := c, br_env := e\<rparr>)")
  have "br_env s1 = e" using bot_events_env [of ?name evs "s\<lparr>br_connection := c, br_env := e\<rparr>"] events by simp
  then have s1: "clock (br_env s) \<le> clock (br_env s1)" using client_net_okD(2) [OF net tick] by simp
  show ?thesis
  proof (cases failure)
    case (Some reason)
    then show ?thesis using s1 by (simp add: bot_turn_def tick events verdict_ok_def bot_print_def Let_def)
  next
    case None
    obtain s2 where s2: "bot_hello net ?name s1 = Some s2" "clock (br_env s1) \<le> clock (br_env s2)"
      using bot_hello_ok [OF net name] by blast
    let ?s4 = "bot_report net ?name (bot_input net trig atan2 started s2)"
    have s4: "clock (br_env s2) \<le> clock (br_env ?s4)"
      using bot_input_ok [OF net] bot_report_ok [OF net] by (rule order_trans)
    obtain code s5 where verdict: "bot_verdict net options started ?s4 = (code, s5)"
      by (cases "bot_verdict net options started ?s4")
    show ?thesis
      using bot_verdict_ok [OF net limit verdict] s1 s2 s4 None
      by (auto simp: bot_turn_def tick events verdict split: option.splits)
  qed
qed

lemma bot_loop_ok:
  assumes net: "client_net_ok net clock" and name: "length (bo_display_name options) \<le> u32_MAX"
    and limit: "bo_run_for options = Some limit"
  shows "\<exists>code s'. bot_loop net trig atan2 options started s = Some (code, s') \<and> verdict_ok options code s'"
proof (induction "started + limit - clock (br_env s)" arbitrary: s rule: less_induct)
  case less
  obtain code s1 where turn: "bot_turn net trig atan2 options started s = Some (code, s1)" "clock (br_env s) \<le> clock (br_env s1)"
    "case code of None \<Rightarrow> clock (br_env s) < started + limit | Some n \<Rightarrow> verdict_ok options n s1"
    using bot_turn_ok [OF net name limit] by blast
  show ?case
  proof (cases code)
    case (Some n)
    then show ?thesis using turn by (simp add: bot_loop.simps [of net trig atan2 options started s])
  next
    case None
    have "clock (br_env s1) + BOT_IDLE_SLEEP \<le> clock (br_env (bot_sleep net s1))"
      using net by (simp add: client_net_ok_def bot_sleep_def)
    then have "clock (br_env s) < clock (br_env (bot_sleep net s1))"
      using turn(2) by (simp add: BOT_IDLE_SLEEP_def from_millis_def)
    then have "started + limit - clock (br_env (bot_sleep net s1)) < started + limit - clock (br_env s)"
      using turn(3) None by simp
    from less.hyps [OF this] show ?thesis
      using turn(1) None by (simp add: bot_loop.simps [of net trig atan2 options started s])
  qed
qed


text \<open>A server that accepts the connection and stays silent, and a bot that waits a second for it.\<close>

definition silent_net :: "(nat, nat) client_net" where
  "silent_net = \<lparr>cn_connect = \<lambda>address e. (Inr 0, e), cn_tick_now = \<lambda>c e. ([], c, e),
     cn_send = \<lambda>i payload c e. (Inl Congested, c, e), cn_now = \<lambda>e. (e, e), cn_sleep = \<lambda>d e. e + d\<rparr>"

lemma seconds_one: "bot_options_of [''bot'', ''--seconds'', ''1''] = Some \<lparr>bo_address = BOT_DEFAULT_ADDRESS,
  bo_display_name = ''bot'', bo_run_for = Some 1000000000, bo_expected_players = 1\<rparr>"
proof -
  have "parse_f32 ''1'' = Some (f32_lit 1 1)"
    by (simp add: parse_f32_def parse_float_def take_sign_def to_lower_def parse_number_def parse_exponent_def is_digit_def
        fv_decimal_def read_nat_def digit_val_def f32_lit_def)
  moreover have "from_secs_f32 (f32_lit 1 1) = Some 1000000000"
    by (simp add: from_secs_f32_def f32_val_lit fv_round_def fv_mk_def round_units_def funit_def flimit_def rne_def Let_def)
  ultimately show ?thesis by (simp add: bot_options_of_def flag_def slice_get_def Let_def)
qed


end
