(* ===== verification/Session.thy ===== *)
theory Session
  imports Game_Send Bot_Props
begin

text \<open>
  The server (\<^verbatim>\<open>main.rs\<close>) and the bot of the smoke test (\<^verbatim>\<open>bin/bot.rs\<close>) together: what a client hears
  of a server, and what the bot makes of it. The connection between the two belongs to \<^verbatim>\<open>fomoxa_net\<close>;
  it hands a client the messages that \<^verbatim>\<open>Server::send\<close> accepted for it, in their order.
\<close>

section \<open>What a client hears\<close>

definition heard_by :: "'p \<Rightarrow> 'p sent \<Rightarrow> event option" where
  "heard_by peer s = (case s of (receiver, i, payload, result) \<Rightarrow>
     if receiver = peer \<and> result = Inr () then Some (Message i payload) else None)"

definition inbox :: "'p \<Rightarrow> 'p sent list \<Rightarrow> event list" where
  "inbox peer sent = List.map_filter (heard_by peer) sent"

lemma inbox_append [simp]: "inbox peer (xs @ ys) = inbox peer xs @ inbox peer ys"
  by (simp add: inbox_def List.map_filter_def)

lemma inbox_simps [simp]:
  "inbox peer [] = []"
  "inbox peer (s # sent) = (case heard_by peer s of None \<Rightarrow> [] | Some e \<Rightarrow> [e]) @ inbox peer sent"
  by (simp_all add: inbox_def List.map_filter_def split: option.split)

lemma inbox_others: "\<forall>s \<in> set sent. fst s \<noteq> peer \<Longrightarrow> inbox peer sent = []"
  by (induction sent) (auto simp: heard_by_def split: prod.split)

text \<open>What the server tells a player \<open>i\<close>: its Welcome, or a snapshot it is in.\<close>

definition tells_welcome :: "u32 \<Rightarrow> event \<Rightarrow> bool" where
  "tells_welcome i e \<longleftrightarrow> (\<exists>payload w. e = Message WELCOME_GAME_MESSAGE_ID payload \<and> decode_welcome payload = Inr w \<and>
     wl_player_id w = i \<and> wl_plane_half_size w = PLANE_HALF_SIZE \<and> wl_tick_rate w = TICK_RATE)"

definition tells_snapshot :: "u32 \<Rightarrow> event \<Rightarrow> bool" where
  "tells_snapshot i e \<longleftrightarrow> (\<exists>payload snap. e = Message WORLD_SNAPSHOT_GAME_MESSAGE_ID payload \<and>
     decode_world_snapshot payload = Inr snap \<and> i \<in> ps_player_id ` set (ws_players snap))"

lemma tells_events:
  "tells_welcome i e \<Longrightarrow> event_welcome e = Some i" "tells_welcome i e \<Longrightarrow> event_snapshot e = None"
  "tells_snapshot i e \<Longrightarrow> event_welcome e = None"
  "tells_snapshot i e \<Longrightarrow> \<exists>snap. event_snapshot e = Some snap \<and> i \<in> ps_player_id ` set (ws_players snap)"
  "tells_welcome i e \<Longrightarrow> event_failure e = None" "tells_snapshot i e \<Longrightarrow> event_failure e = None"
  using game_ids by (auto simp: tells_welcome_def tells_snapshot_def event_welcome_def event_snapshot_def event_failure_def)

section \<open>The invariant of a conversation\<close>

text \<open>
  Nothing is said to a peer that is not in the world. A player hears its one Welcome, once that is no
  longer pending, and snapshots with itself in them. With a \<open>reliable\<close> link the Welcome has arrived as
  soon as it is not pending.
\<close>

definition conversation :: "bool \<Rightarrow> 'p \<Rightarrow> 'p world \<Rightarrow> ('p::linorder, unit) btree \<Rightarrow> 'p sent list \<Rightarrow> bool" where
  "conversation reliable peer w pending sent \<longleftrightarrow> (case world_player w peer of
     None \<Rightarrow> inbox peer sent = []
   | Some p \<Rightarrow>
       list_all (\<lambda>e. tells_welcome (pl_id p) e \<or> tells_snapshot (pl_id p) e) (inbox peer sent) \<and>
       length (filter (tells_welcome (pl_id p)) (inbox peer sent)) \<le> (if bt_get pending peer = None then 1 else 0) \<and>
       (reliable \<and> bt_get pending peer = None \<longrightarrow> (\<exists>e \<in> set (inbox peer sent). tells_welcome (pl_id p) e)))"

abbreviation game_conversation :: "bool \<Rightarrow> 'p::linorder \<Rightarrow> ('e \<times> 'p sent list, 'p) game \<Rightarrow> bool" where
  "game_conversation reliable peer g \<equiv> conversation reliable peer (g_world g) (g_pending g) (record_of g)"

text \<open>An inbound that closes the peer's connection.\<close>

fun closes :: "'p \<Rightarrow> 'p inbound \<Rightarrow> bool" where
  "closes peer (HandshakeRefused q reason) = (q = peer)"
| "closes peer (PeerDisconnected q reason) = (q = peer)"
| "closes peer other = False"

lemma unless_quiet_server: "(\<And>g. g_server (f g) = g_server g) \<Longrightarrow> g_server (unless_quiet f g) = g_server g"
  by (simp add: unless_quiet_def)

lemma log_roster_server [simp]: "g_server (log_roster env g) = g_server g"
  by (simp add: log_roster_def)

lemma forget_server [simp]: "g_server (forget env peer now reason g) = g_server g"
  by (simp add: forget_def Let_def split: prod.split option.split)

lemma hello_server [simp]: "g_server (handle_hello env trig peer hello g) = g_server g"
  by (simp add: handle_hello_def Let_def split: option.split)

lemma handle_server: "g_server (handle env trig inbound g) = g_server (snd (read_clock env g))"
  by (cases inbound; simp add: handle_def Let_def unless_quiet_server split: prod.split)

lemma handle_record [simp]: "record_of (handle (recorded env) trig inbound g) = record_of g"
  by (simp add: handle_server)

lemma conversation_same:
  assumes "map_option pl_id (world_player w' peer) = map_option pl_id (world_player w peer)"
    and "bt_get pending' peer = bt_get pending peer"
  shows "conversation reliable peer w' pending' sent = conversation reliable peer w pending sent"
  using assms by (cases "world_player w peer"; cases "world_player w' peer") (simp_all add: conversation_def)

lemma conversation_joined:
  "conversation reliable peer w pending sent \<Longrightarrow> world_player w peer = None \<Longrightarrow> bt_get pending' peer \<noteq> None \<Longrightarrow>
     conversation reliable peer w' pending' sent"
  by (auto simp: conversation_def split: option.split)

lemma handle_identity:
  assumes "linked g" "\<not> closes peer inbound"
  shows "(map_option pl_id (world_player (world_effect trig inbound (g_world g)) peer) = map_option pl_id (world_player (g_world g) peer)
      \<and> bt_get (pending_effect (g_world g) inbound (g_pending g)) peer = bt_get (g_pending g) peer)
    \<or> (world_player (g_world g) peer = None \<and> bt_get (pending_effect (g_world g) inbound (g_pending g)) peer \<noteq> None)"
  using assms
  by (cases inbound) (auto simp: world_effect_def pending_effect_def linked_def player_join player_leave player_apply_input
      bt_get_insert bt_get_remove option.map_comp comp_def)

lemma handle_conversation:
  assumes "linked g" "\<not> closes peer inbound" "game_conversation reliable peer g"
  shows "game_conversation reliable peer (handle (recorded env) trig inbound g)"
  unfolding handle_record handle_effects(1,3) using handle_identity [OF assms(1,2)]
proof
  assume "map_option pl_id (world_player (world_effect trig inbound (g_world g)) peer) = map_option pl_id (world_player (g_world g) peer)
      \<and> bt_get (pending_effect (g_world g) inbound (g_pending g)) peer = bt_get (g_pending g) peer"
  then show "conversation reliable peer (world_effect trig inbound (g_world g)) (pending_effect (g_world g) inbound (g_pending g)) (record_of g)"
    using assms(3) conversation_same by blast
qed (use assms(3) conversation_joined in blast)

lemma fold_conversation:
  assumes "linked g" "list_all (\<lambda>i. \<not> closes peer i) inbounds" "game_conversation reliable peer g"
  shows "game_conversation reliable peer (fold (handle (recorded env) trig) inbounds g)"
  using assms
proof (induction inbounds arbitrary: g)
  case (Cons i inbounds)
  then show ?case using handle_conversation [of g peer i reliable env trig] by (simp add: handle_linked)
qed simp

text \<open>Among what is sent to distinct receivers, a client hears at most the one message for it.\<close>

lemma inbox_distinct:
  assumes "distinct (map fst sent)"
  shows "inbox peer sent = (case map_of sent peer of None \<Rightarrow> []
    | Some (i, payload, result) \<Rightarrow> if result = Inr () then [Message i payload] else [])"
  using assms
proof (induction sent)
  case (Cons s sent)
  have "peer \<notin> fst ` set sent \<Longrightarrow> inbox peer sent = []" by (rule inbox_others) auto
  with Cons show ?case by (cases s) (auto simp: heard_by_def split: prod.split)
qed simp

lemma flush_conversation:
  assumes linked: "linked g" and talk: "game_conversation reliable peer g"
    and link: "reliable \<Longrightarrow> (\<And>s. s \<in> set (record_of (flush_welcomes (recorded env) g)) \<Longrightarrow> fst s = peer \<Longrightarrow> delivered s)"
  shows "game_conversation reliable peer (flush_welcomes (recorded env) g)"
proof -
  let ?g = "flush_welcomes (recorded env) g" and ?keys = "bt_keys (g_pending g)"
  obtain sent where sent: "record_of ?g = record_of g @ sent" "list_all2 (welcomes (g_world g)) ?keys sent"
    "bt_keys (g_pending ?g) = map fst (filter congested sent)"
    using flush_recorded [OF linked, of env] by blast
  have fst: "map fst sent = ?keys"
    using sent(2) by (induction rule: list_all2_induct) (auto simp: welcomes_def)
  have dist: "distinct (map fst sent)"
    using linked unfolding fst by (simp add: linked_def bt.keys_distinct)
  have pending: "bt_get (g_pending ?g) peer \<noteq> None \<longleftrightarrow> (\<exists>s \<in> set sent. fst s = peer \<and> congested s)"
    unfolding bt_keys_get [symmetric] sent(3) by auto
  show ?thesis
  proof (cases "bt_get (g_pending g) peer")
    case None
    then have "peer \<notin> set ?keys" by (simp add: bt_keys_get)
    then have "\<forall>s \<in> set sent. fst s \<noteq> peer" unfolding fst [symmetric] by auto
    moreover from this have "bt_get (g_pending ?g) peer = None"
      using pending by (cases "bt_get (g_pending ?g) peer") auto
    ultimately show ?thesis
      using talk None inbox_others [of sent peer] by (simp add: conversation_def sent(1) flush_effects(1) split: option.splits)
  next
    case (Some u)
    then have "peer \<in> set ?keys" by (simp add: bt_keys_get)
    then obtain s where s: "s \<in> set sent" "fst s = peer" unfolding fst [symmetric] by auto
    then have "welcomes (g_world g) peer s"
      using sent(2) fst by (auto simp: list_all2_conv_all_nth in_set_conv_nth) (metis nth_map)
    then obtain p payload result where p: "world_player (g_world g) peer = Some p"
      "s = (peer, WELCOME_GAME_MESSAGE_ID, payload, result)" "decode_welcome payload = Inr (welcome_for p)"
      by (cases s) (auto simp: welcomes_def)
    have "map_of sent peer = Some (WELCOME_GAME_MESSAGE_ID, payload, result)"
      using s p dist by (simp add: map_of_eq_Some_iff)
    then have heard: "inbox peer sent = (if result = Inr () then [Message WELCOME_GAME_MESSAGE_ID payload] else [])"
      by (simp add: inbox_distinct [OF dist])
    have tells: "tells_welcome (pl_id p) (Message WELCOME_GAME_MESSAGE_ID payload)"
      using p(3) by (auto simp: tells_welcome_def welcome_for_def)
    have "bt_get (g_pending ?g) peer \<noteq> None \<longleftrightarrow> result = Inl Congested"
    proof -
      have "s' = s" if "s' \<in> set sent" "fst s' = peer" for s'
        using that s dist by (auto simp: distinct_map inj_on_def)
      then have "(\<exists>s' \<in> set sent. fst s' = peer \<and> congested s') \<longleftrightarrow> congested s" using s by blast
      with pending show ?thesis by (simp add: p(2) congested_def)
    qed
    moreover have "reliable \<Longrightarrow> result = Inr ()"
      using link [of s] s p(2) by (simp add: sent(1) delivered_def)
    ultimately show ?thesis
      using talk Some p(1) heard tells by (auto simp: conversation_def sent(1) flush_effects(1))
  qed
qed

section \<open>Ticks and turns\<close>

lemma broadcast_conversation:
  assumes world: "world_ok (g_world g)" and talk: "game_conversation reliable peer g"
    and run: "broadcast_snapshot (recorded env) g = Some g'"
  shows "game_conversation reliable peer g'"
    and "\<exists>more. inbox peer (record_of g') = inbox peer (record_of g) @ more \<and>
      (world_player (g_world g) peer = Some p \<longrightarrow> list_all (tells_snapshot (pl_id p)) more \<and>
        ((\<forall>s \<in> set (record_of g'). fst s = peer \<longrightarrow> delivered s) \<longrightarrow> more \<noteq> []))"
proof -
  have few: "length (ws_players (snapshot (g_world g))) \<le> u32_MAX"
    using few_players [OF world] by (simp add: snapshot_def player_count_def bt_len_values)
  obtain payload where payload: "encode_world_snapshot (snapshot (g_world g)) = Some payload"
    "decode_world_snapshot payload = Inr (snapshot (g_world g))"
    using snapshot_back [OF few, of "[]"] by auto
  obtain sent where sent: "record_of g' = record_of g @ sent"
    "map (\<lambda>(peer, i, bytes, result). (peer, i, bytes)) sent =
      map (\<lambda>peer. (peer, WORLD_SNAPSHOT_GAME_MESSAGE_ID, payload)) (world_peers (g_world g))"
    using broadcast_recorded [OF run payload(1)] by blast
  have fst: "map fst sent = world_peers (g_world g)"
    using arg_cong [OF sent(2), of "map fst"] by (simp add: comp_def case_prod_unfold)
  then have dist: "distinct (map fst sent)"
    using bt.keys_distinct [of "wd_players (g_world g)"] world by (simp add: world_ok_def world_peers_def)
  have kind: "i = WORLD_SNAPSHOT_GAME_MESSAGE_ID \<and> bytes = payload" if "(peer, i, bytes, result) \<in> set sent" for i bytes result
  proof -
    have "(peer, i, bytes) \<in> set (map (\<lambda>(peer, i, bytes, result). (peer, i, bytes)) sent)" using that by force
    then show ?thesis unfolding sent(2) by auto
  qed
  have more: "inbox peer (record_of g') = inbox peer (record_of g) @ inbox peer sent" by (simp add: sent(1))
  have told: "tells_snapshot (pl_id q) (Message WORLD_SNAPSHOT_GAME_MESSAGE_ID payload)"
    if "world_player (g_world g) peer = Some q" for q
  proof -
    have "peer \<in> set (bt_keys (wd_players (g_world g)))" using that by (simp add: bt_keys_get world_player_def)
    then have "Some q \<in> set (map Some (bt_values (wd_players (g_world g))))"
      using that world bt_values_get [of "wd_players (g_world g)"] by (force simp: world_ok_def world_player_def)
    then have "pl_id q \<in> ps_player_id ` set (ws_players (snapshot (g_world g)))"
      by (force simp: snapshot_def player_state_of_def)
    with payload(2) show ?thesis by (simp add: tells_snapshot_def)
  qed
  have here: "peer \<in> set (map fst sent) \<longleftrightarrow> world_player (g_world g) peer \<noteq> None"
    unfolding fst by (simp add: world_peers_player)
  have inbox: "inbox peer sent = (case map_of sent peer of None \<Rightarrow> []
    | Some (i, bytes, result) \<Rightarrow> if result = Inr () then [Message i bytes] else [])" by (rule inbox_distinct [OF dist])
  have snaps: "list_all (tells_snapshot (pl_id q)) (inbox peer sent)" if "world_player (g_world g) peer = Some q" for q
    unfolding inbox using told [OF that] kind by (auto dest!: map_of_SomeD split: option.split)
  have heard: "inbox peer sent \<noteq> []"
    if q: "world_player (g_world g) peer = Some q" and d: "\<forall>s \<in> set (record_of g'). fst s = peer \<longrightarrow> delivered s" for q
  proof -
    obtain i bytes result where s: "map_of sent peer = Some (i, bytes, result)"
      using here q by (cases "map_of sent peer") (auto simp: map_of_eq_None_iff)
    then have "result = Inr ()" using d by (force dest!: map_of_SomeD simp: sent(1) delivered_def)
    then show ?thesis by (simp add: inbox s)
  qed
  show "\<exists>more. inbox peer (record_of g') = inbox peer (record_of g) @ more \<and>
      (world_player (g_world g) peer = Some p \<longrightarrow> list_all (tells_snapshot (pl_id p)) more \<and>
        ((\<forall>s \<in> set (record_of g'). fst s = peer \<longrightarrow> delivered s) \<longrightarrow> more \<noteq> []))"
    using more snaps [of p] heard [of p] by blast
  show "game_conversation reliable peer g'"
  proof (cases "world_player (g_world g) peer")
    case None
    then have "\<forall>s \<in> set sent. fst s \<noteq> peer" using here by auto
    then have "inbox peer sent = []" by (rule inbox_others)
    with None talk show ?thesis by (simp add: conversation_def more broadcast_effects(1,3) [OF run])
  next
    case (Some q)
    have "filter (tells_welcome (pl_id q)) (inbox peer sent) = []"
      using snaps [OF Some] tells_events(1,3) by (fastforce simp: filter_empty_conv list_all_iff)
    with Some talk snaps [OF Some] show ?thesis
      by (auto simp: conversation_def more broadcast_effects(1,3) [OF run] list_all_iff)
  qed
qed

text \<open>With a reliable link, everything sent to the peer is delivered.\<close>

definition reliable_link :: "('e, 'p) environment \<Rightarrow> 'p \<Rightarrow> bool" where
  "reliable_link env peer \<longleftrightarrow> (\<forall>e i payload. fst (env_send env e peer i payload) = Inr ())"

definition all_delivered :: "'p \<Rightarrow> 'p sent list \<Rightarrow> bool" where
  "all_delivered peer sent \<longleftrightarrow> (\<forall>s \<in> set sent. fst s = peer \<longrightarrow> delivered s)"

lemma send_delivered:
  assumes "reliable_link env peer" "all_delivered peer (snd e)" "env_send (recorded env) e q i payload = (result, e')"
  shows "all_delivered peer (snd e')"
proof -
  obtain e0 sent where e: "e = (e0, sent)" by (cases e)
  obtain r e1 where send: "env_send env e0 q i payload = (r, e1)" by (cases "env_send env e0 q i payload")
  have "q = peer \<Longrightarrow> r = Inr ()" using assms(1) send unfolding reliable_link_def by (metis fst_conv)
  then show ?thesis using assms(2,3) send by (auto simp: e recorded_def all_delivered_def delivered_def)
qed

lemma retain_delivered:
  assumes "reliable_link env peer"
  shows "all_delivered peer (record_of g) \<Longrightarrow> all_delivered peer (record_of (snd (retain_welcomes (recorded env) peers g)))"
proof (induction peers arbitrary: g)
  case (Cons q peers)
  show ?case
  proof (cases "world_player (g_world g) q")
    case (Some player)
    let ?payload = "encode_welcome (welcome_for player)"
    obtain result e where send: "env_send (recorded env) (g_server g) q WELCOME_GAME_MESSAGE_ID ?payload = (result, e)"
      by (cases "env_send (recorded env) (g_server g) q WELCOME_GAME_MESSAGE_ID ?payload")
    have e: "all_delivered peer (snd e)" by (rule send_delivered [OF assms Cons.prems send])
    have "all_delivered peer (record_of (snd (retain_welcomes (recorded env) peers (g\<lparr>g_server := e\<rparr>))))"
      "all_delivered peer (record_of (snd (retain_welcomes (recorded env) peers (log_line l (g\<lparr>g_server := e\<rparr>)))))" for l
      using Cons.IH [of "g\<lparr>g_server := e\<rparr>"] Cons.IH [of "log_line l (g\<lparr>g_server := e\<rparr>)"] e by simp_all
    then show ?thesis using Some send by (auto split: sum.split send_error.split prod.split)
  qed (use Cons in simp)
qed simp

lemma flush_delivered:
  assumes "reliable_link env peer" "all_delivered peer (record_of g)"
  shows "all_delivered peer (record_of (flush_welcomes (recorded env) g))"
  using retain_delivered [OF assms, of "bt_keys (g_pending g)"]
  by (cases "retain_welcomes (recorded env) (bt_keys (g_pending g)) g") (simp add: flush_welcomes_def)

lemma send_to_all_delivered:
  assumes "reliable_link env peer"
  shows "all_delivered peer (record_of g) \<Longrightarrow> all_delivered peer (record_of (send_to_all (recorded env) payload peers g))"
proof (induction peers arbitrary: g)
  case (Cons q peers)
  obtain result e where send: "env_send (recorded env) (g_server g) q WORLD_SNAPSHOT_GAME_MESSAGE_ID payload = (result, e)"
    by (cases "env_send (recorded env) (g_server g) q WORLD_SNAPSHOT_GAME_MESSAGE_ID payload")
  have e: "all_delivered peer (snd e)" by (rule send_delivered [OF assms Cons.prems send])
  show ?case using send Cons.IH e by (auto split: sum.split)
qed simp

lemma clock_record: "read_clock (recorded env) g = (t, g') \<Longrightarrow> record_of g' = record_of g"
  using recorded_clock [of env g] by simp

lemma broadcast_delivered:
  assumes link: "reliable_link env peer" and "all_delivered peer (record_of g)"
    and "broadcast_snapshot (recorded env) g = Some g'"
  shows "all_delivered peer (record_of g')"
proof -
  let ?env = "recorded env"
  obtain t1 g1 where c1: "read_clock ?env g = (t1, g1)" by (cases "read_clock ?env g")
  obtain t2 g2 where c2: "read_clock ?env g1 = (t2, g2)" by (cases "read_clock ?env g1")
  have "record_of g2 = record_of g" using recorded_clock [of env g] recorded_clock [of env g1] by (simp add: c1 c2)
  then have start: "all_delivered peer (record_of (g2\<lparr>g_profile := f\<rparr>))" for f using assms(2) by simp
  have "\<exists>f payload peers. record_of g' = record_of (send_to_all ?env payload peers (g2\<lparr>g_profile := f\<rparr>))"
    using assms(3) by (auto simp: broadcast_snapshot_def c1 c2 Let_def split: option.splits prod.splits
        dest!: clock_record) blast
  then show ?thesis using send_to_all_delivered [OF link start] by auto
qed

definition session_ok :: "bool \<Rightarrow> 'p::linorder \<Rightarrow> ('e \<times> 'p sent list, 'p) game \<Rightarrow> bool" where
  "session_ok reliable peer g \<longleftrightarrow> game_conversation reliable peer g \<and> (reliable \<longrightarrow> all_delivered peer (record_of g))"

text \<open>A list of messages that a client hears next: snapshots it is in, and at least one over a reliable link.\<close>

definition hears_step :: "bool \<Rightarrow> 'p \<Rightarrow> 'p::linorder world \<Rightarrow> event list \<Rightarrow> bool" where
  "hears_step reliable peer w evs \<longleftrightarrow> (\<forall>p. world_player w peer = Some p \<longrightarrow>
     list_all (tells_snapshot (pl_id p)) evs \<and> (reliable \<longrightarrow> evs \<noteq> []))"

lemma tick_session:
  assumes world: "world_ok (g_world (s_game s))" and ok: "session_ok reliable peer (s_game s)"
    and link: "reliable \<Longrightarrow> reliable_link env peer"
    and run: "tick (recorded env) now s = Some s'"
  shows "session_ok reliable peer (s_game s') \<and> (\<exists>more. inbox peer (record_of (s_game s')) = inbox peer (record_of (s_game s)) @ more \<and>
    hears_step reliable peer (g_world (s_game s)) more)"
proof -
  let ?env = "recorded env" and ?w = "world_step TICK_DT (g_world (s_game s))"
  obtain t g1 where c: "read_clock ?env ((s_game s)\<lparr>g_world := ?w\<rparr>) = (t, g1)"
    by (cases "read_clock ?env ((s_game s)\<lparr>g_world := ?w\<rparr>)")
  let ?g1 = "g1\<lparr>g_profile := (g_profile g1)\<lparr>pf_step := pf_step (g_profile g1) + since t now\<rparr>\<rparr>"
  have g1: "g_world ?g1 = ?w" "g_pending ?g1 = g_pending (s_game s)" "record_of ?g1 = record_of (s_game s)"
    using read_clock_simps(1,3) [of ?env "(s_game s)\<lparr>g_world := ?w\<rparr>"] clock_record [OF c] by (simp_all add: c)
  obtain g2 where b: "broadcast_snapshot ?env ?g1 = Some g2" and s': "g_world (s_game s') = g_world g2"
    "g_pending (s_game s') = g_pending g2" "record_of (s_game s') = record_of g2"
    using run by (auto simp: tick_def Let_def c split: option.splits)
  have "map_option pl_id (world_player ?w peer) = map_option pl_id (world_player (g_world (s_game s)) peer)"
    by (simp add: player_step option.map_comp comp_def)
  then have talk: "game_conversation reliable peer ?g1"
    using ok conversation_same unfolding g1 session_ok_def by blast
  have w1: "world_ok (g_world ?g1)" using step_ok [OF world] by (simp add: g1(1))
  have deliv: "reliable \<Longrightarrow> all_delivered peer (record_of g2)"
    using broadcast_delivered [OF link _ b] ok g1(3) by (simp add: session_ok_def)
  have "session_ok reliable peer (s_game s')"
    using broadcast_conversation(1) [OF w1 talk b] deliv by (simp add: session_ok_def s')
  moreover have "\<exists>more. inbox peer (record_of g2) = inbox peer (record_of (s_game s)) @ more \<and>
      hears_step reliable peer (g_world (s_game s)) more"
  proof (cases "world_player (g_world (s_game s)) peer")
    case None
    then show ?thesis
      using broadcast_conversation(2) [OF w1 talk b] g1(3) by (auto simp: hears_step_def)
  next
    case (Some p)
    then have "world_player (g_world ?g1) peer = Some (step_player TICK_DT p)" by (simp add: g1(1) player_step)
    then show ?thesis
      using broadcast_conversation(2) [OF w1 talk b, of "step_player TICK_DT p"] deliv Some g1(3)
      by (auto simp: hears_step_def all_delivered_def)
  qed
  ultimately show ?thesis by (simp add: s')
qed

text \<open>The peer's connection stays open: no event of it is a refusal or a disconnection.\<close>

definition stays_open :: "('e, 'p) environment \<Rightarrow> 'p \<Rightarrow> bool" where
  "stays_open env peer \<longleftrightarrow> (\<forall>e. \<forall>(q, ev) \<in> set (fst (env_tick_now env e)). q = peer \<longrightarrow> event_failure ev = None)"

lemma stays_open_inbounds:
  assumes "stays_open env peer"
  shows "list_all (\<lambda>i. \<not> closes peer i) (seen_by (recorded env) s)"
proof -
  obtain e sent where server: "g_server (snd (read_clock (recorded env) (s_game s))) = (e, sent)"
    by (cases "g_server (snd (read_clock (recorded env) (s_game s)))")
  have seen: "seen_by (recorded env) s = List.map_filter inbound_of (fst (env_tick_now env e))"
    by (simp add: seen_by_def drain_events_def server) (simp add: recorded_def case_prod_unfold)
  have "\<not> closes peer i" if "(q, ev) \<in> set (fst (env_tick_now env e))" "inbound_of (q, ev) = Some i" for q ev i
  proof -
    have "q = peer \<Longrightarrow> event_failure ev = None" using assms that(1) by (auto simp: stays_open_def)
    then show ?thesis using that(2)
      by (auto simp: inbound_of_def event_failure_def split: event.splits if_splits sum.splits)
  qed
  then show ?thesis by (auto simp: seen list_all_iff List.map_filter_def)
qed

lemma drain_record: "drain_events (recorded env) server = (inbounds, server') \<Longrightarrow> snd server' = snd server"
  by (cases server) (auto simp: drain_events_def recorded_def case_prod_unfold)

lemma poll_recorded:
  obtains g0 where "g_world g0 = g_world (s_game s)" "g_directory g0 = g_directory (s_game s)"
    "g_pending g0 = g_pending (s_game s)" "record_of g0 = record_of (s_game s)"
    "g_world (s_game (snd (poll (recorded env) trig s))) = g_world (flush_welcomes (recorded env) (fold (handle (recorded env) trig) (seen_by (recorded env) s) g0))"
    "g_pending (s_game (snd (poll (recorded env) trig s))) = g_pending (flush_welcomes (recorded env) (fold (handle (recorded env) trig) (seen_by (recorded env) s) g0))"
    "record_of (s_game (snd (poll (recorded env) trig s))) = record_of (flush_welcomes (recorded env) (fold (handle (recorded env) trig) (seen_by (recorded env) s) g0))"
proof -
  let ?env = "recorded env"
  obtain t g1 where c1: "read_clock ?env (s_game s) = (t, g1)" by (cases "read_clock ?env (s_game s)")
  have g1: "g_world g1 = g_world (s_game s)" "g_directory g1 = g_directory (s_game s)" "g_pending g1 = g_pending (s_game s)"
    using read_clock_simps(1-3) [of ?env "s_game s"] by (simp_all add: c1)
  obtain inbounds server where d: "drain_events ?env (g_server g1) = (inbounds, server)"
    by (cases "drain_events ?env (g_server g1)")
  let ?g = "flush_welcomes ?env (fold (handle ?env trig) inbounds (g1\<lparr>g_server := server\<rparr>))"
  obtain now g2 where c2: "read_clock ?env ?g = (now, g2)" by (cases "read_clock ?env ?g")
  have g2: "g_world g2 = g_world ?g" "g_pending g2 = g_pending ?g" "record_of g2 = record_of ?g"
    using read_clock_simps(1,3) [of ?env ?g] clock_record [OF c2] by (simp_all only: c2 snd_conv)
  have "snd server = record_of (s_game s)" using drain_record [OF d] clock_record [OF c1] by simp
  then show ?thesis
    using that [of "g1\<lparr>g_server := server\<rparr>"] g1 g2
    by (simp add: poll_def seen_by_def c1 c2 d Let_def)
qed

text \<open>The peer keeps its player from one world to the next.\<close>

definition keeps :: "'p::linorder \<Rightarrow> 'p world \<Rightarrow> 'p world \<Rightarrow> bool" where
  "keeps peer w w' \<longleftrightarrow> (\<forall>p. world_player w peer = Some p \<longrightarrow> (\<exists>p'. world_player w' peer = Some p' \<and> pl_id p' = pl_id p))"

lemma keeps_refl: "keeps peer w w"
  by (simp add: keeps_def)

lemma keeps_trans: "keeps peer w w' \<Longrightarrow> keeps peer w' w'' \<Longrightarrow> keeps peer w w''"
  unfolding keeps_def by metis

lemma fold_keeps:
  "linked g \<Longrightarrow> list_all (\<lambda>i. \<not> closes peer i) inbounds \<Longrightarrow> keeps peer (g_world g) (g_world (fold (handle env trig) inbounds g))"
proof (induction inbounds arbitrary: g)
  case (Cons i inbounds)
  then have "keeps peer (g_world g) (g_world (handle env trig i g))"
    using handle_identity [of g peer i trig] by (auto simp: keeps_def handle_effects)
  moreover have "keeps peer (g_world (handle env trig i g)) (g_world (fold (handle env trig) inbounds (handle env trig i g)))"
    using Cons by (simp add: handle_linked)
  ultimately show ?case by (simp add: keeps_trans)
qed (simp add: keeps_refl)

lemma fold_record: "record_of (fold (handle (recorded env) trig) inbounds g) = record_of g"
  by (induction inbounds arbitrary: g) simp_all

lemma flush_clears:
  assumes "linked g" "all_delivered peer (record_of (flush_welcomes (recorded env) g))"
  shows "bt_get (g_pending (flush_welcomes (recorded env) g)) peer = None"
proof -
  let ?g = "flush_welcomes (recorded env) g"
  obtain sent where sent: "record_of ?g = record_of g @ sent" "bt_keys (g_pending ?g) = map fst (filter congested sent)"
    using flush_recorded [OF assms(1), of env] by blast
  have "peer \<notin> set (bt_keys (g_pending ?g))"
    using assms(2) unfolding sent by (auto simp: all_delivered_def delivered_def congested_def)
  then show ?thesis by (cases "bt_get (g_pending ?g) peer") (simp_all add: bt_keys_get)
qed

lemma poll_session:
  fixes s :: "('e \<times> 'p::linorder sent list, 'p) server_state"
    and trig :: trig
  assumes ok: "linked (s_game s)" "session_ok reliable peer (s_game s)"
    and link: "reliable \<Longrightarrow> reliable_link env peer" and opened: "stays_open env peer"
  defines "s' \<equiv> snd (poll (recorded env) trig s)"
  shows "session_ok reliable peer (s_game s')"
    "\<exists>more. inbox peer (record_of (s_game s')) = inbox peer (record_of (s_game s)) @ more"
    "keeps peer (g_world (s_game s)) (g_world (s_game s'))"
    "reliable \<Longrightarrow> bt_get (g_pending (s_game s')) peer = None"
proof -
  let ?env = "recorded env"
  obtain g0 where g0: "g_world g0 = g_world (s_game s)" "g_directory g0 = g_directory (s_game s)"
    "g_pending g0 = g_pending (s_game s)" "record_of g0 = record_of (s_game s)"
    and eq: "g_world (s_game s') = g_world (flush_welcomes ?env (fold (handle ?env trig) (seen_by ?env s) g0))"
    "g_pending (s_game s') = g_pending (flush_welcomes ?env (fold (handle ?env trig) (seen_by ?env s) g0))"
    "record_of (s_game s') = record_of (flush_welcomes ?env (fold (handle ?env trig) (seen_by ?env s) g0))"
    unfolding s'_def by (rule poll_recorded)
  let ?g1 = "fold (handle ?env trig) (seen_by ?env s) g0"
  let ?g2 = "flush_welcomes ?env ?g1"
  have linked0: "linked g0" using ok(1) g0 by (simp add: linked_def)
  then have linked1: "linked ?g1" using fold_membership [of g0 ?env trig "seen_by ?env s"] by blast
  note stays = stays_open_inbounds [OF opened, of s]
  have "game_conversation reliable peer g0" using ok(2) g0 by (simp add: session_ok_def)
  then have talk1: "game_conversation reliable peer ?g1" by (rule fold_conversation [OF linked0 stays])
  have "reliable \<Longrightarrow> all_delivered peer (record_of ?g1)" using ok(2) g0(4) by (simp add: session_ok_def fold_record)
  then have deliv: "reliable \<Longrightarrow> all_delivered peer (record_of ?g2)" using flush_delivered [OF link] by blast
  then have talk2: "game_conversation reliable peer ?g2"
    by (intro flush_conversation [OF linked1 talk1]) (auto simp: all_delivered_def)
  show "session_ok reliable peer (s_game s')" using talk2 deliv by (simp add: session_ok_def eq)
  show "reliable \<Longrightarrow> bt_get (g_pending (s_game s')) peer = None"
    using flush_clears [OF linked1 deliv] by (simp add: eq)
  show "keeps peer (g_world (s_game s)) (g_world (s_game s'))"
    using fold_keeps [OF linked0 stays, of ?env trig] by (simp add: eq flush_effects(1) g0(1))
  obtain sent where "record_of ?g2 = record_of ?g1 @ sent" using flush_recorded [OF linked1, of env] by blast
  then show "\<exists>more. inbox peer (record_of (s_game s')) = inbox peer (record_of (s_game s)) @ more"
    by (simp add: eq fold_record g0(4))
qed

lemma report_record [simp]: "g_server (s_game (report_status env profiling interval now s)) = g_server (s_game s)"
  by (simp add: report_status_def Let_def split: option.split)

lemma sleep_record [simp]: "snd (env_sleep (recorded env) d e) = snd e"
  by (cases e) (simp add: recorded_def)

lemma turn_session:
  fixes s :: "('e \<times> 'p::linorder sent list, 'p) server_state"
  assumes ok: "game_ok (s_game s)" "session_ok reliable peer (s_game s)" and trig: "trig_ok trig"
    and room: "room (s_game s) (length (seen_by (recorded env) s))"
    and link: "reliable \<Longrightarrow> reliable_link env peer" and opened: "stays_open env peer"
    and run: "turn (recorded env) trig profiling interval s = Some s'"
  shows "session_ok reliable peer (s_game s') \<and> keeps peer (g_world (s_game s)) (g_world (s_game s'))
    \<and> (reliable \<longrightarrow> bt_get (g_pending (s_game s')) peer = None)
    \<and> (\<exists>more. inbox peer (record_of (s_game s')) = inbox peer (record_of (s_game s)) @ more \<and>
        (wd_tick (g_world (s_game s')) \<noteq> wd_tick (g_world (s_game s)) \<and> reliable \<and> world_player (g_world (s_game s)) peer = Some p
          \<longrightarrow> (\<exists>e \<in> set more. tells_snapshot (pl_id p) e)))"
proof -
  let ?env = "recorded env"
  let ?p = "snd (poll ?env trig s)" and ?now = "fst (poll ?env trig s)"
  have linked: "linked (s_game s)" using ok(1) by (simp add: game_ok_def)
  note poll = poll_session [OF linked ok(2) link opened, of trig]
  have world: "world_ok (g_world (s_game ?p))" using poll_ok(1) [OF ok(1) trig room] by (simp add: game_ok_def)
  obtain more1 where more1: "inbox peer (record_of (s_game ?p)) = inbox peer (record_of (s_game s)) @ more1" using poll(2) by blast
  show ?thesis
  proof (cases "s_next_step ?p \<le> ?now")
    case False
    then have s': "g_world (s_game s') = g_world (s_game ?p)" "g_pending (s_game s') = g_pending (s_game ?p)"
      "record_of (s_game s') = record_of (s_game ?p)"
      using run by (auto simp: turn_unfold Let_def)
    then have "session_ok reliable peer (s_game s')" using poll(1) by (simp add: session_ok_def)
    then show ?thesis using poll(3,4) more1 by (simp add: s' poll_tick)
  next
    case True
    then obtain q where q: "tick ?env ?now ?p = Some q" and s': "g_world (s_game s') = g_world (s_game q)"
      "g_pending (s_game s') = g_pending (s_game q)" "record_of (s_game s') = record_of (s_game q)"
      using run by (auto simp: turn_unfold Let_def)
    note effects = tick_effects(1,3) [OF q]
    obtain more2 where more2: "session_ok reliable peer (s_game q)"
      "inbox peer (record_of (s_game q)) = inbox peer (record_of (s_game ?p)) @ more2"
      "hears_step reliable peer (g_world (s_game ?p)) more2"
      using tick_session [OF world poll(1) link q] by blast
    have "session_ok reliable peer (s_game s')" using more2(1) by (simp add: session_ok_def s')
    moreover have "keeps peer (g_world (s_game ?p)) (g_world (s_game s'))"
      by (simp add: keeps_def s' effects player_step)
    moreover have "\<exists>e \<in> set more2. tells_snapshot (pl_id p) e"
      if r: "reliable" and w: "world_player (g_world (s_game s)) peer = Some p"
    proof -
      obtain p' where "world_player (g_world (s_game ?p)) peer = Some p'" "pl_id p' = pl_id p"
        using poll(3) w unfolding keeps_def by blast
      with more2(3) r show ?thesis by (cases more2) (auto simp: hears_step_def)
    qed
    ultimately show ?thesis
      using poll(3,4) more1 more2(2) keeps_trans [of peer "g_world (s_game s)" "g_world (s_game ?p)" "g_world (s_game s')"]
      by (auto simp: s' effects)
  qed
qed

lemma turns_session:
  fixes s :: "('e \<times> 'p::linorder sent list, 'p) server_state"
  assumes trig: "trig_ok trig" and burst: "\<And>e. length (fst (env_tick_now env e)) \<le> burst"
    and link: "reliable \<Longrightarrow> reliable_link env peer" and opened: "stays_open env peer"
  shows "game_ok (s_game s) \<Longrightarrow> session_ok reliable peer (s_game s) \<Longrightarrow> room (s_game s) (n * burst) \<Longrightarrow>
    turns (recorded env) trig profiling interval n s = Some s' \<Longrightarrow>
    game_ok (s_game s') \<and> session_ok reliable peer (s_game s')
    \<and> unat (wd_next_player_id (g_world (s_game s'))) \<le> unat (wd_next_player_id (g_world (s_game s))) + n * burst
    \<and> keeps peer (g_world (s_game s)) (g_world (s_game s'))
    \<and> (reliable \<and> 0 < n \<longrightarrow> bt_get (g_pending (s_game s')) peer = None)
    \<and> (\<exists>more. inbox peer (record_of (s_game s')) = inbox peer (record_of (s_game s)) @ more \<and>
        (wd_tick (g_world (s_game s')) \<noteq> wd_tick (g_world (s_game s)) \<and> reliable \<and> world_player (g_world (s_game s)) peer = Some p
          \<longrightarrow> (\<exists>e \<in> set more. tells_snapshot (pl_id p) e)))"
proof (induction n arbitrary: s p)
  case 0
  then show ?case by (simp add: keeps_refl)
next
  case (Suc n)
  let ?env = "recorded env"
  obtain s1 where s1: "turn ?env trig profiling interval s = Some s1" "turns ?env trig profiling interval n s1 = Some s'"
    using Suc.prems(4) by (auto split: option.splits)
  have "length (fst (env_tick_now ?env e)) \<le> burst" for e
    using burst [of "fst e"] by (cases e) (simp add: recorded_def)
  then have seen: "length (seen_by ?env s) \<le> burst" using seen_by_length [of ?env s] le_trans by blast
  have room: "room (s_game s) (length (seen_by ?env s))" using Suc.prems(3) seen by (simp add: room_def)
  then obtain s2 where s2: "turn ?env trig profiling interval s = Some s2" "game_ok (s_game s2)"
    "unat (wd_next_player_id (g_world (s_game s2))) \<le> unat (wd_next_player_id (g_world (s_game s))) + length (seen_by ?env s)"
    by (rule turn_ok [OF Suc.prems(1) trig])
  have ok1: "game_ok (s_game s1)" "room (s_game s1) (n * burst)"
    using s1(1) s2 Suc.prems(3) seen by (simp_all add: room_def)
  note turn = turn_session [OF Suc.prems(1,2) trig room link opened s1(1)]
  have session1: "session_ok reliable peer (s_game s1)" and keeps1: "keeps peer (g_world (s_game s)) (g_world (s_game s1))"
    and pend1: "reliable \<longrightarrow> bt_get (g_pending (s_game s1)) peer = None"
    using turn by blast+
  obtain more1 where more1: "inbox peer (record_of (s_game s1)) = inbox peer (record_of (s_game s)) @ more1"
    "wd_tick (g_world (s_game s1)) \<noteq> wd_tick (g_world (s_game s)) \<and> reliable \<and> world_player (g_world (s_game s)) peer = Some p
      \<longrightarrow> (\<exists>e \<in> set more1. tells_snapshot (pl_id p) e)"
    using turn [of p] by blast
  define q where "q = (case world_player (g_world (s_game s1)) peer of Some q \<Rightarrow> q | None \<Rightarrow> p)"
  note rest = Suc.IH [OF ok1(1) session1 ok1(2) s1(2), of q]
  obtain more2 where more2: "inbox peer (record_of (s_game s')) = inbox peer (record_of (s_game s1)) @ more2"
    "wd_tick (g_world (s_game s')) \<noteq> wd_tick (g_world (s_game s1)) \<and> reliable \<and> world_player (g_world (s_game s1)) peer = Some q
      \<longrightarrow> (\<exists>e \<in> set more2. tells_snapshot (pl_id q) e)"
    using rest by blast
  have more: "inbox peer (record_of (s_game s')) = inbox peer (record_of (s_game s)) @ (more1 @ more2)"
    using more1(1) more2(1) by simp
  have tells: "\<exists>e \<in> set (more1 @ more2). tells_snapshot (pl_id p) e"
    if t: "wd_tick (g_world (s_game s')) \<noteq> wd_tick (g_world (s_game s))" and r: "reliable"
      and w: "world_player (g_world (s_game s)) peer = Some p"
  proof (cases "wd_tick (g_world (s_game s1)) = wd_tick (g_world (s_game s))")
    case False
    then show ?thesis using more1(2) r w by auto
  next
    case True
    obtain p1 where "world_player (g_world (s_game s1)) peer = Some p1" "pl_id p1 = pl_id p"
      using keeps1 w unfolding keeps_def by blast
    then show ?thesis using more2(2) t r True by (auto simp: q_def)
  qed
  have "reliable \<longrightarrow> bt_get (g_pending (s_game s')) peer = None"
    using rest pend1 s1(2) by (cases n) auto
  moreover have "unat (wd_next_player_id (g_world (s_game s'))) \<le> unat (wd_next_player_id (g_world (s_game s))) + Suc n * burst"
    using rest s1(1) s2(1,3) seen by simp
  ultimately show ?case using rest keeps_trans [OF keeps1] more tells by blast
qed

end
