(* ===== verification/Session_Props.thy ===== *)
theory Session_Props
  imports Session
begin

text \<open>What a bot at the other end of the connection makes of what the server sends it.\<close>

section \<open>The bot at the other end\<close>

text \<open>The messages among a client's events; the others come from its own end of the connection.\<close>

fun is_message :: "event \<Rightarrow> bool" where
  "is_message (Message i payload) = True"
| "is_message e = False"

definition messages :: "event list \<Rightarrow> event list" where
  "messages evs = filter is_message evs"

lemma inbox_messages: "filter is_message (inbox peer sent) = inbox peer sent"
  by (induction sent) (auto simp: heard_by_def split: prod.split)

lemma not_message: "\<not> is_message e \<Longrightarrow> event_welcome e = None" "\<not> is_message e \<Longrightarrow> event_snapshot e = None"
  by (cases e; simp add: event_welcome_def event_snapshot_def)+

lemma latest_messages:
  "latest event_welcome (messages evs) = latest event_welcome evs"
  "latest event_snapshot (messages evs) = latest event_snapshot evs"
  by (induction evs rule: rev_induct) (auto simp: messages_def not_message split: option.split)

lemma snapshots_messages: "List.map_filter event_snapshot (messages evs) = List.map_filter event_snapshot evs"
  by (induction evs rule: rev_induct) (auto simp: messages_def map_filter_snoc not_message)

lemma saw_messages: "saw_itself_in (messages evs) = saw_itself_in evs"
proof (induction evs rule: rev_induct)
  case (snoc e evs)
  then show ?case
    using latest_messages(1) [of evs] by (auto simp: messages_def saw_itself_snoc not_message)
qed (simp add: messages_def)

lemma latest_Some:
  "latest f xs = Some y \<Longrightarrow> \<exists>x \<in> set xs. f x = Some y"
  by (induction xs rule: rev_induct) (auto split: option.splits)

lemma latest_None: "latest f xs = None \<longleftrightarrow> (\<forall>x \<in> set xs. f x = None)"
  by (induction xs rule: rev_induct) (auto split: option.splits)

lemma started_session:
  "session_ok reliable peer (s_game (start_server (recorded env) address quiet interval (server, [])))"
proof -
  let ?s = "start_server (recorded env) address quiet interval (server, [])"
  have "record_of (s_game ?s) = []"
    by (simp add: start_server_def game_new_def case_prod_unfold)
  moreover have "world_player (g_world (s_game ?s)) peer = None"
    by (simp add: start_effects world_player_def world_new_def bt_get_empty)
  ultimately show ?thesis by (simp add: session_ok_def conversation_def all_delivered_def)
qed

lemma server_session:
  assumes "trig_ok trig" "\<And>e. length (fst (env_tick_now env e)) \<le> burst" "n * burst < 2 ^ 32"
    and "reliable \<Longrightarrow> reliable_link env peer" "stays_open env peer"
    and "turns (recorded env) trig profiling interval n (start_server (recorded env) address quiet interval (server, [])) = Some s"
  shows "game_ok (s_game s)" "session_ok reliable peer (s_game s)"
    "reliable \<and> world_player (g_world (s_game s)) peer \<noteq> None \<longrightarrow> bt_get (g_pending (s_game s)) peer = None"
    "unat (wd_next_player_id (g_world (s_game s))) \<le> n * burst"
proof -
  let ?s = "start_server (recorded env) address quiet interval (server, [])"
  have start: "game_ok (s_game ?s)" "room (s_game ?s) (n * burst)"
    using assms(3) by (simp_all add: new_game_ok start_effects room_def world_new_def)
  note run = turns_session [where reliable = reliable and p = p for p, OF assms(1,2,4,5) start(1) started_session start(2) assms(6)]
  show "game_ok (s_game s)" "session_ok reliable peer (s_game s)" using run by blast+
  show "unat (wd_next_player_id (g_world (s_game s))) \<le> n * burst"
    using run by (simp add: start_effects world_new_def)
  have "n = 0 \<Longrightarrow> world_player (g_world (s_game s)) peer = None"
    using assms(6) start_effects(1) [of "recorded env" address quiet interval "(server, [])"]
    by (auto simp: world_player_def world_new_def bt_get_empty)
  then show "reliable \<and> world_player (g_world (s_game s)) peer \<noteq> None \<longrightarrow> bt_get (g_pending (s_game s)) peer = None"
    using run by (cases n) auto
qed

lemma inbox_tells:
  assumes "session_ok reliable peer g" "set evs \<subseteq> set (inbox peer (record_of g))" "e \<in> set evs"
  obtains p where "world_player (g_world g) peer = Some p" "tells_welcome (pl_id p) e \<or> tells_snapshot (pl_id p) e"
  using assms by (auto simp: session_ok_def conversation_def list_all_iff split: option.splits)

lemma bot_log_events:
  assumes "\<And>e. e \<in> set evs \<Longrightarrow> is_message e \<Longrightarrow> tells_welcome i e \<or> tells_snapshot i e"
    and "line \<in> set (br_log (fst (fold (bot_event name) evs sf)))"
  shows "line \<in> set (br_log (fst sf)) \<or>
    line = BotJoined name i (f32_mul PLANE_HALF_SIZE (f32_lit 2 1)) (f32_mul PLANE_HALF_SIZE (f32_lit 2 1)) TICK_RATE"
  using assms
proof (induction evs arbitrary: sf)
  case (Cons e evs)
  obtain s f where sf: "sf = (s, f)" by (cases sf)
  let ?joined = "BotJoined name i (f32_mul PLANE_HALF_SIZE (f32_lit 2 1)) (f32_mul PLANE_HALF_SIZE (f32_lit 2 1)) TICK_RATE"
  have "br_log (fst (bot_event name e sf)) = br_log s \<or> br_log (fst (bot_event name e sf)) = br_log s @ [?joined]"
  proof (cases "is_message e")
    case False
    then show ?thesis by (cases e) (simp_all add: bot_event_def sf)
  next
    case True
    then have "tells_welcome i e \<or> tells_snapshot i e" using Cons.prems(1) by simp
    then show ?thesis
      using game_ids by (auto simp: tells_welcome_def tells_snapshot_def bot_event_def sf bot_print_def)
  qed
  then show ?case using Cons.IH [of "bot_event name e sf"] Cons.prems sf by auto
qed simp

text \<open>
  A network for the examples: every poll brings the same events, every send is delivered, and the clock
  moves only when the server sleeps, by 100 ms.
\<close>

definition paced :: "('p \<times> event) list \<Rightarrow> (nat, 'p) environment" where
  "paced seen = \<lparr>env_tick_now = \<lambda>e. (seen, e), env_send = \<lambda>e peer i payload. (Inr (), e), env_peer_addr = \<lambda>e peer. None,
     env_now = \<lambda>e. (e * 100000000, e), env_sleep = \<lambda>d e. e + 1, env_show_peer = \<lambda>peer. ''peer''\<rparr>"

lemma paced_simps:
  "env_tick_now (paced seen) e = (seen, e)" "env_tick_now (recorded (paced seen)) e' = (seen, e')"
  "env_send (recorded (paced seen)) e' peer i payload = (Inr (), (fst e', snd e' @ [(peer, i, payload, Inr ())]))"
  "env_now (recorded (paced seen)) e' = (fst e' * 100000000, e')"
  "env_sleep (recorded (paced seen)) d e' = (fst e' + 1, snd e')"
  by (cases e'; simp add: paced_def recorded_def)+

lemma paced_clock: "read_clock (recorded (paced seen)) g = (fst (g_server g) * 100000000, g)"
  by (simp add: read_clock_def paced_simps)

lemma paced_retain: "fst (g_server (snd (retain_welcomes (recorded (paced seen)) peers g))) = fst (g_server g)"
  by (induction peers arbitrary: g) (simp_all add: paced_simps split: option.split)

lemma paced_flush: "fst (g_server (flush_welcomes (recorded (paced seen)) g)) = fst (g_server g)"
  using paced_retain [of seen "bt_keys (g_pending g)" g] by (simp add: flush_welcomes_def case_prod_unfold)

lemma paced_fold: "g_server (fold (handle (recorded (paced seen)) trig) inbounds g) = g_server g"
  by (induction inbounds arbitrary: g) (simp_all add: handle_server paced_clock)

lemma paced_poll:
  "fst (poll (recorded (paced seen)) trig s) = fst (g_server (s_game s)) * 100000000"
  "fst (g_server (s_game (snd (poll (recorded (paced seen)) trig s)))) = fst (g_server (s_game s))"
  by (simp_all add: poll_def paced_clock drain_events_def paced_simps paced_fold paced_flush Let_def)

lemma paced_start:
  "g_server (s_game (start_server (recorded (paced seen)) address quiet interval (0, []))) = (0, [])"
  "s_next_step (start_server (recorded (paced seen)) address quiet interval (0, [])) = 33333333"
  by (simp_all add: start_server_def paced_clock game_new_def TICK_STEP_def from_secs_def TICK_RATE_def)

text \<open>Client 7 says hello, again and again.\<close>

definition ann_hello :: ClientHello where
  "ann_hello = \<lparr>ch_client_kind = 4, ch_display_name = ''ann''\<rparr>"

definition ann :: "(nat, nat) environment" where
  "ann = paced [(7, Message CLIENT_HELLO_GAME_MESSAGE_ID (the (encode_client_hello ann_hello)))]"

abbreviation ann_start :: "(nat \<times> nat sent list, nat) server_state" where
  "ann_start \<equiv> start_server (recorded ann) DEFAULT_ADDRESS True 0 (0, [])"

lemma ann_seen: "seen_by (recorded ann) s = [Hello 7 ann_hello]"
proof -
  obtain payload where "encode_client_hello ann_hello = Some payload" "decode_client_hello payload = Inr ann_hello"
    using client_hello_back [of ann_hello "[]"] by (auto simp: ann_hello_def u32_MAX_def bytes_of_string_def byte_of_char_def)
  then show ?thesis
    by (simp add: seen_by_def drain_events_def ann_def paced_simps inbound_of_def List.map_filter_def)
qed

lemma ann_link: "length (fst (env_tick_now ann e)) \<le> 1" "reliable_link ann peer" "stays_open ann peer"
  by (simp_all add: ann_def paced_def reliable_link_def stays_open_def event_failure_def)

text \<open>The first turn comes before the deadline, and joins her; the second steps the world.\<close>

lemma ann_turns:
  obtains s p s' where "turns (recorded ann) unit_trig False 0 1 ann_start = Some s" "world_player (g_world (s_game s)) 7 = Some p"
    "turns (recorded ann) unit_trig False 0 1 s = Some s'" "wd_tick (g_world (s_game s')) = wd_tick (g_world (s_game s)) + 1"
proof -
  let ?env = "recorded ann"
  have ok: "game_ok (s_game ann_start)" by (rule new_game_ok [OF start_effects])
  have room: "room (s_game ann_start) (length (seen_by ?env ann_start))"
    by (simp add: ann_seen room_def start_effects world_new_def)
  obtain s where s: "turn ?env unit_trig False 0 ann_start = Some s" "game_ok (s_game s)"
    and s_next: "unat (wd_next_player_id (g_world (s_game s))) \<le>
      unat (wd_next_player_id (g_world (s_game ann_start))) + length (seen_by ?env ann_start)"
    by (rule turn_ok [OF ok unit_trig_ok room])
  have early: "fst (poll ?env unit_trig ann_start) = 0" "s_next_step (snd (poll ?env unit_trig ann_start)) = 33333333"
    by (simp_all add: ann_def paced_poll paced_start poll_tick)
  then have s_game: "g_world (s_game s) = g_world (s_game (snd (poll ?env unit_trig ann_start)))"
    "fst (g_server (s_game s)) = 1" "s_next_step s = 33333333"
    using s(1) by (auto simp: turn_unfold Let_def) (auto simp: ann_def paced_simps paced_poll paced_start)
  have "world_player (g_world (s_game s)) 7 \<noteq> None"
  proof -
    obtain g0 where g0: "g_world g0 = world_new" "g_directory g0 = directory_new" "g_pending g0 = bt_empty"
      and polled: "g_world (s_game (snd (poll ?env unit_trig ann_start))) =
        g_world (flush_welcomes ?env (fold (handle ?env unit_trig) [Hello 7 ann_hello] g0))"
      using poll_effects [of ann_start ?env unit_trig] unfolding ann_seen start_effects by metis
    have "linked g0" using new_game_ok [OF g0] by (simp add: game_ok_def)
    from handle_joined [OF this, of ?env unit_trig "Hello 7 ann_hello" 7] show ?thesis
      by (simp add: s_game(1) polled flush_effects(1))
  qed
  then obtain p where p: "world_player (g_world (s_game s)) 7 = Some p" by blast
  have "room (s_game s) (length (seen_by ?env s))"
    using s_next by (simp add: ann_seen room_def start_effects world_new_def)
  then obtain s' where s': "turn ?env unit_trig False 0 s = Some s'" by (rule turn_ok [OF s(2) unit_trig_ok])
  have "fst (poll ?env unit_trig s) = 100000000" "s_next_step (snd (poll ?env unit_trig s)) = 33333333"
    using s_game by (simp_all add: ann_def paced_poll poll_tick)
  then obtain q where "tick ?env 100000000 (snd (poll ?env unit_trig s)) = Some q" "g_world (s_game s') = g_world (s_game q)"
    using s' by (auto simp: turn_unfold Let_def)
  then have "wd_tick (g_world (s_game s')) = wd_tick (g_world (s_game s)) + 1"
    using tick_effects(1) [of ?env 100000000 "snd (poll ?env unit_trig s)" q] by (simp add: tick_of poll_tick)
  with s p s' that show ?thesis by simp
qed

text \<open>
  C4: A client is never told anything false, over any link. In every run of the server, for a peer
  whose connection stays open, with any other clients and any congestion: whatever part of the
  messages sent to it has arrived, the bot has no identity but that of its own player, every
  snapshot it got shows that player, it was welcomed at most once, every message decoded, and it
  counts as having seen itself exactly when a snapshot came after the welcome.
\<close>

theorem bots_learn_only_the_truth:
  assumes "trig_ok trig" "\<And>e. length (fst (env_tick_now env e)) \<le> burst" "n * burst < 2 ^ 32" "stays_open env peer"
    and "turns (recorded env) trig profiling interval n (start_server (recorded env) address quiet interval (server, [])) = Some s"
    and "prefix (messages evs) (inbox peer (record_of (s_game s)))"
    and "br_observed b = default_observed" "br_log b = []"
  shows "\<exists>seen. br_observed (fst (bot_events name evs b)) = seen
    \<and> (\<forall>i. ob_player_id seen = Some i \<longrightarrow> (\<exists>p. world_player (g_world (s_game s)) peer = Some p \<and> pl_id p = i))
    \<and> (\<forall>snap. ob_latest seen = Some snap \<longrightarrow>
        (\<exists>p. world_player (g_world (s_game s)) peer = Some p \<and> pl_id p \<in> ps_player_id ` set (ws_players snap)))
    \<and> (ob_saw_itself seen \<longleftrightarrow> (\<exists>k < length evs. event_snapshot (evs ! k) \<noteq> None \<and> latest event_welcome (take k evs) \<noteq> None))
    \<and> length (filter (\<lambda>e. event_welcome e \<noteq> None) evs) \<le> 1
    \<and> (\<forall>line \<in> set (br_log (fst (bot_events name evs b))). \<exists>i.
        line = BotJoined name i (f32_mul PLANE_HALF_SIZE (f32_lit 2 1)) (f32_mul PLANE_HALF_SIZE (f32_lit 2 1)) TICK_RATE)"
proof -
  have talk: "game_conversation False peer (s_game s)"
    using server_session(2) [OF assms(1-3) _ assms(4,5), of False] by (simp add: session_ok_def)
  have sub: "set (messages evs) \<subseteq> set (inbox peer (record_of (s_game s)))" using assms(6) by (rule set_mono_prefix)
  define i where "i = (case world_player (g_world (s_game s)) peer of Some p \<Rightarrow> pl_id p | None \<Rightarrow> 0)"
  have tells: "\<exists>p. world_player (g_world (s_game s)) peer = Some p \<and> pl_id p = i \<and> (tells_welcome i e \<or> tells_snapshot i e)"
    if "e \<in> set evs" "is_message e" for e
    using talk sub that
    by (auto simp: conversation_def messages_def i_def list_all_iff split: option.splits)
  have once: "length (filter (tells_welcome i) (messages evs)) \<le> 1"
  proof -
    have "length (filter (tells_welcome i) (inbox peer (record_of (s_game s)))) \<le> 1"
      using talk by (auto simp: conversation_def i_def split: option.splits if_splits)
    moreover obtain rest where "inbox peer (record_of (s_game s)) = messages evs @ rest" using assms(6) by (auto simp: prefix_def)
    ultimately show ?thesis by simp
  qed
  have kinds: "event_welcome e \<noteq> None \<longleftrightarrow> is_message e \<and> tells_welcome i e"
    "event_welcome e = Some j \<Longrightarrow> is_message e \<and> j = i" if "e \<in> set evs" for e j
    using tells [OF that] tells_events(1,3) [of i e] not_message(1) [of e] by (cases "is_message e"; auto)+
  have "filter (\<lambda>e. event_welcome e \<noteq> None) evs = filter (tells_welcome i) (messages evs)"
    unfolding messages_def filter_filter using kinds(1) by (intro filter_cong) auto
  with once have one: "length (filter (\<lambda>e. event_welcome e \<noteq> None) evs) \<le> 1" by simp
  have id: "\<exists>p. world_player (g_world (s_game s)) peer = Some p \<and> pl_id p = j"
    if "latest event_welcome evs = Some j" for j
    using latest_Some [OF that] kinds(2) tells by metis
  have snap: "\<exists>p. world_player (g_world (s_game s)) peer = Some p \<and> pl_id p \<in> ps_player_id ` set (ws_players snap)"
    if latest: "latest event_snapshot evs = Some snap" for snap
  proof -
    obtain e where e: "e \<in> set evs" "event_snapshot e = Some snap" using latest_Some [OF latest] by blast
    then have "is_message e" using not_message(2) [of e] by (cases "is_message e") auto
    with tells [OF e(1)] e(2) show ?thesis using tells_events(2,4) [of i e] by auto
  qed
  have saw: "saw_itself_in evs \<longleftrightarrow> (\<exists>k < length evs. event_snapshot (evs ! k) \<noteq> None \<and> latest event_welcome (take k evs) \<noteq> None)"
  proof -
    have own: "j \<in> ps_player_id ` set (ws_players snap)"
      if k: "k < length evs" "event_snapshot (evs ! k) = Some snap" "latest event_welcome (take k evs) = Some j" for k snap j
    proof -
      have here: "evs ! k \<in> set evs" using k(1) by simp
      then have "is_message (evs ! k)" using k(2) not_message(2) [of "evs ! k"] by (cases "is_message (evs ! k)") auto
      with tells [OF here] k(2) have "i \<in> ps_player_id ` set (ws_players snap)"
        using tells_events(2,4) [of i "evs ! k"] by auto
      moreover have "j = i" using latest_Some [OF k(3)] kinds(2) in_set_takeD by metis
      ultimately show ?thesis by simp
    qed
    show ?thesis
    proof
      assume "\<exists>k < length evs. event_snapshot (evs ! k) \<noteq> None \<and> latest event_welcome (take k evs) \<noteq> None"
      then obtain k snap j where "k < length evs" "event_snapshot (evs ! k) = Some snap" "latest event_welcome (take k evs) = Some j"
        by auto
      with own [OF this] show "saw_itself_in evs" unfolding saw_itself_in_def by blast
    qed (fastforce simp: saw_itself_in_def)
  qed
  have "\<exists>j. line = BotJoined name j (f32_mul PLANE_HALF_SIZE (f32_lit 2 1)) (f32_mul PLANE_HALF_SIZE (f32_lit 2 1)) TICK_RATE"
    if "line \<in> set (br_log (fst (bot_events name evs b)))" for line
    using bot_log_events [of evs i line name "(b, None)"] tells that assms(8) by (auto simp: bot_events_def)
  then have log: "\<forall>line \<in> set (br_log (fst (bot_events name evs b))). \<exists>j.
      line = BotJoined name j (f32_mul PLANE_HALF_SIZE (f32_lit 2 1)) (f32_mul PLANE_HALF_SIZE (f32_lit 2 1)) TICK_RATE"
    by blast
  show ?thesis
    by (rule exI, rule conjI, rule conjunct1 [OF events_observed [OF assms(7)]])
      (simp only: observed.simps, intro conjI allI impI id snap saw one log; assumption)
qed

theorem bots_learn_only_the_truth_witness:
  "\<exists>s. turns (recorded ann) unit_trig False 0 1 ann_start = Some s \<and>
     length (filter (\<lambda>e. event_welcome e \<noteq> None) (messages (inbox 7 (record_of (s_game s))))) \<le> 1"
proof -
  obtain s where s: "turns (recorded ann) unit_trig False 0 1 ann_start = Some s" by (rule ann_turns)
  have "prefix (messages (messages (inbox 7 (record_of (s_game s))))) (inbox 7 (record_of (s_game s)))"
    by (simp add: messages_def inbox_messages)
  from bots_learn_only_the_truth [OF unit_trig_ok ann_link(1) _ ann_link(3) s this, where b = "bot_start () 0 ()" and name = "''ann''"]
  show ?thesis using s by (simp add: bot_start_def)
qed

text \<open>
  C5: The smoke test passes against this server. When the bot's link delivers what the server sends
  it, then as soon as the server has heard its hello and made one more step, the bot knows its own
  player's id and has seen itself in a snapshot, whatever the other clients do meanwhile.
\<close>

theorem joined_bot_sees_itself:
  assumes "trig_ok trig" "\<And>e. length (fst (env_tick_now env e)) \<le> burst" "(n + m) * burst < 2 ^ 32"
    and "stays_open env peer" "reliable_link env peer"
    and "turns (recorded env) trig profiling interval n (start_server (recorded env) address quiet interval (server, [])) = Some s"
    and "world_player (g_world (s_game s)) peer = Some p"
    and "turns (recorded env) trig profiling interval m s = Some s'"
    and "wd_tick (g_world (s_game s')) \<noteq> wd_tick (g_world (s_game s))"
    and "messages evs = inbox peer (record_of (s_game s'))" "br_observed b = default_observed"
  shows "\<exists>seen. br_observed (fst (bot_events name evs b)) = seen \<and> ob_player_id seen = Some (pl_id p) \<and> ob_saw_itself seen
    \<and> 1 \<le> ob_most_players seen"
proof -
  have start: "n * burst < 2 ^ 32" using assms(3) by (simp add: algebra_simps)
  have session: "game_ok (s_game s)" "session_ok True peer (s_game s)" "bt_get (g_pending (s_game s)) peer = None"
    using server_session [where reliable = True, OF assms(1,2) start assms(5,4,6)] assms(7) by simp_all
  have burst: "room (s_game s) (m * burst)"
    using server_session(4) [where reliable = True, OF assms(1,2) start assms(5,4,6)] assms(3) by (simp add: room_def algebra_simps)
  obtain p' more where p': "world_player (g_world (s_game s')) peer = Some p'" "pl_id p' = pl_id p"
    and more: "inbox peer (record_of (s_game s')) = inbox peer (record_of (s_game s)) @ more"
    and e: "\<exists>e \<in> set more. tells_snapshot (pl_id p) e" and session': "session_ok True peer (s_game s')"
    using turns_session [where reliable = True and p = p, OF assms(1,2,5,4) session(1,2) burst assms(8)] assms(7,9) unfolding keeps_def by auto
  let ?i = "pl_id p" and ?M = "messages evs"
  obtain w where w: "w \<in> set (inbox peer (record_of (s_game s)))" "tells_welcome ?i w"
    using session(2,3) assms(7) by (auto simp: session_ok_def conversation_def)
  have tells: "tells_welcome ?i x \<or> tells_snapshot ?i x" if "x \<in> set ?M" for x
    using session' p' that by (auto simp: session_ok_def conversation_def assms(10) list_all_iff)
  obtain e us vs where split: "more = us @ e # vs" and e: "tells_snapshot ?i e" using e by (auto dest: split_list)
  let ?A = "inbox peer (record_of (s_game s)) @ us"
  have M: "?M = ?A @ e # vs" by (simp add: assms(10) more split)
  have id: "latest event_welcome xs = Some ?i" if xs: "set xs \<subseteq> set ?M" "w \<in> set xs" for xs
  proof -
    have "latest event_welcome xs \<noteq> None" using xs(2) tells_events(1) [OF w(2)] by (auto simp: latest_None)
    then obtain j x where "latest event_welcome xs = Some j" "x \<in> set xs" "event_welcome x = Some j" using latest_Some by fastforce
    then show ?thesis using tells [of x] xs(1) tells_events(1,3) [of ?i x] by auto
  qed
  obtain snap where snap: "event_snapshot e = Some snap" "?i \<in> ps_player_id ` set (ws_players snap)"
    using tells_events(4) [OF e] by blast
  have "take (length ?A) ?M = ?A" "?M ! length ?A = e" "length ?A < length ?M" unfolding M by simp_all
  moreover have "latest event_welcome ?A = Some ?i" using w(1) by (intro id) (auto simp: M)
  ultimately have saw: "saw_itself_in ?M" unfolding saw_itself_in_def using snap by metis
  have "latest event_welcome ?M = Some ?i" using w(1) by (intro id) (auto simp: M)
  moreover have "length (ws_players snap) \<in> length ` ws_players ` set (List.map_filter event_snapshot ?M)"
    unfolding M using snap(1) by (force simp: List.map_filter_def)
  then have "length (ws_players snap) \<le> Max (insert 0 (length ` ws_players ` set (List.map_filter event_snapshot evs)))"
    by (intro Max_ge) (simp_all add: snapshots_messages)
  then have "1 \<le> Max (insert 0 (length ` ws_players ` set (List.map_filter event_snapshot evs)))"
    using snap(2) by (cases "ws_players snap") auto
  ultimately show ?thesis
    using saw conjunct1 [OF events_observed [OF assms(11), of name evs]] by (simp add: latest_messages saw_messages)
qed

theorem joined_bot_sees_itself_witness:
  "\<exists>s. turns (recorded ann) unit_trig False 0 2 ann_start = Some s \<and>
     ob_saw_itself (br_observed (fst (bot_events ''ann'' (inbox 7 (record_of (s_game s))) (bot_start () 0 ()))))"
proof -
  obtain s p s' where s: "turns (recorded ann) unit_trig False 0 1 ann_start = Some s"
    "world_player (g_world (s_game s)) 7 = Some p" "turns (recorded ann) unit_trig False 0 1 s = Some s'"
    "wd_tick (g_world (s_game s')) = wd_tick (g_world (s_game s)) + 1" by (rule ann_turns)
  then have "turns (recorded ann) unit_trig False 0 2 ann_start = Some s'"
    by (auto simp: numeral_2_eq_2 split: option.splits)
  moreover have "wd_tick (g_world (s_game s')) \<noteq> wd_tick (g_world (s_game s))" using s(4) by simp
  ultimately show ?thesis
    using joined_bot_sees_itself [OF unit_trig_ok ann_link(1) _ ann_link(3,2) s(1-3), of "inbox 7 (record_of (s_game s'))"
        "bot_start () 0 ()" "''ann''"] by (auto simp: bot_start_def messages_def inbox_messages)
qed

end
