(* ===== verification/Schema.thy ===== *)
theory Schema
  imports Handshake Protocol_Laws
begin

text \<open>
  The constants of the generated codecs and \<^verbatim>\<open>server/src/schema.rs\<close>, which hands the table to
  \<^verbatim>\<open>fomoxa_net\<close>. \<^verbatim>\<open>Schema::new\<close> and \<^verbatim>\<open>MessageSchema::new\<close> are parameters.
\<close>

section \<open>The constants of the codecs\<close>

definition ClientHelloGameCodec_MESSAGE_NAME :: string where
  "ClientHelloGameCodec_MESSAGE_NAME = ''ClientHello.game''"

definition ClientHelloGameCodec_MESSAGE_ID :: u32 where
  "ClientHelloGameCodec_MESSAGE_ID = 0xACEB4840"

definition ClientHelloGameCodec_FINGERPRINT :: u64 where
  "ClientHelloGameCodec_FINGERPRINT = 0x1D75366230B9D0EF"

definition WelcomeGameCodec_MESSAGE_NAME :: string where
  "WelcomeGameCodec_MESSAGE_NAME = ''Welcome.game''"

definition WelcomeGameCodec_MESSAGE_ID :: u32 where
  "WelcomeGameCodec_MESSAGE_ID = 0x00876FB0"

definition WelcomeGameCodec_FINGERPRINT :: u64 where
  "WelcomeGameCodec_FINGERPRINT = 0x2D2DF98B821DCD9D"

definition PlayerInputGameCodec_MESSAGE_NAME :: string where
  "PlayerInputGameCodec_MESSAGE_NAME = ''PlayerInput.game''"

definition PlayerInputGameCodec_MESSAGE_ID :: u32 where
  "PlayerInputGameCodec_MESSAGE_ID = 0x6984A5A4"

definition PlayerInputGameCodec_FINGERPRINT :: u64 where
  "PlayerInputGameCodec_FINGERPRINT = 0xB12F80F42BD84E52"

definition PlayerStateGameCodec_MESSAGE_NAME :: string where
  "PlayerStateGameCodec_MESSAGE_NAME = ''PlayerState.game''"

definition PlayerStateGameCodec_MESSAGE_ID :: u32 where
  "PlayerStateGameCodec_MESSAGE_ID = 0x9C787B03"

definition PlayerStateGameCodec_FINGERPRINT :: u64 where
  "PlayerStateGameCodec_FINGERPRINT = 0x841F5F0775C65445"

definition WorldSnapshotGameCodec_MESSAGE_NAME :: string where
  "WorldSnapshotGameCodec_MESSAGE_NAME = ''WorldSnapshot.game''"

definition WorldSnapshotGameCodec_MESSAGE_ID :: u32 where
  "WorldSnapshotGameCodec_MESSAGE_ID = 0x7DDE7B54"

definition WorldSnapshotGameCodec_FINGERPRINT :: u64 where
  "WorldSnapshotGameCodec_FINGERPRINT = 0x3966DDBA99FE7647"

section \<open>\<^verbatim>\<open>schema()\<close>\<close>

text \<open>\<open>None\<close> is the panic of \<^verbatim>\<open>expect\<close>.\<close>

definition schema :: "(u64 \<Rightarrow> 'm list \<Rightarrow> 'e + 's) \<Rightarrow> (u32 \<Rightarrow> u64 \<Rightarrow> u64 list \<Rightarrow> 'm) \<Rightarrow> 's option" where
  "schema schema_new message_schema_new =
    (case schema_new FOMOXA_SCHEMA_FINGERPRINT
        (map (\<lambda>message. message_schema_new (fm_id message) (fm_fingerprint message) (fm_prefixes message)) FOMOXA_MESSAGES) of
       Inr s \<Rightarrow> Some s
     | Inl error \<Rightarrow> None)"

section \<open>The table and the codecs agree\<close>

text \<open>A well-formed table: ids strictly increasing, one fingerprint per field, the last the message's own.\<close>

definition table_ok :: "(u32 \<times> u64 \<times> u64 list) list \<Rightarrow> bool" where
  "table_ok table \<longleftrightarrow> sorted_wrt (<) (map fst table) \<and>
     list_all (\<lambda>(i, fingerprint, prefixes). prefixes \<noteq> [] \<and> last prefixes = fingerprint \<and> distinct prefixes) table"

definition codec_entry :: "u32 \<Rightarrow> string \<Rightarrow> u64 \<Rightarrow> nat \<Rightarrow> bool" where
  "codec_entry i name fingerprint field_count \<longleftrightarrow>
     (\<exists>entry \<in> set FOMOXA_MESSAGES. fm_id entry = i \<and> fm_name entry = name \<and> fm_fingerprint entry = fingerprint \<and>
        length (fm_prefixes entry) = field_count)"



end
