(* ===== verification/Measure.thy ===== *)
theory Measure
  imports Float_Text World Cli
begin

text \<open>
  \<^verbatim>\<open>server/src/measure.rs\<close>: the load generator that the bench binaries share, up to the report. The
  bots are the parameter \<open>load\<close>: the trait \<^verbatim>\<open>BotFactory\<close> and its \<^verbatim>\<open>LoadBot\<close>, with the clock and the
  sleep, on a state of their own. Each worker thread owns its bots and shares nothing, so a worker
  is a function of the state it starts in.
\<close>

section \<open>Constants\<close>

definition MEASURE_DEFAULT_ADDRESS :: string where
  "MEASURE_DEFAULT_ADDRESS = ''127.0.0.1:9321''"

definition CONNECT_GAP :: duration where
  "CONNECT_GAP = from_micros 500"

definition MEASURE_IDLE_SLEEP :: duration where
  "MEASURE_IDLE_SLEEP = from_micros 500"

definition TAG_COUNT :: nat where
  "TAG_COUNT = 512"

definition DEFAULT_BOTS :: nat where
  "DEFAULT_BOTS = 100"

definition DEFAULT_MEASURED_BOTS :: nat where
  "DEFAULT_MEASURED_BOTS = 100"

definition DEFAULT_SECONDS :: f32 where
  "DEFAULT_SECONDS = f32_lit 20 1"

definition DEFAULT_WARMUP :: f32 where
  "DEFAULT_WARMUP = f32_lit 5 1"

definition DEFAULT_BOTS_PER_THREAD :: nat where
  "DEFAULT_BOTS_PER_THREAD = 64"

definition CONNECT_SLACK :: duration where
  "CONNECT_SLACK = from_secs 2"

definition SAMPLE_INTERVAL :: duration where
  "SAMPLE_INTERVAL = from_millis 200"

definition CLOCK_TICKS_PER_SECOND :: f64 where
  "CLOCK_TICKS_PER_SECOND = f64_lit 100 1"

definition PAGE_SIZE :: nat where
  "PAGE_SIZE = 4096"

definition TAG_BASE :: f32 where
  "TAG_BASE = f32_neg (f32_lit 25 100)"

definition TAG_STEP :: f32 where
  "TAG_STEP = f32_lit 1 1000"

section \<open>Options\<close>

record options =
  op_address :: string
  op_bots :: nat
  op_measure_stride :: nat
  op_threads :: nat
  op_seconds :: duration
  op_warmup :: duration
  op_input_interval :: duration
  op_input_hz :: f32
  op_server_pid :: "nat option"
  op_json :: "string option"

definition div_ceil :: "nat \<Rightarrow> nat \<Rightarrow> nat" where
  "div_ceil a b = a div b + (if a mod b = 0 then 0 else 1)"

text \<open>\<^verbatim>\<open>cli::flag(name).and_then(|value| value.parse().ok())\<close>\<close>

definition parsed_flag :: "(string \<Rightarrow> 'a option) \<Rightarrow> string list \<Rightarrow> string \<Rightarrow> 'a option" where
  "parsed_flag parse args name = Option.bind (flag args name) parse"

definition unwrap_or :: "'a option \<Rightarrow> 'a \<Rightarrow> 'a" where
  "unwrap_or x d = (case x of Some v \<Rightarrow> v | None \<Rightarrow> d)"

definition clamp_nat :: "nat \<Rightarrow> nat \<Rightarrow> nat \<Rightarrow> nat" where
  "clamp_nat n lo hi = (if n < lo then lo else if hi < n then hi else n)"

text \<open>\<open>None\<close> is the panic of \<^verbatim>\<open>Duration::from_secs_f32\<close> on a negative, NaN or huge value.\<close>

definition from_cli :: "string list \<Rightarrow> options option" where
  "from_cli args =
    (let bots = max (unwrap_or (parsed_flag (parse_uint 64) args ''--bots'') DEFAULT_BOTS) 1;
         measured_bots = max (min (unwrap_or (parsed_flag (parse_uint 64) args ''--measure-bots'') DEFAULT_MEASURED_BOTS) bots) 1;
         threads = clamp_nat (unwrap_or (parsed_flag (parse_uint 64) args ''--threads'') (div_ceil bots DEFAULT_BOTS_PER_THREAD)) 1 bots;
         input_hz = f32_max (unwrap_or (parsed_flag parse_f32 args ''--input-hz'') (f32_of_nat (unat TICK_RATE))) f32_one
     in case from_secs_f32 (unwrap_or (parsed_flag parse_f32 args ''--seconds'') DEFAULT_SECONDS) of None \<Rightarrow> None
      | Some seconds \<Rightarrow>
        (case from_secs_f32 (unwrap_or (parsed_flag parse_f32 args ''--warmup'') DEFAULT_WARMUP) of None \<Rightarrow> None
         | Some warmup \<Rightarrow>
           (case from_secs_f32 (f32_div f32_one input_hz) of None \<Rightarrow> None
            | Some input_interval \<Rightarrow> Some \<lparr>
                op_address = unwrap_or (flag args ''--addr'') MEASURE_DEFAULT_ADDRESS,
                op_bots = bots, op_measure_stride = max (bots div measured_bots) 1, op_threads = threads,
                op_seconds = seconds, op_warmup = warmup, op_input_interval = input_interval, op_input_hz = input_hz,
                op_server_pid = parsed_flag (parse_uint 32) args ''--server-pid'',
                op_json = flag args ''--json''\<rparr>)))"

section \<open>Windows, statistics and tags\<close>

record window =
  wn_measure_start :: instant
  wn_measure_end :: instant

definition measuring :: "window \<Rightarrow> instant \<Rightarrow> bool" where
  "measuring w now \<longleftrightarrow> wn_measure_start w \<le> now \<and> now < wn_measure_end w"

record stats =
  st_measured :: bool
  st_joined :: bool
  st_lost :: "string option"
  st_snapshots :: nat
  st_snapshot_bytes :: nat
  st_inputs :: nat
  st_congested :: nat
  st_rtt_micros :: "u32 list"

definition default_stats :: stats where
  "default_stats = \<lparr>st_measured = False, st_joined = False, st_lost = None, st_snapshots = 0, st_snapshot_bytes = 0,
     st_inputs = 0, st_congested = 0, st_rtt_micros = []\<rparr>"

definition stats_measured :: "bool \<Rightarrow> stats" where
  "stats_measured measured = default_stats\<lparr>st_measured := measured\<rparr>"

definition tag_pitch :: "nat \<Rightarrow> f32" where
  "tag_pitch index = f32_add TAG_BASE (f32_mul (f32_of_nat index) TAG_STEP)"

definition usize_MAX :: nat where
  "usize_MAX = 2 ^ 64 - 1"

definition tag_index :: "f32 \<Rightarrow> nat option" where
  "tag_index pitch =
    (let raw = f32_round (f32_div (f32_sub pitch TAG_BASE) TAG_STEP)
     in if f32_lt raw 0 \<or> f32_le (f32_of_nat TAG_COUNT) raw then None
        else let index = f32_to_nat usize_MAX raw
             in if tag_pitch index = pitch then Some index else None)"

text \<open>\<^verbatim>\<open>cos\<close> and \<^verbatim>\<open>sin\<close> are \<open>trig\<close> as in the simulation; \<^verbatim>\<open>atan2\<close> is a parameter too.\<close>

definition circling_input :: "trig \<Rightarrow> (f32 \<Rightarrow> f32 \<Rightarrow> f32) \<Rightarrow> f32 \<Rightarrow> f32 \<Rightarrow> f32 \<times> f32 \<times> f32" where
  "circling_input trig atan2 elapsed phase =
    (let angle = f32_add elapsed phase; move_x = trig_cos trig angle; move_z = trig_sin trig angle
     in (move_x, move_z, atan2 (f32_neg move_x) (f32_neg move_z)))"

section \<open>Workers\<close>

record ('e, 'b) load =
  ld_connect :: "nat \<Rightarrow> bool \<Rightarrow> instant \<Rightarrow> 'e \<Rightarrow> (string + 'b) \<times> 'e"
  ld_pump :: "instant \<Rightarrow> window \<Rightarrow> duration \<Rightarrow> 'b \<Rightarrow> 'e \<Rightarrow> ('b \<times> 'e) option"
  ld_into_stats :: "'b \<Rightarrow> stats"
  ld_now :: "'e \<Rightarrow> instant \<times> 'e"
  ld_sleep :: "duration \<Rightarrow> 'e \<Rightarrow> 'e"

text \<open>\<^verbatim>\<open>for bot in bots.iter_mut() { bot.pump(Instant::now(), ...) }\<close>; \<open>None\<close> is a panic of a bot.\<close>

fun pump_all :: "('e, 'b) load \<Rightarrow> window \<Rightarrow> duration \<Rightarrow> 'b list \<Rightarrow> 'e \<Rightarrow> ('b list \<times> 'e) option" where
  "pump_all load window interval [] e = Some ([], e)"
| "pump_all load window interval (client # bots) e =
    (case ld_now load e of (now, e) \<Rightarrow>
     (case ld_pump load now window interval client e of None \<Rightarrow> None
      | Some (client, e) \<Rightarrow>
         (case pump_all load window interval bots e of None \<Rightarrow> None | Some (bots, e) \<Rightarrow> Some (client # bots, e))))"

definition refused_stats :: "string \<Rightarrow> stats" where
  "refused_stats error = default_stats\<lparr>st_lost := Some (''cannot connect: '' @ error)\<rparr>"

fun connect_slots ::
    "('e, 'b) load \<Rightarrow> options \<Rightarrow> window \<Rightarrow> nat list \<Rightarrow> 'b list \<Rightarrow> stats list \<Rightarrow> 'e \<Rightarrow> ('b list \<times> stats list \<times> 'e) option" where
  "connect_slots load options window [] bots refused e = Some (bots, refused, e)"
| "connect_slots load options window (index # indices) bots refused e =
    (case ld_now load e of (now, e) \<Rightarrow>
     (case ld_connect load index (index mod op_measure_stride options = 0) now e of (outcome, e) \<Rightarrow>
      let (bots, refused) = (case outcome of Inr client \<Rightarrow> (bots @ [client], refused)
                             | Inl error \<Rightarrow> (bots, refused @ [refused_stats error]))
      in (case pump_all load window (op_input_interval options) bots e of None \<Rightarrow> None
          | Some (bots, e) \<Rightarrow> connect_slots load options window indices bots refused (ld_sleep load CONNECT_GAP e))))"

text \<open>\<^verbatim>\<open>while Instant::now() < window.measure_end { ... }\<close>; \<open>None\<close> also when the clock never gets there.\<close>

partial_function (option) measure_loop ::
    "('e, 'b) load \<Rightarrow> options \<Rightarrow> window \<Rightarrow> 'b list \<Rightarrow> 'e \<Rightarrow> ('b list \<times> 'e) option" where
  "measure_loop load options window bots e =
    (let (now, e1) = ld_now load e in
     if now < wn_measure_end window then
       (case pump_all load window (op_input_interval options) bots e1 of None \<Rightarrow> None
        | Some (bots1, e2) \<Rightarrow> measure_loop load options window bots1 (ld_sleep load MEASURE_IDLE_SLEEP e2))
     else Some (bots, e1))"

definition run_shard ::
    "('e, 'b) load \<Rightarrow> options \<Rightarrow> window \<Rightarrow> nat \<Rightarrow> nat \<Rightarrow> 'e \<Rightarrow> stats list option" where
  "run_shard load options window first count e =
    (case connect_slots load options window [first ..< first + count] [] [] e of None \<Rightarrow> None
     | Some (bots, refused, e) \<Rightarrow>
       map_option (\<lambda>(bots, e). map (ld_into_stats load) bots @ refused) (measure_loop load options window bots e))"

text \<open>\<^verbatim>\<open>while assigned < options.bots { ... }\<close>: the first bot and the number of bots of each worker.\<close>

partial_function (option) shards_from :: "nat \<Rightarrow> nat \<Rightarrow> nat \<Rightarrow> (nat \<times> nat) list option" where
  "shards_from bots per_thread assigned =
    (if assigned < bots then
       (let count = min per_thread (bots - assigned)
        in Option.bind (shards_from bots per_thread (assigned + count)) (\<lambda>shards. Some ((assigned, count) # shards)))
     else Some [])"

record process_sample =
  sm_at :: instant
  sm_cpu_seconds :: f64
  sm_rss_bytes :: nat

record run_result =
  rn_window :: window
  rn_stats :: "stats list"
  rn_server_samples :: "process_sample list"
  rn_client_samples :: "process_sample list"

definition connect_budget :: "options \<Rightarrow> duration" where
  "connect_budget options = CONNECT_SLACK + CONNECT_GAP * (div_ceil (op_bots options) (op_threads options) mod 2 ^ 32)"

definition run_window :: "options \<Rightarrow> instant \<Rightarrow> window" where
  "run_window options start = \<lparr>
     wn_measure_start = start + connect_budget options + op_warmup options,
     wn_measure_end = start + connect_budget options + op_warmup options + op_seconds options\<rparr>"

text \<open>The line printed first; the middle dot is two bytes of UTF-8.\<close>

definition middle_dot :: string where
  "middle_dot = '' '' @ [CHR 0xC2, CHR 0xB7] @ '' ''"

definition run_banner :: "string \<Rightarrow> options \<Rightarrow> string" where
  "run_banner stack options = ''bench: '' @ stack @ middle_dot @ show_nat (op_bots options) @ '' bots (every ''
     @ show_nat (op_measure_stride options) @ '' measured) on '' @ show_nat (op_threads options) @ '' threads, input ''
     @ show_f32 0 (op_input_hz options) @ '' Hz, warmup '' @ show_f32 0 (as_secs_f32 (op_warmup options)) @ ''s, measure ''
     @ show_f32 0 (as_secs_f32 (op_seconds options)) @ ''s''"

text \<open>
  The worker started \<open>n\<close>-th begins in the state \<open>worker n\<close>, and the sampler thread hands over
  \<open>samples\<close>. \<open>None\<close> is a worker that panics, on which the program exits, or never returns.
\<close>

definition run ::
    "('e, 'b) load \<Rightarrow> options \<Rightarrow> instant \<Rightarrow> (nat \<Rightarrow> 'e) \<Rightarrow> process_sample list \<times> process_sample list \<Rightarrow> run_result option" where
  "run load options start worker samples =
    (let window = run_window options start in
     case shards_from (op_bots options) (div_ceil (op_bots options) (op_threads options)) 0 of None \<Rightarrow> None
     | Some shards \<Rightarrow>
        map_option (\<lambda>collected. \<lparr>rn_window = window, rn_stats = concat collected, rn_server_samples = fst samples,
            rn_client_samples = snd samples\<rparr>)
          (those (map (\<lambda>(n, first, count). run_shard load options window first count (worker n)) (List.enumerate 0 shards))))"

end
