(* ===== verification/Measure_Report.thy ===== *)
theory Measure_Report
  imports Measure
begin

text \<open>
  \<^verbatim>\<open>server/src/measure.rs\<close>, what is made of a run: the process samples, the percentiles and the
  report. \<^verbatim>\<open>/proc\<close> is read outside the model: \<open>read_process\<close> takes the texts of the two files.
  Sums of \<^verbatim>\<open>u64\<close> wrap, as in the release build.
\<close>

section \<open>Process samples\<close>

definition rsplit_once :: "char \<Rightarrow> string \<Rightarrow> (string \<times> string) option" where
  "rsplit_once c s = (if c \<in> set s
     then Some (rev (tl (dropWhile (\<lambda>x. x \<noteq> c) (rev s))), rev (takeWhile (\<lambda>x. x \<noteq> c) (rev s))) else None)"

text \<open>White space of ASCII; the numbers after the process name are separated by nothing else.\<close>

definition is_space :: "char \<Rightarrow> bool" where
  "is_space c \<longleftrightarrow> c = CHR '' '' \<or> 9 \<le> (of_char c :: nat) \<and> (of_char c :: nat) \<le> 13"

fun split_words :: "string \<Rightarrow> string \<Rightarrow> string list" where
  "split_words word [] = (if word = [] then [] else [word])"
| "split_words word (c # cs) =
     (if is_space c then (if word = [] then split_words [] cs else word # split_words [] cs)
      else split_words (word @ [c]) cs)"

definition split_whitespace :: "string \<Rightarrow> string list" where
  "split_whitespace s = split_words [] s"

definition read_process :: "instant \<Rightarrow> string option \<Rightarrow> string option \<Rightarrow> process_sample option" where
  "read_process now stat_text statm_text =
    Option.bind stat_text (\<lambda>stat.
    Option.bind (rsplit_once (CHR '')'') stat) (\<lambda>(name, after_name).
    let fields = split_whitespace after_name in
    Option.bind (Option.bind (slice_get fields 11) (parse_uint 64)) (\<lambda>utime.
    Option.bind (Option.bind (slice_get fields 12) (parse_uint 64)) (\<lambda>stime.
    Option.bind statm_text (\<lambda>statm.
    Option.bind (Option.bind (slice_get (split_whitespace statm) 1) (parse_uint 64)) (\<lambda>resident.
    Some \<lparr>sm_at = now, sm_cpu_seconds = f64_div (f64_of_nat ((utime + stime) mod 2 ^ 64)) CLOCK_TICKS_PER_SECOND,
          sm_rss_bytes = resident * PAGE_SIZE mod 2 ^ 64\<rparr>))))))"

text \<open>One round of the sampler: the server's process when its pid is known, then the generator's own.\<close>

definition sample_once ::
    "options \<Rightarrow> (string \<Rightarrow> process_sample option) \<Rightarrow> process_sample list \<times> process_sample list
      \<Rightarrow> process_sample list \<times> process_sample list" where
  "sample_once options read samples = (case samples of (server, client) \<Rightarrow>
     ((case op_server_pid options of None \<Rightarrow> server
       | Some pid \<Rightarrow> (case read (show_nat pid) of None \<Rightarrow> server | Some sample \<Rightarrow> server @ [sample])),
      (case read ''self'' of None \<Rightarrow> client | Some sample \<Rightarrow> client @ [sample])))"

record resource_summary =
  rs_cpu_cores_mean :: f64
  rs_cpu_cores_peak :: f64
  rs_rss_mean_mb :: f64
  rs_rss_peak_mb :: f64

definition MEBIBYTE :: f64 where
  "MEBIBYTE = f64_mul (f64_lit 1024 1) (f64_lit 1024 1)"

text \<open>\<^verbatim>\<open>samples.windows(2)\<close>\<close>

definition windows2 :: "'a list \<Rightarrow> ('a \<times> 'a) list" where
  "windows2 xs = zip xs (drop 1 xs)"

definition cores_between :: "process_sample \<times> process_sample \<Rightarrow> f64" where
  "cores_between pair = (case pair of (a, b) \<Rightarrow>
     let seconds = as_secs_f64 (since (sm_at b) (sm_at a))
     in if f64_le seconds 0 then 0 else f64_div (f64_sub (sm_cpu_seconds b) (sm_cpu_seconds a)) seconds)"

definition summarize_resources :: "process_sample list \<Rightarrow> window \<Rightarrow> resource_summary option" where
  "summarize_resources samples window =
    (let inside = filter (\<lambda>sample. wn_measure_start window \<le> sm_at sample \<and> sm_at sample \<le> wn_measure_end window) samples
     in if inside = [] then None
        else
          let span = as_secs_f64 (since (sm_at (last inside)) (sm_at (hd inside)))
          in if f64_le span 0 then None
             else Some \<lparr>
               rs_cpu_cores_mean = f64_div (f64_sub (sm_cpu_seconds (last inside)) (sm_cpu_seconds (hd inside))) span,
               rs_cpu_cores_peak = foldl f64_max 0 (map cores_between (windows2 inside)),
               rs_rss_mean_mb = f64_div (f64_div (f64_sum (map (\<lambda>sample. f64_of_nat (sm_rss_bytes sample)) inside))
                 (f64_of_nat (length inside))) MEBIBYTE,
               rs_rss_peak_mb = f64_div (f64_of_nat (Max (set (map sm_rss_bytes inside)))) MEBIBYTE\<rparr>)"

section \<open>Percentiles\<close>

text \<open>\<^verbatim>\<open>(quantile * len as f64).ceil() as usize\<close>, clamped to a position, and minus one.\<close>

definition rank_index :: "f64 \<Rightarrow> nat \<Rightarrow> nat" where
  "rank_index quantile len =
    (let rank = f64_to_nat usize_MAX (f64_ceil (f64_mul quantile (f64_of_nat len))) in clamp_nat rank 1 len - 1)"

definition percentile :: "u32 list \<Rightarrow> f64 \<Rightarrow> f64" where
  "percentile values quantile =
    (if values = [] then f64_NAN
     else f64_div (f64_of_nat (unat (values ! rank_index quantile (length values)))) (f64_lit 1000 1))"

definition spread :: "f64 list \<Rightarrow> f64 \<Rightarrow> f64" where
  "spread per_bot quantile = (if per_bot = [] then f64_NAN else per_bot ! rank_index quantile (length per_bot))"

section \<open>The figures of a report\<close>

definition total_of :: "(stats \<Rightarrow> nat) \<Rightarrow> stats list \<Rightarrow> nat" where
  "total_of f stats = sum_list (map f stats) mod 2 ^ 64"

definition count_if :: "(stats \<Rightarrow> bool) \<Rightarrow> stats list \<Rightarrow> nat" where
  "count_if P stats = length (filter P stats)"

text \<open>The closure \<^verbatim>\<open>rate_of\<close>.\<close>

definition rate_of :: "f64 \<Rightarrow> (stats \<Rightarrow> bool) \<Rightarrow> stats list \<Rightarrow> f64" where
  "rate_of seconds in_group stats =
    (let members = filter (\<lambda>stat. st_joined stat \<and> in_group stat) stats
     in if members = [] then f64_NAN
        else f64_div (f64_div (f64_of_nat (total_of st_snapshots members)) (f64_of_nat (length members))) seconds)"

record figures =
  fg_measured_bots :: nat
  fg_joined :: nat
  fg_lost :: nat
  fg_snapshots :: nat
  fg_snapshot_bytes :: nat
  fg_inputs :: nat
  fg_congested :: nat
  fg_rtt :: "u32 list"
  fg_rtt_mean :: f64
  fg_snapshots_per_bot :: f64
  fg_delivered :: f64
  fg_decoding_rate :: f64
  fg_counting_rate :: f64
  fg_per_bot :: "f64 list"

definition rtt_mean_of :: "u32 list \<Rightarrow> f64" where
  "rtt_mean_of rtt = (if rtt = [] then f64_NAN
     else f64_div (f64_div (f64_sum (map (\<lambda>value. f64_of_nat (unat value)) rtt)) (f64_of_nat (length rtt))) (f64_lit 1000 1))"

definition snapshots_per_bot_of :: "f64 \<Rightarrow> stats list \<Rightarrow> f64" where
  "snapshots_per_bot_of seconds stats = (if 0 < count_if st_joined stats
     then f64_div (f64_div (f64_of_nat (total_of st_snapshots stats)) (f64_of_nat (count_if st_joined stats))) seconds else 0)"

definition figures_of :: "f64 \<Rightarrow> stats list \<Rightarrow> figures" where
  "figures_of seconds stats =
    (let rtt = sort (concat (map st_rtt_micros stats)); snapshots_per_bot = snapshots_per_bot_of seconds stats
     in \<lparr>fg_measured_bots = count_if st_measured stats,
         fg_joined = count_if st_joined stats,
         fg_lost = count_if (\<lambda>stat. st_lost stat \<noteq> None) stats,
         fg_snapshots = total_of st_snapshots stats,
         fg_snapshot_bytes = total_of st_snapshot_bytes stats,
         fg_inputs = total_of st_inputs stats,
         fg_congested = total_of st_congested stats,
         fg_rtt = rtt,
         fg_rtt_mean = rtt_mean_of rtt,
         fg_snapshots_per_bot = snapshots_per_bot,
         fg_delivered = f64_mul (f64_div snapshots_per_bot (f64_of_nat (unat TICK_RATE))) (f64_lit 100 1),
         fg_decoding_rate = rate_of seconds st_measured stats,
         fg_counting_rate = rate_of seconds (\<lambda>stat. \<not> st_measured stat) stats,
         fg_per_bot = sort_key f64_total_key
           (map (\<lambda>stat. f64_div (f64_of_nat (st_snapshots stat)) seconds) (filter st_joined stats))\<rparr>)"

fun first_loss :: "stats list \<Rightarrow> string option" where
  "first_loss [] = None"
| "first_loss (stat # stats) = (case st_lost stat of Some reason \<Rightarrow> Some reason | None \<Rightarrow> first_loss stats)"

definition bytes_per_snapshot :: "figures \<Rightarrow> f64" where
  "bytes_per_snapshot fg = (if 0 < fg_snapshots fg
     then f64_div (f64_of_nat (fg_snapshot_bytes fg)) (f64_of_nat (fg_snapshots fg)) else 0)"

definition healthy :: "options \<Rightarrow> figures \<Rightarrow> bool" where
  "healthy options fg \<longleftrightarrow> fg_joined fg = op_bots options \<and> fg_lost fg = 0 \<and> fg_rtt fg \<noteq> []"

section \<open>The report on the terminal\<close>

definition p50 :: f64 where "p50 = f64_lit 50 100"
definition p95 :: f64 where "p95 = f64_lit 95 100"
definition p99 :: f64 where "p99 = f64_lit 99 100"
definition p100 :: f64 where "p100 = f64_lit 1 1"

definition rate_label :: "f64 \<Rightarrow> string" where
  "rate_label rate = (if f64_is_nan rate then ''none'' else show_f64 1 rate @ ''/s'')"

definition report_load_lines :: "string \<Rightarrow> options \<Rightarrow> stats list \<Rightarrow> f64 \<Rightarrow> figures \<Rightarrow> string list" where
  "report_load_lines stack options stats seconds fg =
    [''stack           '' @ stack,
     ''bots            '' @ show_nat (op_bots options) @ '' requested, '' @ show_nat (fg_joined fg) @ '' joined, ''
       @ show_nat (fg_lost fg) @ '' lost'']
    @ (case first_loss stats of Some reason \<Rightarrow> [''first loss      '' @ reason] | None \<Rightarrow> [])
    @ [''latency         p50 '' @ show_f64 1 (percentile (fg_rtt fg) p50) @ '' ms'' @ middle_dot
       @ ''p95 '' @ show_f64 1 (percentile (fg_rtt fg) p95) @ '' ms'' @ middle_dot
       @ ''p99 '' @ show_f64 1 (percentile (fg_rtt fg) p99) @ '' ms'' @ middle_dot
       @ ''max '' @ show_f64 1 (percentile (fg_rtt fg) p100) @ '' ms'' @ middle_dot
       @ ''mean '' @ show_f64 1 (fg_rtt_mean fg) @ '' ms ('' @ show_nat (length (fg_rtt fg)) @ '' samples from ''
       @ show_nat (fg_measured_bots fg) @ '' bots)'',
       ''snapshots       '' @ show_f64 0 (f64_div (f64_of_nat (fg_snapshots fg)) seconds) @ ''/s total'' @ middle_dot
       @ show_f64 1 (fg_snapshots_per_bot fg) @ ''/s per bot'' @ middle_dot @ show_f64 0 (fg_delivered fg) @ ''% of ''
       @ show_nat (unat TICK_RATE) @ '' Hz'',
       ''per bot         min '' @ show_f64 1 (spread (fg_per_bot fg) 0) @ ''/s'' @ middle_dot
       @ ''p50 '' @ show_f64 1 (spread (fg_per_bot fg) p50) @ ''/s'' @ middle_dot
       @ ''max '' @ show_f64 1 (spread (fg_per_bot fg) p100) @ ''/s'' @ middle_dot
       @ ''decoding bots '' @ rate_label (fg_decoding_rate fg) @ middle_dot
       @ ''counting bots '' @ rate_label (fg_counting_rate fg),
       ''server egress   '' @ show_f64 1 (f64_div (f64_div (f64_of_nat (fg_snapshot_bytes fg)) seconds) MEBIBYTE)
       @ '' MiB/s payload ('' @ show_f64 0 (bytes_per_snapshot fg) @ '' bytes per snapshot)'',
       ''inputs          '' @ show_f64 0 (f64_div (f64_of_nat (fg_inputs fg)) seconds) @ ''/s total''
       @ (if 0 < fg_congested fg then middle_dot @ show_nat (fg_congested fg) @ '' dropped by client congestion'' else '''')]"

definition report_process_lines :: "resource_summary option \<Rightarrow> resource_summary option \<Rightarrow> string list" where
  "report_process_lines server client =
    (case server of
       Some summary \<Rightarrow> [''server process  cpu '' @ show_f64 2 (rs_cpu_cores_mean summary) @ '' cores mean'' @ middle_dot
         @ show_f64 2 (rs_cpu_cores_peak summary) @ '' peak'' @ middle_dot
         @ ''rss '' @ show_f64 0 (rs_rss_mean_mb summary) @ '' MiB mean'' @ middle_dot
         @ show_f64 0 (rs_rss_peak_mb summary) @ '' MiB peak'']
     | None \<Rightarrow> [''server process  not measured (pass --server-pid)''])
    @ (case client of
       Some summary \<Rightarrow> [''load generator  cpu '' @ show_f64 2 (rs_cpu_cores_mean summary) @ '' cores mean'' @ middle_dot
         @ ''rss '' @ show_f64 0 (rs_rss_peak_mb summary) @ '' MiB peak'']
     | None \<Rightarrow> [])"

section \<open>The report as JSON\<close>

definition newline :: string where
  "newline = [CHR 0x0A]"

definition json_key :: "string \<Rightarrow> string \<Rightarrow> string" where
  "json_key key value = [CHR 0x22] @ key @ [CHR 0x22] @ '': '' @ value"

definition or_nan :: "('a \<Rightarrow> f64) \<Rightarrow> 'a option \<Rightarrow> f64" where
  "or_nan f summary = (case summary of None \<Rightarrow> f64_NAN | Some s \<Rightarrow> f s)"

definition latency_json :: "figures \<Rightarrow> string" where
  "latency_json fg = ''{ '' @ join_with '', ''
    [json_key ''p50'' (show_f64 2 (percentile (fg_rtt fg) p50)),
     json_key ''p95'' (show_f64 2 (percentile (fg_rtt fg) p95)),
     json_key ''p99'' (show_f64 2 (percentile (fg_rtt fg) p99)),
     json_key ''max'' (show_f64 2 (percentile (fg_rtt fg) p100)),
     json_key ''mean'' (show_f64 2 (fg_rtt_mean fg)),
     json_key ''samples'' (show_nat (length (fg_rtt fg)))] @ '' }''"

definition json_members ::
    "string \<Rightarrow> options \<Rightarrow> f64 \<Rightarrow> figures \<Rightarrow> resource_summary option \<Rightarrow> resource_summary option \<Rightarrow> string list" where
  "json_members stack options seconds fg server client =
    [json_key ''stack'' ([CHR 0x22] @ stack @ [CHR 0x22]),
     json_key ''bots'' (show_nat (op_bots options)),
     json_key ''measured_bots'' (show_nat (fg_measured_bots fg)),
     json_key ''joined'' (show_nat (fg_joined fg)),
     json_key ''lost'' (show_nat (fg_lost fg)),
     json_key ''seconds'' (show_f64 1 seconds),
     json_key ''input_hz'' (show_f32 1 (op_input_hz options)),
     json_key ''tick_rate'' (show_nat (unat TICK_RATE)),
     json_key ''latency_ms'' (latency_json fg),
     json_key ''snapshots_per_second'' (show_f64 1 (f64_div (f64_of_nat (fg_snapshots fg)) seconds)),
     json_key ''snapshots_per_second_per_bot'' (show_f64 2 (fg_snapshots_per_bot fg)),
     json_key ''delivered_percent'' (show_f64 1 (fg_delivered fg)),
     json_key ''per_bot_min'' (show_f64 2 (spread (fg_per_bot fg) 0)),
     json_key ''per_bot_median'' (show_f64 2 (spread (fg_per_bot fg) p50)),
     json_key ''per_bot_max'' (show_f64 2 (spread (fg_per_bot fg) p100)),
     json_key ''decoding_bots_per_second'' (show_f64 2 (fg_decoding_rate fg)),
     json_key ''counting_bots_per_second'' (show_f64 2 (fg_counting_rate fg)),
     json_key ''payload_mib_per_second'' (show_f64 2 (f64_div (f64_div (f64_of_nat (fg_snapshot_bytes fg)) seconds) MEBIBYTE)),
     json_key ''snapshot_bytes'' (show_f64 0 (bytes_per_snapshot fg)),
     json_key ''inputs_per_second'' (show_f64 1 (f64_div (f64_of_nat (fg_inputs fg)) seconds)),
     json_key ''client_congested'' (show_nat (fg_congested fg)),
     json_key ''server_cpu_cores_mean'' (show_f64 3 (or_nan rs_cpu_cores_mean server)),
     json_key ''server_cpu_cores_peak'' (show_f64 3 (or_nan rs_cpu_cores_peak server)),
     json_key ''server_rss_mib_mean'' (show_f64 1 (or_nan rs_rss_mean_mb server)),
     json_key ''server_rss_mib_peak'' (show_f64 1 (or_nan rs_rss_peak_mb server)),
     json_key ''generator_cpu_cores_mean'' (show_f64 3 (or_nan rs_cpu_cores_mean client)),
     json_key ''generator_rss_mib_peak'' (show_f64 1 (or_nan rs_rss_peak_mb client))]"

definition report_json ::
    "string \<Rightarrow> options \<Rightarrow> f64 \<Rightarrow> figures \<Rightarrow> resource_summary option \<Rightarrow> resource_summary option \<Rightarrow> string" where
  "report_json stack options seconds fg server client =
    ''{'' @ newline @ join_with ('','' @ newline) (map (\<lambda>member. ''  '' @ member) (json_members stack options seconds fg server client))
      @ newline @ ''}'' @ newline"

text \<open>
  The lines that are printed, and the file that is written when \<^verbatim>\<open>--json\<close> names one; \<open>written\<close> says
  whether writing it succeeds, and the program exits when it does not.
\<close>

definition report ::
    "string \<Rightarrow> options \<Rightarrow> run_result \<Rightarrow> (string \<Rightarrow> string \<Rightarrow> bool) \<Rightarrow> string list \<times> (string \<times> string) option" where
  "report stack options result written =
    (let seconds = as_secs_f64 (op_seconds options);
         fg = figures_of seconds (rn_stats result);
         server = summarize_resources (rn_server_samples result) (rn_window result);
         client = summarize_resources (rn_client_samples result) (rn_window result);
         lines = report_load_lines stack options (rn_stats result) seconds fg @ report_process_lines server client;
         verdict = ''BENCH: '' @ (if healthy options fg then ''PASS'' else ''DEGRADED'')
     in case op_json options of
          None \<Rightarrow> (lines @ [verdict], None)
        | Some path \<Rightarrow>
            let text = report_json stack options seconds fg server client
            in if written path text then (lines @ [''json            '' @ path, verdict], Some (path, text))
               else (lines, Some (path, text)))"

end
