(* ===== verification/Measure_Tags.thy ===== *)
theory Measure_Tags
  imports Measure World_Floats
begin

text \<open>
  The pitch tags of the load generator: a measured bot looks up by \<open>-0.25 + 0.001 i\<close> and recognises
  its own input in a snapshot by that pitch. The four roundings on the way from the index to the
  pitch and back stay below a two-thousandth of a step, in units of \<open>2\<^sup>-\<^sup>1\<^sup>4\<^sup>9\<close>.
\<close>

lemma rnd_key_error:
  assumes d: "0 < d" and v: "\<bar>v\<bar> < 2 ^ (prec F + e) * d" and lim: "2 ^ (prec F + e) \<le> flimit F"
  shows "2 * \<bar>v - rnd_key F v d * d\<bar> \<le> d * 2 ^ e"
proof -
  have nn: "2 * \<bar>v - rnd_key F v d * d\<bar> \<le> d * 2 ^ e" if v: "0 \<le> v" "v < 2 ^ (prec F + e) * d" for v
  proof -
    have "v div d < 2 ^ (prec F + e)" using v d by (simp add: int_div_less_iff)
    moreover have "0 \<le> v div d" using v d by (simp add: pos_imp_zdiv_nonneg_iff)
    ultimately have "nbits (v div d) - prec F \<le> e" using nbits_le_iff [of "v div d" "prec F + e"] by simp
    then have pow: "(2::int) ^ (nbits (v div d) - prec F) \<le> 2 ^ e" by (intro power_increasing) simp_all
    have "round_units (prec F) v d \<le> 2 ^ (prec F + e)"
      using v d by (intro round_units_le pdig_power) simp_all
    then have "rnd_key F v d = round_units (prec F) v d" using v lim by (simp add: rnd_key_def min_def)
    moreover have "\<bar>2 * v - 2 * (round_units (prec F) v d * d)\<bar> \<le> d * 2 ^ e"
      using round_units_error [OF d, of v "prec F"] mult_left_mono [OF pow, of d] d by linarith
    ultimately show ?thesis by (simp add: abs_if algebra_simps split: if_splits)
  qed
  show ?thesis
  proof (cases "0 \<le> v")
    case True
    with v show ?thesis by (intro nn) simp_all
  next
    case False
    with v have "2 * \<bar>(- v) - rnd_key F (- v) d * d\<bar> \<le> d * 2 ^ e" by (intro nn) simp_all
    then show ?thesis by (simp add: rnd_key_uminus [OF d] abs_minus_commute)
  qed
qed

section \<open>The constants\<close>

definition step_units :: int where
  "step_units = 8589935 * 2 ^ 116"

lemma tag_constants: "f32_val TAG_BASE = Fin True (2 ^ 147)" "f32_val TAG_STEP = Fin False step_units"
proof -
  have "f32_lit 25 100 = 0x3E800000" by (simp add: feval)
  then show "f32_val TAG_BASE = Fin True (2 ^ 147)"
    by (simp add: TAG_BASE_def) (simp add: f32_val_def from_bits_def bits_mag_def sign_bit_F32 inf_bits_F32)
  have step: "TAG_STEP = 0x3A83126F" by (simp add: TAG_STEP_def feval)
  show "f32_val TAG_STEP = Fin False step_units"
    unfolding step by (simp add: f32_val_def from_bits_def bits_mag_def sign_bit_F32 inf_bits_F32 step_units_def)
qed

lemma val_small_nat: "n \<le> 2 ^ 24 \<Longrightarrow> f32_val (f32_of_nat n) = Fin False (int n * unit32)"
proof -
  assume n: "n \<le> 2 ^ 24"
  have "pdig 24 (int n * 2 ^ 149)" using n by (intro pdig_mult_power) simp_all
  then have "round_units 24 (int n * unit32) 1 = int n * unit32"
    by (intro round_units_exact1) (simp add: unit32_def)
  moreover have "int n * unit32 \<le> 2 ^ 24 * unit32" using n by (intro mult_right_mono) simp_all
  then have "int n * unit32 < flimit F32" by (simp add: unit32_def flimit_def)
  ultimately show ?thesis
    by (simp add: f32_val_of_nat fv_of_nat_def fv_round_def funit_F32 fv_mk_small)
qed

lemma is_fin_small: "fv_ok F x \<Longrightarrow> x \<noteq> NaN \<Longrightarrow> \<bar>fv_key F x\<bar> < flimit F \<Longrightarrow> is_fin x \<and> units x = fv_key F x"
  by (metis is_fin_key is_fin_units_key)

section \<open>From the index to the pitch\<close>

lemma tag_product:
  assumes "i < 512"
  shows "is_fin (f32_val (f32_mul (f32_of_nat i) TAG_STEP))"
    and "\<bar>units (f32_val (f32_mul (f32_of_nat i) TAG_STEP)) - int i * step_units\<bar> \<le> 2 ^ 124"
proof -
  let ?x = "f32_mul (f32_of_nat i) TAG_STEP" and ?v = "int i * unit32 * step_units"
  have i: "f32_val (f32_of_nat i) = Fin False (int i * unit32)" using assms by (intro val_small_nat) simp
  have ok: "fv_ok F32 (Fin False (int i * unit32))" "fv_ok F32 (Fin False step_units)"
    using f32_val_ok [of "f32_of_nat i"] f32_val_ok [of TAG_STEP] by (simp_all only: i tag_constants)
  have key: "fv_key F32 (f32_val ?x) = rnd_key F32 ?v unit32"
    using fv_mul_key [OF _ _ ok] by (simp add: f32_val_mul i tag_constants funit_F32)
  have nan: "f32_val ?x \<noteq> NaN" by (simp add: f32_val_mul i tag_constants)
  have prod: "int i * step_units \<le> 511 * step_units" "0 \<le> int i * step_units"
    using assms by (simp_all add: step_units_def)
  have "?v = int i * step_units * unit32" by simp
  also have "\<dots> < 2 ^ (prec F32 + 125) * unit32"
    using prod by (intro mult_strict_right_mono) (simp_all add: step_units_def)
  finally have "2 * \<bar>?v - rnd_key F32 ?v unit32 * unit32\<bar> \<le> unit32 * 2 ^ 125"
    using prod by (intro rnd_key_error) (simp_all add: flimit_def step_units_def)
  moreover have "?v - rnd_key F32 ?v unit32 * unit32 = (int i * step_units - rnd_key F32 ?v unit32) * unit32"
    by (simp add: algebra_simps)
  ultimately have "\<bar>int i * step_units - rnd_key F32 ?v unit32\<bar> * unit32 \<le> 2 ^ 124 * unit32"
    by (simp add: abs_mult)
  then have "\<bar>int i * step_units - rnd_key F32 ?v unit32\<bar> \<le> 2 ^ 124"
    by (rule mult_right_le_imp_le) simp
  then have err: "\<bar>rnd_key F32 ?v unit32 - int i * step_units\<bar> \<le> 2 ^ 124" by (simp only: abs_minus_commute)
  have "\<bar>fv_key F32 (f32_val ?x)\<bar> < flimit F32"
    using err prod unfolding key by (simp add: flimit_def step_units_def)
  then show "is_fin (f32_val ?x)" "\<bar>units (f32_val ?x) - int i * step_units\<bar> \<le> 2 ^ 124"
    using is_fin_small [OF f32_val_ok nan] err key by simp_all
qed

lemma sum_of_units:
  assumes fin: "is_fin (f32_val a)" "is_fin (f32_val b)" and v: "\<bar>units (f32_val a) + units (f32_val b)\<bar> < 2 ^ 150"
  shows "is_fin (f32_val (f32_add a b))"
    and "\<bar>units (f32_val (f32_add a b)) - (units (f32_val a) + units (f32_val b))\<bar> \<le> 2 ^ 125"
proof -
  let ?v = "units (f32_val a) + units (f32_val b)"
  have key: "fv_key F32 (f32_val (f32_add a b)) = rnd_key F32 ?v 1"
    using fin by (simp add: f32_val_add fv_add_key)
  have nan: "f32_val (f32_add a b) \<noteq> NaN"
    using fin by (simp add: f32_val_add fv_add_not_NaN is_fin_not_NaN)
  have "2 * \<bar>?v - rnd_key F32 ?v 1 * 1\<bar> \<le> 1 * 2 ^ 126"
    using v by (intro rnd_key_error) (simp_all add: flimit_def)
  then have err: "\<bar>rnd_key F32 ?v 1 - ?v\<bar> \<le> 2 ^ 125" by (simp add: abs_minus_commute)
  have "\<bar>fv_key F32 (f32_val (f32_add a b))\<bar> < flimit F32"
    using err v unfolding key by (simp add: flimit_def)
  then show "is_fin (f32_val (f32_add a b))" "\<bar>units (f32_val (f32_add a b)) - ?v\<bar> \<le> 2 ^ 125"
    using is_fin_small [OF f32_val_ok nan] err key by simp_all
qed

lemma sub_is_add: "f32_sub a b = f32_add a (f32_neg b)"
  by (simp add: f32_sub_def f32_add_def fv_sub_def)

lemma tag_pitch_units:
  assumes "i < 512"
  shows "is_fin (f32_val (tag_pitch i))" "\<bar>units (f32_val (tag_pitch i)) - (int i * step_units - 2 ^ 147)\<bar> \<le> 2 ^ 126"
proof -
  let ?m = "f32_mul (f32_of_nat i) TAG_STEP"
  note m = tag_product [OF assms]
  have base: "is_fin (f32_val TAG_BASE)" "units (f32_val TAG_BASE) = - (2 ^ 147)" by (simp_all add: tag_constants)
  have prod: "0 \<le> int i * step_units" "int i * step_units \<le> 511 * step_units"
    using assms by (simp_all add: step_units_def)
  then have "\<bar>units (f32_val TAG_BASE) + units (f32_val ?m)\<bar> < 2 ^ 150"
    using m(2) unfolding base by (simp add: step_units_def)
  from sum_of_units [OF base(1) m(1) this] show "is_fin (f32_val (tag_pitch i))"
    "\<bar>units (f32_val (tag_pitch i)) - (int i * step_units - 2 ^ 147)\<bar> \<le> 2 ^ 126"
    using m(2) unfolding base by (simp_all add: tag_pitch_def)
qed

text \<open>A tag lies within the range of pitches the server accepts, so it keeps it as it is.\<close>

lemma tag_pitch_accepted:
  assumes "i < 512"
  shows "f32_is_finite (tag_pitch i)" "f32_clamp (tag_pitch i) (f32_neg MAX_LOOK_PITCH) MAX_LOOK_PITCH = tag_pitch i"
proof -
  note u = tag_pitch_units [OF assms]
  have prod: "0 \<le> int i * step_units" "int i * step_units \<le> 511 * step_units"
    using assms by (simp_all add: step_units_def)
  then have range: "- (3 * 2 ^ 148) \<le> units (f32_val (tag_pitch i))" "units (f32_val (tag_pitch i)) \<le> 3 * 2 ^ 148"
    using u(2) by (simp_all add: step_units_def)
  show "f32_is_finite (tag_pitch i)" using u(1) by (simp add: f32_is_finite_def)
  have "f32_between (f32_neg MAX_LOOK_PITCH) MAX_LOOK_PITCH (tag_pitch i)"
    using u(1) range by (simp add: f32_between_def f32_le_def fv_le_def f32_vals val_consts is_fin_units_key is_fin_not_NaN)
  then show "f32_clamp (tag_pitch i) (f32_neg MAX_LOOK_PITCH) MAX_LOOK_PITCH = tag_pitch i" by (rule f32_clamp_id)
qed

section \<open>From the pitch back to the index\<close>

lemma tag_quotient:
  assumes "i < 512"
  shows "is_fin (f32_val (f32_div (f32_sub (tag_pitch i) TAG_BASE) TAG_STEP))"
    and "\<bar>units (f32_val (f32_div (f32_sub (tag_pitch i) TAG_BASE) TAG_STEP)) - int i * unit32\<bar> \<le> 2 ^ 140"
proof -
  let ?d = "f32_sub (tag_pitch i) TAG_BASE"
  let ?q = "f32_div ?d TAG_STEP"
  note p = tag_pitch_units [OF assms]
  have base: "is_fin (f32_val (f32_neg TAG_BASE))" "units (f32_val (f32_neg TAG_BASE)) = 2 ^ 147" by (simp_all add: tag_constants)
  have prod: "0 \<le> int i * step_units" "int i * step_units \<le> 511 * step_units"
    using assms by (simp_all add: step_units_def)
  have "\<bar>units (f32_val (tag_pitch i)) + units (f32_val (f32_neg TAG_BASE))\<bar> < 2 ^ 150"
    using p(2) prod unfolding base by (simp add: step_units_def)
  note d = sum_of_units [OF p(1) base(1) this, folded sub_is_add]
  have d_err: "\<bar>units (f32_val ?d) - int i * step_units\<bar> \<le> 2 ^ 127"
    using d(2) p(2) unfolding base by simp
  let ?v = "units (f32_val ?d) * unit32"
  have ok: "fv_ok F32 (Fin False step_units)" using f32_val_ok [of TAG_STEP] by (simp only: tag_constants)
  have key: "fv_key F32 (f32_val ?q) = rnd_key F32 ?v step_units"
    using fv_div_key [OF d(1) f32_val_ok ok] by (simp add: f32_val_div tag_constants funit_F32 step_units_def)
  obtain s k where sk: "f32_val ?d = Fin s k" using d(1) by (rule is_finE)
  have nan: "f32_val ?q \<noteq> NaN" by (simp add: f32_val_div tag_constants sk step_units_def)
  have step: "0 < step_units" by (simp add: step_units_def)
  have d_small: "\<bar>units (f32_val ?d)\<bar> \<le> 2 ^ 150"
    using d_err prod by (simp add: step_units_def)
  then have "\<bar>?v\<bar> \<le> 2 ^ 150 * unit32" by (simp add: abs_mult)
  also have "\<dots> < 2 ^ (prec F32 + 137) * step_units" by (simp add: unit32_def step_units_def)
  finally have "2 * \<bar>?v - rnd_key F32 ?v step_units * step_units\<bar> \<le> step_units * 2 ^ 137"
    using step by (intro rnd_key_error) (simp_all add: flimit_def)
  moreover have "\<bar>?v - int i * step_units * unit32\<bar> \<le> 2 ^ 127 * unit32"
  proof -
    have "?v - int i * step_units * unit32 = (units (f32_val ?d) - int i * step_units) * unit32"
      by (simp add: algebra_simps)
    then show ?thesis using d_err by (simp add: abs_mult)
  qed
  moreover have "(2::int) ^ 127 * unit32 \<le> step_units * 2 ^ 138" by (simp add: unit32_def step_units_def)
  ultimately have "\<bar>rnd_key F32 ?v step_units * step_units - int i * step_units * unit32\<bar> \<le> step_units * 2 ^ 140"
    by (simp add: step_units_def)
  moreover have "rnd_key F32 ?v step_units * step_units - int i * step_units * unit32 =
      (rnd_key F32 ?v step_units - int i * unit32) * step_units"
    by (simp add: algebra_simps)
  ultimately have "\<bar>rnd_key F32 ?v step_units - int i * unit32\<bar> * step_units \<le> 2 ^ 140 * step_units"
    using step by (simp add: abs_mult mult.commute)
  then have err: "\<bar>rnd_key F32 ?v step_units - int i * unit32\<bar> \<le> 2 ^ 140"
    using step by (rule mult_right_le_imp_le)
  have "0 \<le> int i * unit32" "int i * unit32 \<le> 511 * unit32" using assms by simp_all
  then have "\<bar>fv_key F32 (f32_val ?q)\<bar> < flimit F32"
    using err unfolding key by (simp add: flimit_def unit32_def)
  then show "is_fin (f32_val ?q)" "\<bar>units (f32_val ?q) - int i * unit32\<bar> \<le> 2 ^ 140"
    using is_fin_small [OF f32_val_ok nan] err key by simp_all
qed

lemma tag_rounds_back:
  assumes "i < 512"
  obtains s where "f32_val (f32_round (f32_div (f32_sub (tag_pitch i) TAG_BASE) TAG_STEP)) = Fin s (int i * unit32)"
    "i = 0 \<or> \<not> s"
proof -
  let ?q = "f32_div (f32_sub (tag_pitch i) TAG_BASE) TAG_STEP"
  note q = tag_quotient [OF assms]
  obtain s k where sk: "f32_val ?q = Fin s k" using q(1) by (rule is_finE)
  have k: "0 \<le> k" using f32_val_ok [of ?q] unfolding sk by (auto dest: pdig_nonneg)
  have err: "\<bar>(if s then - k else k) - int i * unit32\<bar> \<le> 2 ^ 140" using q(2) unfolding sk by simp
  have sign: "i = 0 \<or> \<not> s"
  proof (rule ccontr)
    assume "\<not> (i = 0 \<or> \<not> s)"
    then have "1 * unit32 \<le> int i * unit32" "s" by (auto intro!: mult_right_mono)
    with err k show False by (simp add: unit32_def)
  qed
  then have "\<bar>k - int i * unit32\<bar> \<le> 2 ^ 140" using err by (auto split: if_splits)
  then have "2 * k + unit32 - 2 * (int i * unit32) < 2 * unit32" "2 * (int i * unit32) \<le> 2 * k + unit32"
    by (simp_all add: unit32_def)
  then have "(2 * k + unit32) div (2 * unit32) = int i"
    using int_div_less_iff [of "2 * unit32" "2 * k + unit32" "int i + 1"]
      int_le_div_iff [of "2 * unit32" "int i" "2 * k + unit32"]
    by (simp add: algebra_simps)
  then have "fv_round_int F32 (f32_val ?q) = Fin s (int i * unit32)" by (simp add: sk funit_F32)
  moreover have "fv_ok F32 (Fin s (int i * unit32))"
    using f32_val_ok [of "f32_of_nat i"] val_small_nat [of i] assms by simp
  ultimately have "f32_val (f32_round ?q) = Fin s (int i * unit32)" by (simp add: f32_round_def)
  with sign show ?thesis by (rule that [rotated])
qed

lemma tag_reads_back:
  assumes i: "i < 512"
  shows "tag_index (tag_pitch i) = Some i"
proof -
  obtain s where raw: "f32_val (f32_round (f32_div (f32_sub (tag_pitch i) TAG_BASE) TAG_STEP)) = Fin s (int i * unit32)"
    "i = 0 \<or> \<not> s" using i by (rule tag_rounds_back)
  have count: "f32_val (f32_of_nat TAG_COUNT) = Fin False (512 * unit32)" by (simp add: TAG_COUNT_def val_small_nat)
  have "int i * unit32 < 512 * unit32" using i by (intro mult_strict_right_mono) simp_all
  moreover have "\<not> unit32 \<le> 0" "\<not> unit32 < 0" by (simp_all add: unit32_def)
  ultimately show ?thesis
    using raw i
    by (auto simp: tag_index_def Let_def f32_lt_def f32_le_def fv_lt_def fv_le_def count f32_to_nat_def funit_F32
        usize_MAX_def min_def mult_less_0_iff)
qed

lemma tag_index_SomeD:
  assumes some: "tag_index pitch = Some i"
  shows "i < 512" "pitch = tag_pitch i"
proof -
  let ?raw = "f32_round (f32_div (f32_sub pitch TAG_BASE) TAG_STEP)"
  have count: "f32_val (f32_of_nat TAG_COUNT) = Fin False (512 * unit32)" by (simp add: TAG_COUNT_def val_small_nat)
  from some have range: "\<not> f32_lt ?raw 0" "\<not> f32_le (f32_of_nat TAG_COUNT) ?raw" "i = f32_to_nat usize_MAX ?raw"
    "tag_pitch i = pitch" by (auto simp: tag_index_def Let_def split: if_splits)
  have "i < 512"
  proof (cases "f32_val ?raw")
    case NaN
    then show ?thesis using range(3) by (simp add: f32_to_nat_def)
  next
    case (Infty s)
    then show ?thesis using range(1,2,3)
      by (simp add: f32_lt_def f32_le_def fv_lt_def fv_le_def count f32_to_nat_def flimit_def unit32_def split: if_splits)
  next
    case (Fin s k)
    then have "\<not> s \<Longrightarrow> k < 512 * unit32" using range(2) by (auto simp: f32_le_def fv_le_def count)
    then have "\<not> s \<Longrightarrow> k div unit32 < 512" using int_div_less_iff [of unit32 k 512] by simp
    then show ?thesis using Fin range(3) by (auto simp: f32_to_nat_def funit_F32 min_def split: if_splits)
  qed
  with range(4) show "i < 512" "pitch = tag_pitch i" by simp_all
qed

text \<open>
  C17: The tags are a faithful code: \<^verbatim>\<open>tag_index(pitch)\<close> returns \<open>i\<close> exactly when \<open>i\<close> is one of the
  512 indices and the pitch is, bit for bit, \<^verbatim>\<open>tag_pitch(i)\<close>. So every tag reads back, two indices
  never share a pitch, and no other pitch - rounded, NaN or infinite - is taken for a tag.
\<close>

theorem tag_index_iff: "tag_index pitch = Some i \<longleftrightarrow> i < TAG_COUNT \<and> pitch = tag_pitch i"
  using tag_reads_back tag_index_SomeD by (auto simp: TAG_COUNT_def)

end
