(* ===== verification/Measure_Props.thy ===== *)
theory Measure_Props
  imports Measure_Tags
begin

text \<open>The options, the split of the bots over the workers, and the workers' loops.\<close>

section \<open>Options\<close>

lemma div_ceil_Suc: "div_ceil (Suc n) q = div_ceil n q + (if n mod q = 0 then 1 else 0)" if "0 < q"
  using that by (auto simp: div_ceil_def div_Suc mod_Suc)

lemma multiples_below: "0 < q \<Longrightarrow> length (filter (\<lambda>i. i mod q = 0) [0..<n]) = div_ceil n q"
proof (induction n)
  case (Suc n)
  then show ?case by (simp add: div_ceil_Suc)
qed (simp add: div_ceil_def)

lemma div_ceil_bounds:
  assumes "0 < q"
  shows "n \<le> div_ceil n q * q" "div_ceil n q * q < n + q"
proof -
  have n: "n div q * q + n mod q = n" by simp
  have r: "n mod q < q" using assms by simp
  have c: "div_ceil n q * q = n div q * q \<and> n mod q = 0 \<or> div_ceil n q * q = n div q * q + q \<and> 0 < n mod q"
    by (simp add: div_ceil_def)
  then show "n \<le> div_ceil n q * q" using n r by (elim disjE conjE; linarith)
  from c show "div_ceil n q * q < n + q" using n r assms by (elim disjE conjE; linarith)
qed

lemma div_ceil_le_iff: "0 < q \<Longrightarrow> div_ceil n q \<le> k \<longleftrightarrow> n \<le> k * q"
proof -
  assume q: "0 < q"
  show ?thesis
  proof
    assume "div_ceil n q \<le> k"
    then have "div_ceil n q * q \<le> k * q" by simp
    with div_ceil_bounds(1) [OF q, of n] show "n \<le> k * q" by linarith
  next
    assume "n \<le> k * q"
    with div_ceil_bounds(2) [OF q, of n] have "div_ceil n q * q < Suc k * q" by simp
    then show "div_ceil n q \<le> k" using q by (simp only: mult_less_cancel2) simp
  qed
qed

text \<open>How many bots are measured, when every \<open>q\<close>-th of \<open>b\<close> is and \<open>n\<close> were asked for.\<close>

lemma stride_count:
  assumes "0 < n" "n \<le> b"
  shows "n \<le> div_ceil b (b div n)" "div_ceil b (b div n) < 2 * n"
proof -
  let ?q = "b div n"
  have q: "0 < ?q" using assms by (simp add: div_greater_zero_iff)
  have "n * ?q \<le> b" by simp
  then have "n * ?q \<le> div_ceil b ?q * ?q" using div_ceil_bounds(1) [OF q, of b] by linarith
  then show "n \<le> div_ceil b ?q" using q by simp
  have "b < n * (?q + 1)" using assms(1) dividend_less_div_times [of n b] by (simp add: algebra_simps)
  also have "n * (?q + 1) \<le> (2 * n) * ?q" using q by simp
  finally have "b < (2 * n) * ?q" .
  then have "b \<le> (2 * n - 1) * ?q \<or> (2 * n - 1) * ?q < b" by linarith
  have "n * ?q + n \<le> (2 * n - 1) * ?q + 1"
  proof -
    have "n + n * ?q \<le> Suc (n * ?q + (n - 1) * ?q)" using q assms(1) by (cases n) simp_all
    then show ?thesis using assms(1) by (cases n) (simp_all add: algebra_simps)
  qed
  moreover have "b < n * ?q + n" using \<open>b < n * (?q + 1)\<close> by simp
  ultimately have "b \<le> (2 * n - 1) * ?q" by linarith
  then have "div_ceil b ?q \<le> 2 * n - 1" by (simp only: div_ceil_le_iff [OF q])
  then show "div_ceil b ?q < 2 * n" using assms(1) by linarith
qed

lemma interval_of_hz:
  obtains n where "from_secs_f32 (f32_div f32_one (f32_max hz f32_one)) = Some n" "n \<le> from_secs 1"
proof -
  let ?h = "f32_max hz f32_one"
  have "(\<exists>k. f32_val ?h = Fin False k \<and> unit32 \<le> k) \<or> f32_val ?h = Infty False"
  proof (cases "f32_is_nan hz \<or> f32_lt hz f32_one")
    case True
    then have "?h = f32_one" by (auto simp: f32_max_def f32_is_nan_def val_one)
    then show ?thesis by (simp add: val_one)
  next
    case False
    then have h: "?h = hz" by (simp add: f32_max_def f32_is_nan_def val_one)
    have key: "f32_val hz \<noteq> NaN" "unit32 \<le> fv_key F32 (f32_val hz)"
      using False by (auto simp: f32_lt_def fv_lt_def f32_is_nan_def val_one)
    show ?thesis
    proof (cases "f32_val hz")
      case (Fin s k)
      then have "0 \<le> k" using f32_val_ok [of hz] by (auto dest: pdig_nonneg)
      with Fin key(2) h show ?thesis by (auto simp: unit32_def split: if_splits)
    next
      case (Infty s)
      then show ?thesis using key(2) h by (cases s) (simp_all add: unit32_def flimit_def)
    qed (use key(1) in simp)
  qed
  then have "\<exists>k. f32_val (f32_div f32_one ?h) = Fin False k \<and> 0 \<le> k \<and> k \<le> unit32"
  proof
    assume "f32_val ?h = Infty False"
    then show ?thesis by (simp add: f32_val_div val_one)
  next
    assume "\<exists>k. f32_val ?h = Fin False k \<and> unit32 \<le> k"
    then obtain k where k: "f32_val ?h = Fin False k" "unit32 \<le> k" by blast
    have pos: "0 < k" using k(2) unit32_facts(1) by linarith
    let ?r = "round_units 24 (unit32 * unit32) k"
    have r: "?r \<le> unit32" using pos k(2) by (intro round_units_le) simp_all
    moreover have "0 \<le> ?r" using pos by (intro round_units_nonneg) simp_all
    moreover have "?r < flimit F32" using r unit32_facts(7) by (rule le_less_trans)
    ultimately show ?thesis
      using k pos by (simp add: f32_val_div val_one fv_round_def funit_F32 fv_mk_small)
  qed
  then obtain k where "f32_val (f32_div f32_one ?h) = Fin False k" "0 \<le> k" "k \<le> funit F32"
    by (auto simp: funit_F32)
  then show ?thesis using duration_fraction [of k F32] that by (auto simp: from_secs_f32_def from_secs_def)
qed

lemma clamp_nat_bounds: "lo \<le> hi \<Longrightarrow> lo \<le> clamp_nat n lo hi" "lo \<le> hi \<Longrightarrow> clamp_nat n lo hi \<le> hi"
  by (simp_all add: clamp_nat_def)

lemma case_option_SomeE:
  assumes "(case x of None \<Rightarrow> None | Some a \<Rightarrow> f a) = Some y"
  obtains a where "x = Some a" "f a = Some y"
  using assms by (cases x) auto

lemma from_cli_parts:
  assumes "from_cli args = Some options"
  obtains bots threads hz where "op_bots options = max bots 1" "op_threads options = clamp_nat threads 1 (max bots 1)"
    "op_measure_stride options =
       max (max bots 1 div max (min (unwrap_or (parsed_flag (parse_uint 64) args ''--measure-bots'') 100) (max bots 1)) 1) 1"
    "from_secs_f32 (f32_div f32_one (f32_max hz f32_one)) = Some (op_input_interval options)"
  using assms unfolding from_cli_def Let_def DEFAULT_MEASURED_BOTS_def
  apply (elim case_option_SomeE)
  apply (drule option.inject [THEN iffD1, THEN sym])
  apply (rule that [of "unwrap_or (parsed_flag (parse_uint 64) args ''--bots'') DEFAULT_BOTS" _
        "unwrap_or (parsed_flag parse_f32 args ''--input-hz'') (f32_of_nat (unat TICK_RATE))"])
     apply (simp only: options.simps; rule refl)+
  done

text \<open>
  C37: Whatever the command line says, the options that come out are usable: at least one bot, at
  least one worker and no more workers than bots, inputs at least once a second, and when \<open>n\<close>
  measured bots are asked for (cut down to the number of bots) at least \<open>n\<close> and fewer than \<open>2 n\<close>
  are measured. Only a bad \<^verbatim>\<open>--seconds\<close> or \<^verbatim>\<open>--warmup\<close> stops the program.
\<close>

theorem options_are_usable:
  assumes "from_cli args = Some options"
    and "n = max (min (unwrap_or (parsed_flag (parse_uint 64) args ''--measure-bots'') 100) (op_bots options)) 1"
  shows "1 \<le> op_threads options \<and> op_threads options \<le> op_bots options \<and> op_input_interval options \<le> from_secs 1
    \<and> n \<le> length (filter (\<lambda>index. index mod op_measure_stride options = 0) [0 ..< op_bots options])
    \<and> length (filter (\<lambda>index. index mod op_measure_stride options = 0) [0 ..< op_bots options]) < 2 * n"
proof -
  obtain bots threads hz where bots: "op_bots options = max bots 1"
    and threads: "op_threads options = clamp_nat threads 1 (max bots 1)"
    and stride: "op_measure_stride options = max (max bots 1 div n) 1"
    and interval: "from_secs_f32 (f32_div f32_one (f32_max hz f32_one)) = Some (op_input_interval options)"
  proof (rule from_cli_parts [OF assms(1)])
    fix bots threads hz
    assume b: "op_bots options = max bots 1" and t: "op_threads options = clamp_nat threads 1 (max bots 1)"
      and stride: "op_measure_stride options = max (max bots 1 div max (min (unwrap_or (parsed_flag (parse_uint 64) args ''--measure-bots'') 100) (max bots 1)) 1) 1"
      and i: "from_secs_f32 (f32_div f32_one (f32_max hz f32_one)) = Some (op_input_interval options)"
    have "op_measure_stride options = max (max bots 1 div n) 1" unfolding assms(2) b by (rule stride)
    then show thesis by (rule that [OF b t _ i])
  qed
  obtain m where "from_secs_f32 (f32_div f32_one (f32_max hz f32_one)) = Some m" "m \<le> from_secs 1"
    by (rule interval_of_hz)
  then have "op_input_interval options \<le> from_secs 1" using interval by (simp only: option.inject)
  moreover have n: "0 < n" "n \<le> max bots 1"
    unfolding assms(2) bots
    by (rule less_le_trans [OF _ max.cobounded2], simp) (rule max.boundedI [OF min.cobounded2 max.cobounded2])
  moreover have "op_measure_stride options = max bots 1 div n"
  proof -
    have "0 < max bots 1 div n" using n by (simp only: div_greater_zero_iff)
    then have "1 \<le> max bots 1 div n" by linarith
    then show ?thesis unfolding stride by (rule max_absorb1)
  qed
  moreover have "1 \<le> op_threads options" "op_threads options \<le> max bots 1"
    unfolding threads by (rule clamp_nat_bounds, simp)+
  ultimately show ?thesis
    using stride_count [OF n] n by (simp add: bots multiples_below div_greater_zero_iff)
qed

lemma from_cli_run:
  assumes "from_cli args = Some options"
  shows "0 < op_threads options" "0 < op_bots options" "op_bots options < 2 ^ 64"
proof -
  obtain bots threads hz where parts: "op_bots options = max bots 1" "op_threads options = clamp_nat threads 1 (max bots 1)"
    by (rule from_cli_parts [OF assms])
  then show "0 < op_threads options" "0 < op_bots options"
    using clamp_nat_bounds(1) [of 1 "max bots 1" threads] by simp_all
  have "unwrap_or (parsed_flag (parse_uint 64) args name) DEFAULT_BOTS < 2 ^ 64" for name
    by (auto simp: unwrap_or_def parsed_flag_def parse_uint_def DEFAULT_BOTS_def Let_def bind_eq_Some_conv split: option.split if_splits)
  moreover have "op_bots options = max (unwrap_or (parsed_flag (parse_uint 64) args ''--bots'') DEFAULT_BOTS) 1"
    using assms unfolding from_cli_def Let_def
    apply (elim case_option_SomeE)
    apply (drule option.inject [THEN iffD1, THEN sym])
    apply (simp only: options.simps)
    done
  ultimately show "op_bots options < 2 ^ 64" by simp
qed

lemma default_durations: "from_secs_f32 DEFAULT_SECONDS = Some 20000000000" "from_secs_f32 DEFAULT_WARMUP = Some 5000000000"
  by (simp_all add: from_secs_f32_def DEFAULT_SECONDS_def DEFAULT_WARMUP_def f32_val_lit fv_round_def fv_mk_def
      round_units_def funit_def flimit_def rne_def Let_def)

lemma default_options:
  obtains options where "from_cli [''bench''] = Some options"
proof -
  have none: "flag [''bench''] name = None" for name by (simp add: flag_def)
  obtain m where "from_secs_f32 (f32_div f32_one (f32_max (f32_of_nat (unat TICK_RATE)) f32_one)) = Some m"
    by (rule interval_of_hz)
  then show thesis
    using that by (simp add: from_cli_def parsed_flag_def none unwrap_or_def default_durations Let_def)
qed

theorem options_are_usable_witness:
  "\<exists>options. from_cli [''bench''] = Some options \<and> op_threads options \<le> op_bots options"
proof -
  obtain options where "from_cli [''bench''] = Some options" by (rule default_options)
  with options_are_usable [OF this refl] show ?thesis by blast
qed

section \<open>The split over the workers\<close>

lemma div_ceil_add: "0 < q \<Longrightarrow> div_ceil (n + q) q = Suc (div_ceil n q)"
  by (simp add: div_ceil_def)

lemma map_enumerate_snd: "map (\<lambda>(n, first, count). count) (List.enumerate m xs) = map snd xs"
  by (induction xs arbitrary: m) auto

definition shard_bots :: "(nat \<times> nat) list \<Rightarrow> nat list" where
  "shard_bots shards = concat (map (\<lambda>(first, count). [first ..< first + count]) shards)"

lemma shards_from_some:
  assumes "0 < per_thread"
  shows "\<exists>shards. shards_from bots per_thread assigned = Some shards \<and> shard_bots shards = [assigned ..< bots] \<and>
    (\<forall>(first, count) \<in> set shards. 0 < count \<and> count \<le> per_thread) \<and>
    length shards = div_ceil (bots - assigned) per_thread"
proof (induction "bots - assigned" arbitrary: assigned rule: less_induct)
  case less
  show ?case
  proof (cases "assigned < bots")
    case False
    then show ?thesis by (simp add: shards_from.simps [of bots per_thread assigned] shard_bots_def div_ceil_def)
  next
    case True
    let ?count = "min per_thread (bots - assigned)"
    have count: "0 < ?count" "?count \<le> bots - assigned" using True assms by simp_all
    then have "bots - (assigned + ?count) < bots - assigned" using True by linarith
    from less [OF this] obtain shards where shards: "shards_from bots per_thread (assigned + ?count) = Some shards"
      "shard_bots shards = [assigned + ?count ..< bots]" "\<forall>(first, count) \<in> set shards. 0 < count \<and> count \<le> per_thread"
      "length shards = div_ceil (bots - (assigned + ?count)) per_thread" by blast
    have "shards_from bots per_thread assigned = Some ((assigned, ?count) # shards)"
      using True shards(1) by (simp add: shards_from.simps [of bots per_thread assigned] Let_def)
    moreover have "[assigned ..< bots] = [assigned ..< assigned + ?count] @ [assigned + ?count ..< bots]"
      using count(2) upt_add_eq_append [of assigned "assigned + ?count" "bots - (assigned + ?count)"] True by simp
    then have "shard_bots ((assigned, ?count) # shards) = [assigned ..< bots]"
      using shards(2) by (simp add: shard_bots_def)
    moreover have "div_ceil (bots - assigned) per_thread = Suc (div_ceil (bots - (assigned + ?count)) per_thread)"
    proof (cases "per_thread \<le> bots - assigned")
      case True
      then have "bots - assigned = (bots - (assigned + ?count)) + per_thread" by simp
      then show ?thesis using div_ceil_add [OF assms, of "bots - (assigned + ?count)"] by (simp only:)
    next
      case False
      then show ?thesis using \<open>assigned < bots\<close> by (simp add: div_ceil_def)
    qed
    ultimately show ?thesis using shards(3,4) count by (intro exI [of _ "(assigned, ?count) # shards"]) auto
  qed
qed

text \<open>
  C38: The loop that hands the bots to the workers ends, and hands out every bot from 0 to
  \<^verbatim>\<open>bots - 1\<close> exactly once, in order; no worker gets none, or more than \<^verbatim>\<open>bots.div_ceil(threads)\<close>,
  and there are at most as many workers as threads were asked for.
\<close>

theorem workers_share_all_bots:
  assumes "0 < threads" "0 < bots"
  shows "\<exists>shards. shards_from bots (div_ceil bots threads) 0 = Some shards \<and>
    concat (map (\<lambda>(first, count). [first ..< first + count]) shards) = [0 ..< bots] \<and>
    (\<forall>(first, count) \<in> set shards. 0 < count \<and> count \<le> div_ceil bots threads) \<and> length shards \<le> threads"
proof -
  have per: "0 < div_ceil bots threads"
    using div_ceil_bounds(1) [OF assms(1), of bots] assms(2) by (cases "div_ceil bots threads") simp_all
  have "bots \<le> threads * div_ceil bots threads"
    using div_ceil_bounds(1) [OF assms(1), of bots] by (simp add: mult.commute)
  then have "div_ceil bots (div_ceil bots threads) \<le> threads" by (simp only: div_ceil_le_iff [OF per])
  then show ?thesis using shards_from_some [OF per, of bots 0] by (auto simp: shard_bots_def)
qed

theorem workers_share_all_bots_witness:
  "\<exists>shards. shards_from 150 (div_ceil 150 4) 0 = Some shards \<and> length shards \<le> 4"
  using workers_share_all_bots [of 4 150] by auto

section \<open>A run ends and accounts for every bot\<close>

text \<open>
  What a run needs of its bots: no operation turns the clock back, a sleep moves it on by at least
  its length, and a connected bot, of the first \<open>n\<close>, is and stays one that does not panic.
\<close>

definition load_ok :: "nat \<Rightarrow> ('e, 'b) load \<Rightarrow> ('e \<Rightarrow> instant) \<Rightarrow> ('b \<Rightarrow> bool) \<Rightarrow> bool" where
  "load_ok n load clock ok \<longleftrightarrow>
     (\<forall>e. clock e \<le> fst (ld_now load e) \<and> fst (ld_now load e) \<le> clock (snd (ld_now load e))) \<and>
     (\<forall>now w interval b e. ok b \<longrightarrow>
        (\<exists>b' e'. ld_pump load now w interval b e = Some (b', e') \<and> ok b' \<and> clock e \<le> clock e')) \<and>
     (\<forall>index measured now e b e'. index < n \<longrightarrow> ld_connect load index measured now e = (Inr b, e') \<longrightarrow> ok b) \<and>
     (\<forall>d e. clock e + d \<le> clock (ld_sleep load d e))"

lemma pump_all_returns:
  assumes load: "load_ok n load clock ok"
  shows "list_all ok bots \<Longrightarrow> \<exists>bots' e'. pump_all load w interval bots e = Some (bots', e') \<and> list_all ok bots' \<and>
    length bots' = length bots \<and> clock e \<le> clock e'"
proof (induction bots arbitrary: e)
  case (Cons b bots)
  obtain now e1 where now: "ld_now load e = (now, e1)" by (cases "ld_now load e")
  obtain b' e2 where pump: "ld_pump load now w interval b e1 = Some (b', e2)" "ok b'" "clock e1 \<le> clock e2"
    using load Cons.prems unfolding load_ok_def list.pred_inject by blast
  have "clock e \<le> clock e1"
    using load now unfolding load_ok_def by (metis fst_conv snd_conv le_trans)
  moreover obtain bots' e3 where "pump_all load w interval bots e2 = Some (bots', e3)" "list_all ok bots'"
    "length bots' = length bots" "clock e2 \<le> clock e3"
    using Cons.IH [of e2] Cons.prems by auto
  ultimately show ?case using pump by (simp add: now)
qed simp

lemma measure_loop_returns:
  assumes load: "load_ok n load clock ok"
  shows "list_all ok bots \<Longrightarrow> \<exists>result. measure_loop load options w bots e = Some result \<and> length (fst result) = length bots"
proof (induction "wn_measure_end w - clock e" arbitrary: bots e rule: less_induct)
  case less
  obtain now e1 where now: "ld_now load e = (now, e1)" by (cases "ld_now load e")
  have e1: "clock e \<le> now" "now \<le> clock e1"
    using load now unfolding load_ok_def by (metis fst_conv, metis fst_conv snd_conv)
  show ?case
  proof (cases "now < wn_measure_end w")
    case False
    then show ?thesis by (simp add: measure_loop.simps [of load options w bots e] now)
  next
    case True
    obtain bots1 e2 where pump: "pump_all load w (op_input_interval options) bots e1 = Some (bots1, e2)" "list_all ok bots1"
      "length bots1 = length bots" "clock e1 \<le> clock e2"
      using pump_all_returns [OF load less.prems, of w "op_input_interval options" e1] by blast
    let ?e3 = "ld_sleep load MEASURE_IDLE_SLEEP e2"
    have "clock e2 + MEASURE_IDLE_SLEEP \<le> clock ?e3" using load by (simp add: load_ok_def)
    then have "clock e < clock ?e3" using e1 pump(4) by (simp add: MEASURE_IDLE_SLEEP_def from_micros_def)
    then have "wn_measure_end w - clock ?e3 < wn_measure_end w - clock e" using e1(1) True by linarith
    from less.hyps [OF this pump(2)] show ?thesis
      using True pump by (simp add: measure_loop.simps [of load options w bots e] now)
  qed
qed

lemma connect_slots_returns:
  assumes load: "load_ok n load clock ok"
  shows "list_all ok bots \<Longrightarrow> list_all (\<lambda>i. i < n) indices \<Longrightarrow> \<exists>bots' refused' e'. connect_slots load options w indices bots refused e = Some (bots', refused', e') \<and>
    list_all ok bots' \<and> length bots' + length refused' = length indices + length bots + length refused"
proof (induction indices arbitrary: bots refused e)
  case (Cons index indices)
  obtain now e1 where now: "ld_now load e = (now, e1)" by (cases "ld_now load e")
  obtain outcome e2 where connect: "ld_connect load index (index mod op_measure_stride options = 0) now e1 = (outcome, e2)"
    by (cases "ld_connect load index (index mod op_measure_stride options = 0) now e1")
  define joined where "joined = (case outcome of Inr b \<Rightarrow> (bots @ [b], refused) | Inl error \<Rightarrow> (bots, refused @ [refused_stats error]))"
  obtain bots1 refused1 where j: "joined = (bots1, refused1)" by (cases joined)
  have "ok b" if "outcome = Inr b" for b
    using load connect that Cons.prems(2) unfolding load_ok_def list.pred_inject by blast
  then have ok: "list_all ok bots1"
    using j Cons.prems by (cases outcome) (auto simp: joined_def)
  have len: "length bots1 + length refused1 = Suc (length bots + length refused)"
    using j by (auto simp: joined_def split: sum.splits)
  obtain bots2 e3 where pump: "pump_all load w (op_input_interval options) bots1 e2 = Some (bots2, e3)" "list_all ok bots2"
    "length bots2 = length bots1"
    using pump_all_returns [OF load ok, of w "op_input_interval options" e2] by blast
  obtain bots' refused' e' where "connect_slots load options w indices bots2 refused1 (ld_sleep load CONNECT_GAP e3) =
      Some (bots', refused', e')" "list_all ok bots'" "length bots' + length refused' = length indices + length bots2 + length refused1"
    using Cons.IH [OF pump(2), of refused1 "ld_sleep load CONNECT_GAP e3"] Cons.prems(2) by auto
  then show ?case
    using pump len by (simp add: now connect Let_def j flip: joined_def)
qed simp

lemma run_shard_returns:
  assumes "load_ok n load clock ok" "set [first ..< first + count] \<subseteq> {0 ..< n}"
  shows "\<exists>collected. run_shard load options w first count e = Some collected \<and> length collected = count"
proof -
  obtain bots refused e1 where connect: "connect_slots load options w [first ..< first + count] [] [] e = Some (bots, refused, e1)"
    "list_all ok bots" "length bots + length refused = count"
    using connect_slots_returns [OF assms(1), of "[]" "[first ..< first + count]" options w "[]" e] assms(2)
    by (fastforce simp: list_all_iff)
  moreover obtain result where "measure_loop load options w bots e1 = Some result" "length (fst result) = length bots"
    using measure_loop_returns [OF assms(1) connect(2)] by blast
  ultimately show ?thesis by (auto simp: run_shard_def split: prod.split)
qed

lemma those_shards:
  assumes "\<And>x. x \<in> set xs \<Longrightarrow> \<exists>ys. f x = Some ys \<and> length ys = g x"
  shows "\<exists>yss. those (map f xs) = Some yss \<and> length (concat yss) = sum_list (map g xs)"
  using assms
proof (induction xs)
  case (Cons x xs)
  obtain ys where "f x = Some ys" "length ys = g x" using Cons.prems [of x] by auto
  moreover obtain yss where "those (map f xs) = Some yss" "length (concat yss) = sum_list (map g xs)"
    using Cons.IH Cons.prems by auto
  ultimately show ?case by simp
qed simp

text \<open>
  A run ends and accounts for every bot: every worker returns, and the run has exactly one record per
  requested bot, those that could not connect included.
\<close>

lemma run_returns:
  assumes "load_ok (op_bots options) load clock ok" "0 < op_threads options" "0 < op_bots options"
  shows "\<exists>result. run load options start worker samples = Some result \<and> length (rn_stats result) = op_bots options"
proof -
  have per: "0 < div_ceil (op_bots options) (op_threads options)"
    using div_ceil_bounds(1) [OF assms(2), of "op_bots options"] assms(3)
    by (cases "div_ceil (op_bots options) (op_threads options)") simp_all
  obtain shards where shards: "shards_from (op_bots options) (div_ceil (op_bots options) (op_threads options)) 0 = Some shards"
    "shard_bots shards = [0 ..< op_bots options]"
    using shards_from_some [OF per, of "op_bots options" 0] by auto
  let ?f = "\<lambda>(n, first, count). run_shard load options (run_window options start) first count (worker n)"
  have "\<exists>yss. those (map ?f (List.enumerate 0 shards)) = Some yss \<and>
      length (concat yss) = sum_list (map (\<lambda>(n, first, count). count) (List.enumerate 0 shards))"
  proof (rule those_shards)
    fix x assume x: "x \<in> set (List.enumerate 0 shards)"
    obtain m first count where split: "x = (m, first, count)" by (cases x)
    from x have "(first, count) \<in> set shards" by (auto simp: split in_set_enumerate_eq) (metis nth_mem)
    then have "set [first ..< first + count] \<subseteq> set (shard_bots shards)" by (force simp: shard_bots_def)
    then show "\<exists>ys. ?f x = Some ys \<and> length ys = (\<lambda>(n, first, count). count) x"
      using run_shard_returns [OF assms(1), of first count] shards(2) by (simp add: split)
  qed
  moreover have "length (shard_bots shards) = sum_list (map snd shards)"
    by (simp add: shard_bots_def length_concat comp_def case_prod_unfold)
  ultimately show ?thesis using shards unfolding map_enumerate_snd by (auto simp: run_def Let_def)
qed

end
