(* ===== verification/Report_Props.thy ===== *)
theory Report_Props
  imports Measure_Report Measure_Props "HOL-Library.Multiset"
begin

text \<open>The properties of the samples, the percentiles and the figures.\<close>

section \<open>Percentiles\<close>

definition unit64 :: int where
  "unit64 = 2 ^ 1074"

lemma funit_F64: "funit F64 = unit64"
  by (simp add: funit_def unit64_def)

lemma unit64_pos [simp]: "0 < unit64" "unit64 \<noteq> 0" "0 \<le> unit64"
  by (simp_all add: unit64_def)

lemma flimit_F64: "flimit F64 = 2 ^ 1024 * unit64"
  by (simp add: flimit_def unit64_def flip: power_add)

lemma val64_nat: "n \<le> 2 ^ 53 \<Longrightarrow> f64_val (f64_of_nat n) = Fin False (int n * unit64)"
proof -
  assume n: "n \<le> 2 ^ 53"
  then have i: "int n \<le> 2 ^ 53" by (metis of_nat_le_iff of_nat_numeral of_nat_power)
  have "pdig 53 (int n * 2 ^ 1074)" using i by (intro pdig_mult_power) simp_all
  then have "round_units 53 (int n * unit64) 1 = int n * unit64"
    unfolding unit64_def by (rule round_units_exact1)
  moreover have "int n * unit64 < 2 ^ 1024 * unit64" using i by (intro mult_strict_right_mono) simp_all
  ultimately show ?thesis
    by (simp add: f64_val_of_nat fv_of_nat_def fv_round_def funit_F64 flimit_F64 fv_mk_def)
qed

definition ceil_units :: "int \<Rightarrow> int" where
  "ceil_units v = - ((- v) div unit64) * unit64"

lemma ceil_units_mono: "v \<le> w \<Longrightarrow> ceil_units v \<le> ceil_units w"
  unfolding ceil_units_def by (intro mult_right_mono) (simp_all add: zdiv_mono1)

lemma fv_ceil_ok:
  assumes ok: "fv_ok F64 x"
  shows "fv_ok F64 (fv_ceil F64 x)"
proof (cases x)
  case (Fin s k)
  let ?c = "if s then k div unit64 else - ((- k) div unit64)"
  have k: "pdig 53 k" "0 \<le> k" "k < 2 ^ 1024 * unit64" using ok by (auto simp: Fin flimit_F64 dest: pdig_nonneg)
  have "pdig 53 (?c * unit64) \<and> ?c * unit64 < 2 ^ 1024 * unit64"
  proof (cases "2 ^ (53 - 1) * 2 ^ 1074 \<le> k")
    case True
    then have "2 ^ 1074 dvd k" by (rule pdig_dvd [OF k(1), rotated]) simp
    then obtain q where "k = unit64 * q" by (auto simp: unit64_def)
    then have "?c * unit64 = k" by (simp add: mult.commute [of unit64] flip: mult_minus_left)
    with k show ?thesis by simp
  next
    case False
    then have small: "k < 2 ^ 52 * unit64" by (simp add: unit64_def)
    have c: "0 \<le> ?c \<and> ?c \<le> 2 ^ 52"
    proof (cases s)
      case True
      have "k div unit64 < 2 ^ 52" using small by (simp only: int_div_less_iff [OF unit64_pos(1)])
      moreover have "0 \<le> k div unit64" using k(2) by (simp add: pos_imp_zdiv_nonneg_iff)
      ultimately show ?thesis using True by simp
    next
      case False
      have "(- k) div unit64 < 1"
        using k(2) unit64_pos(1) by (simp only: int_div_less_iff [OF unit64_pos(1)])
      moreover have "- (2 ^ 52) \<le> (- k) div unit64"
        using small by (simp only: int_le_div_iff [OF unit64_pos(1)])
      ultimately show ?thesis using False by simp
    qed
    then have "pdig 53 (?c * 2 ^ 1074)" by (intro pdig_mult_power) simp_all
    moreover have "?c * unit64 \<le> 2 ^ 52 * unit64" using c by (intro mult_right_mono) simp_all
    then have "?c * unit64 < 2 ^ 1024 * unit64" by (rule le_less_trans) (intro mult_strict_right_mono, simp_all)
    ultimately show ?thesis by (simp add: unit64_def)
  qed
  then show ?thesis
    by (cases s; simp only: Fin fv_ceil.simps fv_ok.simps funit_F64 flimit_F64 F64_simps if_True if_False)
qed simp_all

lemma ceil_key: "fv_ok F64 x \<Longrightarrow> x \<noteq> NaN \<Longrightarrow> fv_key F64 (fv_ceil F64 x) = ceil_units (fv_key F64 x)"
proof (cases x)
  case (Infty s)
  then show ?thesis by (simp add: ceil_units_def flimit_F64)
qed (simp_all add: ceil_units_def funit_F64)

lemma to_nat_key: "x \<noteq> NaN \<Longrightarrow> fv_ok F64 x \<Longrightarrow> fv_to_nat F64 usize_MAX x = min usize_MAX (nat (fv_key F64 x div unit64))"
proof (cases x)
  case (Fin s k)
  assume "fv_ok F64 x"
  then have k: "0 \<le> k" by (auto simp: Fin dest: pdig_nonneg)
  have "- k < 1 * unit64" using k unit64_pos(1) by linarith
  then have "(- k) div unit64 < 1" by (simp only: int_div_less_iff [OF unit64_pos(1)])
  then have "nat ((- k) div unit64) = 0" by simp
  then show ?thesis by (simp add: Fin funit_F64)
next
  case (Infty s)
  have "nat (2 ^ 1024) \<ge> usize_MAX" by (simp add: usize_MAX_def)
  then show ?thesis by (simp add: Infty flimit_F64 min_absorb1 flip: mult_minus_left)
qed simp

definition rank_units :: "int \<Rightarrow> nat \<Rightarrow> nat" where
  "rank_units q n = min usize_MAX (nat (ceil_units (rnd_key F64 (q * (int n * unit64)) unit64) div unit64))"

lemma rank_eval:
  assumes q: "is_fin (f64_val q)" and n: "n \<le> 2 ^ 53"
  shows "f64_to_nat usize_MAX (f64_ceil (f64_mul q (f64_of_nat n))) = rank_units (units (f64_val q)) n"
proof -
  let ?x = "fv_mul F64 (f64_val q) (f64_val (f64_of_nat n))"
  have ok: "fv_ok F64 ?x" by (simp add: fv_mul_ok)
  have fin: "is_fin (f64_val (f64_of_nat n))" by (simp add: val64_nat [OF n])
  have nan: "?x \<noteq> NaN" using q fin by (rule fv_mul_not_NaN)
  have key: "fv_key F64 ?x = rnd_key F64 (units (f64_val q) * (int n * unit64)) unit64"
    using fv_mul_key [OF q fin f64_val_ok f64_val_ok] by (simp add: val64_nat [OF n] funit_F64)
  have cnan: "fv_ceil F64 ?x \<noteq> NaN" using nan by (cases ?x) simp_all
  have "f64_val (f64_ceil (f64_mul q (f64_of_nat n))) = fv_ceil F64 ?x"
    by (simp add: f64_ceil_def f64_val_mul fv_ceil_ok [OF ok])
  then show ?thesis
    unfolding f64_to_nat_def
    using to_nat_key [OF cnan fv_ceil_ok [OF ok]] ceil_key [OF ok nan] by (simp add: key rank_units_def)
qed

lemma rank_units_mono: "q \<le> r \<Longrightarrow> rank_units q n \<le> rank_units r n"
proof -
  assume "q \<le> r"
  then have "q * (int n * unit64) * unit64 \<le> r * (int n * unit64) * unit64"
    by (intro mult_right_mono) (simp_all add: unit64_def)
  then have "rnd_key F64 (q * (int n * unit64)) unit64 \<le> rnd_key F64 (r * (int n * unit64)) unit64"
    by (intro rnd_key_mono) simp_all
  then have "ceil_units (rnd_key F64 (q * (int n * unit64)) unit64) div unit64
      \<le> ceil_units (rnd_key F64 (r * (int n * unit64)) unit64) div unit64"
    by (intro zdiv_mono1 ceil_units_mono) simp_all
  then show ?thesis by (simp add: rank_units_def min_le_iff_disj nat_mono)
qed

lemma quantile_vals:
  "f64_val p50 = Fin False (2 ^ 1073)" "f64_val p100 = Fin False unit64" "f64_val 0 = Fin False 0"
proof -
  have "round_units 53 (2 ^ 1073 * 100) 100 = 2 ^ 1073" by (rule round_units_exact [OF _ pdig_power]) simp_all
  then have half: "round_units 53 (50 * unit64) 100 = 2 ^ 1073" by (simp add: unit64_def)
  have "2 ^ 1073 < flimit F64" by (simp add: flimit_def)
  with half show "f64_val p50 = Fin False (2 ^ 1073)"
    by (simp add: p50_def f64_val_lit fv_round_def funit_F64 fv_mk_def)
  have one: "round_units 53 unit64 1 = unit64" unfolding unit64_def by (rule round_units_exact1 [OF pdig_power]) simp
  have "unit64 < flimit F64" by (simp add: flimit_def unit64_def)
  with one show "f64_val p100 = Fin False unit64"
    by (simp add: p100_def f64_val_lit fv_round_def funit_F64 fv_mk_def)
  show "f64_val 0 = Fin False 0"
    by (simp add: f64_val_def from_bits_def sign_bit_def inf_bits_def bits_mag_def)
qed

lemma rnd_key64_nat: "n \<le> 2 ^ 53 \<Longrightarrow> e \<le> 1074 \<Longrightarrow> rnd_key F64 (int n * 2 ^ e * unit64) unit64 = int n * 2 ^ e"
proof (rule rnd_key_fix)
  assume n: "n \<le> 2 ^ 53" and e: "e \<le> 1074"
  then have i: "int n \<le> 2 ^ 53" by (metis of_nat_le_iff of_nat_numeral of_nat_power)
  have "int n * 2 ^ e \<le> 2 ^ 53 * 2 ^ 1074"
    using i e by (intro mult_mono power_increasing) simp_all
  also have "\<dots> \<le> flimit F64" by (simp add: flimit_def)
  finally show "key_ok F64 (int n * 2 ^ e)" using i by (simp add: key_ok_def pdig_mult_power)
qed simp

lemma rank_half: "n \<le> 2 ^ 53 \<Longrightarrow> rank_units (2 ^ 1073) n = (n + 1) div 2"
proof -
  assume n: "n \<le> 2 ^ 53"
  have "rnd_key F64 (2 ^ 1073 * (int n * unit64)) unit64 = int n * 2 ^ 1073"
    using rnd_key64_nat [OF n, of 1073] by (simp add: ac_simps)
  moreover have "(- (int n * 2 ^ 1073)) div unit64 = (- int n) div 2"
  proof -
    have "(- (int n * 2 ^ 1073)) div (2 * 2 ^ 1073) = (- int n) div 2"
      by (simp only: div_mult_mult2 flip: mult_minus_left) simp
    then show ?thesis by (simp add: unit64_def)
  qed
  then have "ceil_units (int n * 2 ^ 1073) div unit64 = - ((- int n) div 2)"
    by (simp only: ceil_units_def nonzero_mult_div_cancel_right [OF unit64_pos(2)])
  moreover have "- ((- int n) div 2) = int ((n + 1) div 2)" by presburger
  moreover have "(n + 1) div 2 \<le> usize_MAX" using n by (simp add: usize_MAX_def)
  ultimately show ?thesis by (simp only: rank_units_def nat_int min.absorb2)
qed

lemma rank_whole: "n \<le> 2 ^ 53 \<Longrightarrow> rank_units unit64 n = n"
proof -
  assume n: "n \<le> 2 ^ 53"
  have "rnd_key F64 (unit64 * (int n * unit64)) unit64 = int n * unit64"
    using rnd_key64_nat [OF n, of 1074] by (simp add: ac_simps unit64_def)
  moreover have "ceil_units (int n * unit64) div unit64 = int n"
    by (simp add: ceil_units_def flip: mult_minus_left)
  moreover have "n \<le> usize_MAX" using n by (simp add: usize_MAX_def)
  ultimately show ?thesis by (simp only: rank_units_def nat_int min.absorb2)
qed



section \<open>Figures\<close>

lemma mset_sort_key_inj:
  assumes inj: "\<And>x y. f x = f y \<Longrightarrow> x = y" and eq: "mset xs = mset ys"
  shows "sort_key f xs = sort_key f ys"
proof -
  have "map f (sort_key f xs) = sort (map f ys)" if "mset xs = mset ys" for xs ys :: "'a list"
    using that by (intro properties_for_sort [symmetric]) simp_all
  from this [OF eq] this [of ys ys] have "map f (sort_key f xs) = map f (sort_key f ys)" by simp
  then show ?thesis using inj by (simp add: map_injective injI)
qed

lemma mset_concat_map: "mset xs = mset ys \<Longrightarrow> mset (concat (map f xs)) = mset (concat (map f ys))"
proof -
  have "mset (concat (map f xs)) = (\<Sum>x \<in># mset xs. mset (f x))" for xs by (induction xs) simp_all
  then show "mset xs = mset ys \<Longrightarrow> ?thesis" by simp
qed

lemma total_of_mset: "mset xs = mset ys \<Longrightarrow> total_of f xs = total_of f ys"
  by (simp add: total_of_def flip: sum_mset_sum_list)

lemma filter_mset: "mset xs = mset ys \<Longrightarrow> mset (filter P xs) = mset (filter P ys)"
  by simp

lemma count_if_mset: "mset xs = mset ys \<Longrightarrow> count_if P xs = count_if P ys"
  unfolding count_if_def by (metis filter_mset size_mset)

lemma rate_of_mset: "mset xs = mset ys \<Longrightarrow> rate_of seconds P xs = rate_of seconds P ys"
proof -
  assume eq: "mset xs = mset ys"
  let ?P = "\<lambda>stat. st_joined stat \<and> P stat"
  have m: "mset (filter ?P xs) = mset (filter ?P ys)" using eq by simp
  have "length (filter ?P xs) = length (filter ?P ys)" using m by (rule mset_eq_length)
  moreover from this have "filter ?P xs = [] \<longleftrightarrow> filter ?P ys = []" by (metis length_0_conv)
  ultimately show ?thesis using total_of_mset [OF m, of st_snapshots] by (simp only: rate_of_def Let_def)
qed

text \<open>
  The figures of a report do not depend on the order in which the workers hand in their bots:
  two runs with the same records have the same totals, rates, sorted samples and mean - also
  where the sum is in floating point, because the samples are summed sorted.
\<close>

theorem figures_ignore_the_order:
  assumes "mset stats1 = mset stats2"
  shows "figures_of seconds stats1 = figures_of seconds stats2"
proof -
  have "sort (concat (map st_rtt_micros stats1)) = sort (concat (map st_rtt_micros stats2))"
    using mset_concat_map [OF assms] by (intro mset_sort_key_inj) simp_all
  moreover have "sort_key f64_total_key (map g (filter st_joined stats1)) = sort_key f64_total_key (map g (filter st_joined stats2))" for g
    using assms by (intro mset_sort_key_inj) (simp_all add: total_key_inject)
  ultimately show ?thesis
    by (simp add: figures_of_def Let_def snapshots_per_bot_of_def count_if_mset [OF assms] total_of_mset [OF assms]
        rate_of_mset [OF assms])
qed

theorem figures_ignore_the_order_witness:
  "figures_of (f64_lit 20 1) [stats_measured True, refused_stats ''no''] = figures_of (f64_lit 20 1) [refused_stats ''no'', stats_measured True]"
  by (rule figures_ignore_the_order) simp

section \<open>Reading \<^verbatim>\<open>/proc\<close>\<close>

lemma rsplit_once_last: "c \<notin> set after \<Longrightarrow> rsplit_once c (before @ c # after) = Some (before, after)"
proof -
  assume "c \<notin> set after"
  then have "takeWhile (\<lambda>x. x \<noteq> c) (rev after @ c # rev before) = rev after"
    "dropWhile (\<lambda>x. x \<noteq> c) (rev after @ c # rev before) = c # rev before"
    by (simp_all add: takeWhile_append dropWhile_append)
  then show ?thesis by (simp add: rsplit_once_def)
qed

definition solid :: "string \<Rightarrow> bool" where
  "solid word \<longleftrightarrow> word \<noteq> [] \<and> list_all (\<lambda>c. \<not> is_space c) word"

lemma split_words_solid: "list_all (\<lambda>c. \<not> is_space c) v \<Longrightarrow> split_words word (v @ s) = split_words (word @ v) s"
  by (induction v arbitrary: word) simp_all

lemma space_facts: "is_space (CHR '' '')" "is_space (CHR 0x0A)"
  by (simp_all add: is_space_def)

lemma split_join: "list_all solid ws \<Longrightarrow> split_words [] (join_with '' '' ws @ newline) = ws"
proof (induction "'' ''" ws rule: join_with.induct)
  case (2 w)
  then show ?case by (simp add: split_words_solid solid_def newline_def space_facts)
next
  case (3 w v ws)
  then show ?case by (simp add: split_words_solid solid_def space_facts)
qed (simp add: newline_def space_facts)

text \<open>
  A process sample takes the processor time from fields 14 and 15 of \<^verbatim>\<open>/proc/<pid>/stat\<close>, as
  \<^verbatim>\<open>proc(5)\<close> numbers them, whatever the process is called: its name may itself contain blanks and
  parentheses, because the fields are counted from the last one.
\<close>

theorem process_times_are_fields_14_and_15:
  assumes "list_all solid ws" "list_all (\<lambda>word. CHR '')'' \<notin> set word) ws" "13 \<le> length ws"
    and "ws ! (14 - 3) = show_nat utime" "ws ! (15 - 3) = show_nat stime" "utime + stime < 2 ^ 64"
    and "list_all solid ms" "2 \<le> length ms" "ms ! 1 = show_nat resident" "resident * PAGE_SIZE < 2 ^ 64"
  shows "read_process now (Some (pid @ '' ('' @ name @ '') '' @ join_with '' '' ws @ newline))
      (Some (join_with '' '' ms @ newline))
    = Some \<lparr>sm_at = now, sm_cpu_seconds = f64_div (f64_of_nat (utime + stime)) CLOCK_TICKS_PER_SECOND,
        sm_rss_bytes = resident * PAGE_SIZE\<rparr>"
proof -
  have "CHR '')'' \<notin> set (join_with '' '' ws)"
    using assms(2) by (induction "'' ''" ws rule: join_with.induct) simp_all
  then have split: "rsplit_once (CHR '')'') ((pid @ '' ('' @ name) @ CHR '')'' # '' '' @ join_with '' '' ws @ newline)
      = Some (pid @ '' ('' @ name, '' '' @ join_with '' '' ws @ newline)"
    by (intro rsplit_once_last) (simp add: newline_def)
  have stat_words: "split_whitespace ('' '' @ join_with '' '' ws @ newline) = ws"
    using split_join [OF assms(1)] by (simp add: split_whitespace_def space_facts)
  have statm_words: "split_whitespace (join_with '' '' ms @ newline) = ms"
    using split_join [OF assms(7)] by (simp add: split_whitespace_def)
  have "resident < 2 ^ 64" "utime < 2 ^ 64" "stime < 2 ^ 64" using assms(6,10) by (simp_all add: PAGE_SIZE_def)
  then show ?thesis
    using split stat_words statm_words assms(3-6,8-10)
    by (simp add: read_process_def slice_get_def parse_show_nat)
qed

theorem process_times_are_fields_14_and_15_witness:
  "read_process 7 (Some (''42 (a) b) S 1 2 3 4 5 6 7 8 9 10 250 50'' @ newline)) (Some (''900 300'' @ newline)) \<noteq> None"
proof -
  have digits: "show_nat 250 = ''250''" "show_nat 50 = ''50''" "show_nat 300 = ''300''" by code_simp+
  show ?thesis
    using process_times_are_fields_14_and_15 [of "[''S'', ''1'', ''2'', ''3'', ''4'', ''5'', ''6'', ''7'', ''8'', ''9'', ''10'', ''250'', ''50'']"
        250 50 "[''900'', ''300'']" 300 7 "''42''" "''a) b''"]
    by (simp add: digits solid_def is_space_def PAGE_SIZE_def)
qed

end
