(* ===== verification/Bench.thy ===== *)
theory Bench
  imports Client_Net Measure_Report
begin

text \<open>
  \<^verbatim>\<open>server/src/bin/bench.rs\<close>: the bots of the load generator and the codec benchmark. The connection
  of \<^verbatim>\<open>fomoxa_net\<close>, the clock and the sleep are the parameter \<open>net\<close>; \<open>trig\<close> and \<open>atan2\<close> are as in
  \<^theory_text>\<open>Measure\<close>.
\<close>

section \<open>Bots\<close>

record 'c bench_bot =
  bb_connection :: 'c
  bb_display_name :: string
  bb_started :: instant
  bb_phase :: f32
  bb_player_id :: "u32 option"
  bb_hello_pending :: bool
  bb_sequence :: u32
  bb_next_input :: instant
  bb_tag_cursor :: nat
  bb_tag_sent :: "instant option list"
  bb_measured :: bool
  bb_stats :: stats

definition STACK :: string where
  "STACK = ''fomoxa (fomoxa-net + fomoxac codec)''"

definition bench_bot_new :: "nat \<Rightarrow> bool \<Rightarrow> instant \<Rightarrow> 'c \<Rightarrow> 'c bench_bot" where
  "bench_bot_new index measured now connection = \<lparr>bb_connection = connection, bb_display_name = ''bench-'' @ show_nat index,
     bb_started = now, bb_phase = f32_mul (f32_of_nat index) (f32_lit 37 100), bb_player_id = None,
     bb_hello_pending = False, bb_sequence = 0, bb_next_input = now, bb_tag_cursor = 0,
     bb_tag_sent = replicate (if measured then TAG_COUNT else 0) None, bb_measured = measured,
     bb_stats = stats_measured measured\<rparr>"

definition bench_connect ::
    "('c, 'e) client_net \<Rightarrow> string \<Rightarrow> nat \<Rightarrow> bool \<Rightarrow> instant \<Rightarrow> 'e \<Rightarrow> (string + 'c bench_bot) \<times> 'e" where
  "bench_connect net address index measured now e =
    (case cn_connect net address e of
       (Inl error, e) \<Rightarrow> (Inl error, e)
     | (Inr connection, e) \<Rightarrow> (Inr (bench_bot_new index measured now connection), e))"

definition on_stats :: "(stats \<Rightarrow> stats) \<Rightarrow> 'c bench_bot \<Rightarrow> 'c bench_bot" where
  "on_stats f b = b\<lparr>bb_stats := f (bb_stats b)\<rparr>"

text \<open>
  One event of \<^verbatim>\<open>connection.tick_now()\<close>. \<open>None\<close> is the panic of \<^verbatim>\<open>tag_sent[index]\<close> outside the vector.
\<close>

definition take_sample :: "window \<Rightarrow> instant \<Rightarrow> WorldSnapshot \<Rightarrow> 'c bench_bot \<Rightarrow> 'c bench_bot option" where
  "take_sample window now snap b =
    (case bb_player_id b of None \<Rightarrow> Some b
     | Some player_id \<Rightarrow>
       (case find (\<lambda>state. ps_player_id state = player_id) (ws_players snap) of None \<Rightarrow> Some b
        | Some state \<Rightarrow>
          (case tag_index (ps_look_pitch state) of None \<Rightarrow> Some b
           | Some index \<Rightarrow>
             (case slice_get (bb_tag_sent b) index of None \<Rightarrow> None
              | Some None \<Rightarrow> Some b
              | Some (Some sent) \<Rightarrow>
                  let b = b\<lparr>bb_tag_sent := (bb_tag_sent b)[index := None]\<rparr>
                  in Some (if measuring window now \<and> wn_measure_start window \<le> sent
                     then on_stats (\<lambda>st. st\<lparr>st_rtt_micros := st_rtt_micros st @ [of_nat (as_micros (since now sent))]\<rparr>) b
                     else b)))))"

definition bench_event :: "window \<Rightarrow> instant \<Rightarrow> event \<Rightarrow> 'c bench_bot \<Rightarrow> 'c bench_bot option" where
  "bench_event window now e b = (case e of
     Ready \<Rightarrow> Some (b\<lparr>bb_hello_pending := True\<rparr>)
   | Message i payload \<Rightarrow>
       if i = WELCOME_GAME_MESSAGE_ID then
         (case decode_welcome payload of
            Inr w \<Rightarrow> Some (on_stats (\<lambda>st. st\<lparr>st_joined := True\<rparr>) (b\<lparr>bb_player_id := Some (wl_player_id w)\<rparr>))
          | Inl error \<Rightarrow> Some b)
       else if i = WORLD_SNAPSHOT_GAME_MESSAGE_ID then
         (let b = (if measuring window now
              then on_stats (\<lambda>st. st\<lparr>st_snapshots := st_snapshots st + 1,
                st_snapshot_bytes := st_snapshot_bytes st + length payload\<rparr>) b else b)
          in if \<not> bb_measured b then Some b
             else (case bb_player_id b of None \<Rightarrow> Some b
               | Some player_id \<Rightarrow>
                 (case decode_world_snapshot payload of Inl error \<Rightarrow> Some b
                  | Inr snap \<Rightarrow> take_sample window now snap b)))
       else Some b
   | HandshakeFailed reason \<Rightarrow> Some (on_stats (\<lambda>st. st\<lparr>st_lost := Some reason\<rparr>) b)
   | Disconnected reason \<Rightarrow> Some (on_stats (\<lambda>st. st\<lparr>st_lost := Some reason\<rparr>) b)
   | Connected \<Rightarrow> Some b
   | Probe \<Rightarrow> Some b
   | Ack \<Rightarrow> Some b)"

fun bench_events :: "window \<Rightarrow> instant \<Rightarrow> event list \<Rightarrow> 'c bench_bot \<Rightarrow> 'c bench_bot option" where
  "bench_events window now [] b = Some b"
| "bench_events window now (ev # evs) b =
     (case bench_event window now ev b of None \<Rightarrow> None | Some b \<Rightarrow> bench_events window now evs b)"

text \<open>\<^verbatim>\<open>if self.hello_pending { ... }\<close>; \<open>None\<close> is the panic of the encoder on a name beyond \<^verbatim>\<open>u32::MAX\<close>.\<close>

definition send_hello :: "('c, 'e) client_net \<Rightarrow> 'c bench_bot \<Rightarrow> 'e \<Rightarrow> ('c bench_bot \<times> 'e) option" where
  "send_hello net b e =
    (if \<not> bb_hello_pending b then Some (b, e)
     else (case encode_client_hello \<lparr>ch_client_kind = BOT, ch_display_name = bb_display_name b\<rparr> of None \<Rightarrow> None
       | Some payload \<Rightarrow>
         (case cn_send net CLIENT_HELLO_GAME_MESSAGE_ID payload (bb_connection b) e of (sent, connection, e) \<Rightarrow>
            Some (b\<lparr>bb_connection := connection, bb_hello_pending := (sent = Inl Congested)\<rparr>, e))))"

text \<open>The \<^verbatim>\<open>match\<close> on what became of an input; \<open>None\<close> is the panic of \<^verbatim>\<open>tag_sent[tag_cursor]\<close>.\<close>

definition after_input :: "window \<Rightarrow> instant \<Rightarrow> send_error + unit \<Rightarrow> 'c bench_bot \<Rightarrow> 'c bench_bot option" where
  "after_input window now sent b =
    (case sent of
       Inr ok \<Rightarrow>
         if bb_measured b \<and> length (bb_tag_sent b) \<le> bb_tag_cursor b then None
         else
           (let b = (if bb_measured b
                 then b\<lparr>bb_tag_sent := (bb_tag_sent b)[bb_tag_cursor b := Some now],
                        bb_tag_cursor := (bb_tag_cursor b + 1) mod TAG_COUNT\<rparr> else b)
            in Some (if measuring window now then on_stats (\<lambda>st. st\<lparr>st_inputs := st_inputs st + 1\<rparr>) b else b))
     | Inl Congested \<Rightarrow>
         Some (if measuring window now then on_stats (\<lambda>st. st\<lparr>st_congested := st_congested st + 1\<rparr>) b else b)
     | Inl (SendFailed reason) \<Rightarrow> Some b)"

text \<open>The second half of \<^verbatim>\<open>pump\<close>: the input, once the bot has joined and its time has come.\<close>

definition send_input ::
    "('c, 'e) client_net \<Rightarrow> trig \<Rightarrow> (f32 \<Rightarrow> f32 \<Rightarrow> f32) \<Rightarrow> instant \<Rightarrow> window \<Rightarrow> duration \<Rightarrow> 'c bench_bot \<Rightarrow> 'e
      \<Rightarrow> ('c bench_bot \<times> 'e) option" where
  "send_input net trig atan2 now window interval b e =
    (if bb_player_id b = None \<or> now < bb_next_input b then Some (b, e)
     else
       (case cn_now net e of (clock, e) \<Rightarrow>
        (case circling_input trig atan2 (as_secs_f32 (since clock (bb_started b))) (bb_phase b) of (move_x, move_z, look_yaw) \<Rightarrow>
         let look_pitch = (if bb_measured b then tag_pitch (bb_tag_cursor b) else 0);
             b = b\<lparr>bb_sequence := bb_sequence b + 1\<rparr>;
             input = \<lparr>pi_sequence = bb_sequence b, pi_move_x = move_x, pi_move_z = move_z, pi_jump = True,
                      pi_look_yaw = look_yaw, pi_look_pitch = look_pitch\<rparr>
         in (case cn_send net PLAYER_INPUT_GAME_MESSAGE_ID (encode_player_input input) (bb_connection b) e of
               (sent, connection, e) \<Rightarrow>
             map_option (\<lambda>b. (b\<lparr>bb_next_input := now + interval\<rparr>, e))
               (after_input window now sent (b\<lparr>bb_connection := connection\<rparr>))))))"

definition bench_pump ::
    "('c, 'e) client_net \<Rightarrow> trig \<Rightarrow> (f32 \<Rightarrow> f32 \<Rightarrow> f32) \<Rightarrow> instant \<Rightarrow> window \<Rightarrow> duration \<Rightarrow> 'c bench_bot \<Rightarrow> 'e
      \<Rightarrow> ('c bench_bot \<times> 'e) option" where
  "bench_pump net trig atan2 now window interval b e =
    (case cn_tick_now net (bb_connection b) e of (evs, connection, e) \<Rightarrow>
     (case bench_events window now evs (b\<lparr>bb_connection := connection\<rparr>) of None \<Rightarrow> None
      | Some b \<Rightarrow>
        (case send_hello net b e of None \<Rightarrow> None
         | Some (b, e) \<Rightarrow> send_input net trig atan2 now window interval b e)))"

definition bench_load ::
    "('c, 'e) client_net \<Rightarrow> trig \<Rightarrow> (f32 \<Rightarrow> f32 \<Rightarrow> f32) \<Rightarrow> string \<Rightarrow> ('e, 'c bench_bot) load" where
  "bench_load net trig atan2 address = \<lparr>ld_connect = bench_connect net address,
     ld_pump = bench_pump net trig atan2, ld_into_stats = bb_stats, ld_now = cn_now net, ld_sleep = cn_sleep net\<rparr>"

section \<open>The codec benchmark\<close>

definition codec_state :: "nat \<Rightarrow> PlayerState" where
  "codec_state index = \<lparr>ps_player_id = of_nat index, ps_client_kind = BOT, ps_color = 0xE6194BFF,
     ps_position_x = f32_mul (f32_of_nat index) (f32_lit 1 100),
     ps_position_z = f32_mul (f32_of_nat index) (f32_neg (f32_lit 1 100)),
     ps_position_y = f32_lit 5 10, ps_look_yaw = f32_lit 25 100, ps_look_pitch = f32_neg (f32_lit 25 100)\<rparr>"

definition codec_snapshot :: "nat \<Rightarrow> WorldSnapshot" where
  "codec_snapshot players = \<lparr>ws_tick = 1, ws_players = map codec_state [0 ..< players]\<rparr>"

text \<open>The two loops: the bytes encoded and the players decoded. \<open>None\<close> is the encoder's panic.\<close>

fun encode_rounds :: "WorldSnapshot \<Rightarrow> nat \<Rightarrow> nat \<Rightarrow> nat option" where
  "encode_rounds snap 0 bytes = Some bytes"
| "encode_rounds snap (Suc rounds) bytes =
     (case encode_world_snapshot snap of None \<Rightarrow> None
      | Some payload \<Rightarrow> encode_rounds snap rounds (bytes + length payload))"

fun decode_rounds :: "u8 list \<Rightarrow> nat \<Rightarrow> nat \<Rightarrow> nat" where
  "decode_rounds payload 0 decoded = decoded"
| "decode_rounds payload (Suc rounds) decoded =
     decode_rounds payload rounds (decoded + (case decode_world_snapshot payload of
       Inr snap \<Rightarrow> length (ws_players snap) | Inl error \<Rightarrow> 0))"

definition per_round :: "nat \<Rightarrow> duration \<Rightarrow> f64" where
  "per_round rounds elapsed = f64_div (f64_mul (as_secs_f64 elapsed) (f64_lit 1000000 1)) (f64_of_nat rounds)"

definition throughput :: "nat \<Rightarrow> nat \<Rightarrow> duration \<Rightarrow> f64" where
  "throughput len rounds elapsed =
    f64_div (f64_div (f64_mul (f64_of_nat len) (f64_of_nat rounds)) (as_secs_f64 elapsed))
      (f64_mul (f64_mul (f64_lit 1024 1) (f64_lit 1024 1)) (f64_lit 1024 1))"

definition codec_line :: "string \<Rightarrow> nat \<Rightarrow> nat \<Rightarrow> nat \<Rightarrow> duration \<Rightarrow> string" where
  "codec_line label players len rounds elapsed = label @ show_f64 1 (per_round rounds elapsed) @ '' us per snapshot'' @ middle_dot
     @ show_f64 1 (f64_div (f64_mul (as_secs_f64 elapsed) (f64_lit 1000000000 1)) (f64_of_nat (rounds * players)))
     @ '' ns per player'' @ middle_dot @ show_f64 2 (throughput len rounds elapsed) @ '' GiB/s''"

definition codec_bench :: "nat \<Rightarrow> nat \<Rightarrow> duration \<Rightarrow> duration \<Rightarrow> string list option" where
  "codec_bench players rounds encode_elapsed decode_elapsed =
    (let snap = codec_snapshot players in
     case encode_rounds snap rounds 0 of None \<Rightarrow> None
     | Some bytes \<Rightarrow>
       (case encode_world_snapshot snap of None \<Rightarrow> None
        | Some payload \<Rightarrow>
          let decoded = decode_rounds payload rounds 0
          in Some
           [''codec: fomoxac'' @ middle_dot @ show_nat players @ '' players, '' @ show_nat (length payload) @ '' bytes, ''
              @ show_nat rounds @ '' rounds'',
            codec_line ''encode          '' players (length payload) rounds encode_elapsed,
            codec_line ''decode          '' players (length payload) rounds decode_elapsed,
            ''checksum        '' @ show_nat bytes @ '' bytes encoded, '' @ show_nat decoded @ '' players decoded'']))"

section \<open>\<^verbatim>\<open>main\<close>\<close>

datatype bench_mode = CodecBench nat nat | LoadBench options

text \<open>What the command line asks for; \<open>None\<close> is the panic of \<^verbatim>\<open>Options::from_cli\<close>.\<close>

definition bench_mode_of :: "string list \<Rightarrow> bench_mode option" where
  "bench_mode_of args =
    (case parsed_flag (parse_uint 64) args ''--codec'' of
       Some players \<Rightarrow>
         let rounds = unwrap_or (parsed_flag (parse_uint 64) args ''--rounds'') 10000
         in Some (CodecBench (max players 1) (max rounds 1))
     | None \<Rightarrow> map_option LoadBench (from_cli args))"

text \<open>
  \<^verbatim>\<open>main\<close>: the lines printed and the JSON file, for the time each codec loop took, the start and the
  workers of the run, the samples, and whether the file could be written. \<open>None\<close> is a panic.
\<close>

definition bench_main ::
    "('c, 'e) client_net \<Rightarrow> trig \<Rightarrow> (f32 \<Rightarrow> f32 \<Rightarrow> f32) \<Rightarrow> string list \<Rightarrow> duration \<times> duration \<Rightarrow> instant \<Rightarrow> (nat \<Rightarrow> 'e)
      \<Rightarrow> process_sample list \<times> process_sample list \<Rightarrow> (string \<Rightarrow> string \<Rightarrow> bool) \<Rightarrow> (string list \<times> (string \<times> string) option) option" where
  "bench_main net trig atan2 args codec_times start worker samples written =
    (case bench_mode_of args of None \<Rightarrow> None
     | Some (CodecBench players rounds) \<Rightarrow>
         map_option (\<lambda>lines. (lines, None)) (codec_bench players rounds (fst codec_times) (snd codec_times))
     | Some (LoadBench options) \<Rightarrow>
         map_option (\<lambda>result. case report STACK options result written of (lines, file) \<Rightarrow> (run_banner STACK options # lines, file))
           (run (bench_load net trig atan2 (op_address options)) options start worker samples))"

end
