(* ===== verification/Bench_Props.thy ===== *)
theory Bench_Props
  imports Bench Measure_Props World_Props
begin

text \<open>
  The bots of the load generator never panic and keep their own statistics, a tagged input comes
  back through the server as one round trip, and what the codec benchmark counts.
\<close>

section \<open>The invariant of a bot\<close>

text \<open>
  A measured bot has a slot for every tag, the next tag is one of them, and the name can be encoded.
\<close>

definition bench_ok :: "'c bench_bot \<Rightarrow> bool" where
  "bench_ok b \<longleftrightarrow> length (bb_tag_sent b) = (if bb_measured b then TAG_COUNT else 0) \<and> bb_tag_cursor b < TAG_COUNT \<and>
     st_measured (bb_stats b) = bb_measured b \<and> length (bb_display_name b) \<le> u32_MAX"

lemma bench_ok_updates [simp]:
  "bench_ok (b\<lparr>bb_connection := c\<rparr>) = bench_ok b" "bench_ok (b\<lparr>bb_hello_pending := h\<rparr>) = bench_ok b"
  "bench_ok (b\<lparr>bb_player_id := i\<rparr>) = bench_ok b" "bench_ok (b\<lparr>bb_sequence := q\<rparr>) = bench_ok b"
  "bench_ok (b\<lparr>bb_next_input := t\<rparr>) = bench_ok b" "bench_ok (b\<lparr>bb_tag_sent := (bb_tag_sent b)[j := x]\<rparr>) = bench_ok b"
  by (simp_all add: bench_ok_def)

lemma bench_ok_on_stats [simp]: "(\<And>st. st_measured (f st) = st_measured st) \<Longrightarrow> bench_ok (on_stats f b) = bench_ok b"
  by (simp add: bench_ok_def on_stats_def)

lemma on_stats_fields [simp]:
  "bb_measured (on_stats f b) = bb_measured b" "bb_player_id (on_stats f b) = bb_player_id b"
  "bb_tag_sent (on_stats f b) = bb_tag_sent b" "bb_stats (on_stats f b) = f (bb_stats b)"
  by (simp_all add: on_stats_def)

lemma bench_new_ok:
  assumes "index < 2 ^ 64"
  shows "bench_ok (bench_bot_new index measured now c)"
proof -
  have "index < 10 ^ Suc 19" using assms by simp
  then have "length (show_nat index) \<le> 20" by (rule order_trans [OF length_show_nat]) simp
  then show ?thesis by (simp add: bench_ok_def bench_bot_new_def stats_measured_def default_stats_def TAG_COUNT_def u32_MAX_def)
qed

lemma tag_slot: "bench_ok b \<Longrightarrow> bb_measured b \<Longrightarrow> i < 512 \<Longrightarrow> slice_get (bb_tag_sent b) i = Some (bb_tag_sent b ! i)"
  by (simp add: bench_ok_def slice_get_def TAG_COUNT_def)

lemma take_sample_ok:
  assumes "bench_ok b" "bb_measured b"
  shows "\<exists>b'. take_sample w now snap b = Some b' \<and> bench_ok b'"
  using assms by (auto simp: take_sample_def tag_slot Let_def dest!: tag_index_SomeD(1) split: option.split)

lemma bench_event_ok:
  assumes "bench_ok b"
  shows "\<exists>b'. bench_event w now e b = Some b' \<and> bench_ok b'"
proof (cases e)
  case (Message i payload)
  let ?b = "if measuring w now then on_stats (\<lambda>st. st\<lparr>st_snapshots := st_snapshots st + 1,
    st_snapshot_bytes := st_snapshot_bytes st + length payload\<rparr>) b else b"
  have "bench_ok ?b" using assms by simp
  then show ?thesis
    using take_sample_ok [of ?b w now] assms unfolding Message bench_event_def Let_def
    by (auto split: sum.split option.split)
qed (use assms in \<open>auto simp: bench_event_def\<close>)

lemma bench_events_ok: "bench_ok b \<Longrightarrow> \<exists>b'. bench_events w now evs b = Some b' \<and> bench_ok b'"
proof (induction evs arbitrary: b)
  case (Cons e evs)
  then show ?case using bench_event_ok [OF Cons.prems, of w now e] by auto
qed simp

section \<open>Pumping\<close>

lemma send_hello_ok:
  assumes "client_net_ok net clock" "bench_ok b"
  shows "\<exists>b' e'. send_hello net b e = Some (b', e') \<and> bench_ok b' \<and> clock e \<le> clock e'"
proof -
  have "\<exists>payload. encode_client_hello \<lparr>ch_client_kind = BOT, ch_display_name = bb_display_name b\<rparr> = Some payload"
    using assms(2) by (simp add: encode_bytes bench_ok_def)
  then show ?thesis
    using assms by (auto simp: send_hello_def client_net_okD split: prod.split)
qed

lemma after_input_ok:
  assumes "bench_ok b"
  shows "\<exists>b'. after_input w now sent b = Some b' \<and> bench_ok b'"
proof (cases sent)
  case (Inr ok)
  have "0 < TAG_COUNT" by (simp add: TAG_COUNT_def)
  then show ?thesis using assms Inr by (auto simp: after_input_def Let_def bench_ok_def on_stats_def)
qed (use assms in \<open>auto simp: after_input_def split: send_error.split\<close>)

lemma send_input_ok:
  assumes net: "client_net_ok net clock" and ok: "bench_ok b"
  shows "\<exists>b' e'. send_input net trig atan2 now w interval b e = Some (b', e') \<and> bench_ok b' \<and> clock e \<le> clock e'"
proof (cases "bb_player_id b = None \<or> now < bb_next_input b")
  case True
  then show ?thesis using ok by (simp add: send_input_def)
next
  case False
  obtain t e1 where now: "cn_now net e = (t, e1)" by (cases "cn_now net e")
  obtain mx mz yaw where circle: "circling_input trig atan2 (as_secs_f32 (since t (bb_started b))) (bb_phase b) = (mx, mz, yaw)"
    by (cases "circling_input trig atan2 (as_secs_f32 (since t (bb_started b))) (bb_phase b)")
  let ?payload = "encode_player_input \<lparr>pi_sequence = bb_sequence b + 1, pi_move_x = mx, pi_move_z = mz, pi_jump = True,
    pi_look_yaw = yaw, pi_look_pitch = if bb_measured b then tag_pitch (bb_tag_cursor b) else 0\<rparr>"
  obtain sent c e2 where send: "cn_send net PLAYER_INPUT_GAME_MESSAGE_ID ?payload (bb_connection b) e1 = (sent, c, e2)"
    by (cases "cn_send net PLAYER_INPUT_GAME_MESSAGE_ID ?payload (bb_connection b) e1")
  have "clock e \<le> clock e2"
    using client_net_okD(1) [OF net now] client_net_okD(3) [OF net send] by (rule order_trans)
  moreover obtain b' where "after_input w now sent (b\<lparr>bb_sequence := bb_sequence b + 1, bb_connection := c\<rparr>) = Some b'" "bench_ok b'"
    using after_input_ok [of "b\<lparr>bb_sequence := bb_sequence b + 1, bb_connection := c\<rparr>" w now sent] ok by auto
  ultimately show ?thesis
    using False by (auto simp: send_input_def now circle send Let_def)
qed

lemma bench_pump_ok:
  assumes net: "client_net_ok net clock" and ok: "bench_ok b"
  shows "\<exists>b' e'. bench_pump net trig atan2 now w interval b e = Some (b', e') \<and> bench_ok b' \<and> clock e \<le> clock e'"
proof -
  obtain evs c e1 where tick: "cn_tick_now net (bb_connection b) e = (evs, c, e1)" by (cases "cn_tick_now net (bb_connection b) e")
  obtain b1 where b1: "bench_events w now evs (b\<lparr>bb_connection := c\<rparr>) = Some b1" "bench_ok b1"
    using bench_events_ok [of "b\<lparr>bb_connection := c\<rparr>" w now evs] ok by auto
  obtain b2 e2 where b2: "send_hello net b1 e1 = Some (b2, e2)" "bench_ok b2" "clock e1 \<le> clock e2"
    using send_hello_ok [OF net b1(2)] by blast
  obtain b3 e3 where "send_input net trig atan2 now w interval b2 e2 = Some (b3, e3)" "bench_ok b3" "clock e2 \<le> clock e3"
    using send_input_ok [OF net b2(2)] by blast
  then show ?thesis
    using client_net_okD(2) [OF net tick] b1 b2 by (simp add: bench_pump_def tick)
qed

lemma bench_load_ok:
  assumes net: "client_net_ok net clock" and n: "n \<le> 2 ^ 64"
  shows "load_ok n (bench_load net trig atan2 address) clock bench_ok"
proof -
  have "bench_ok b" if "index < n" "bench_connect net address index measured now e = (Inr b, e')" for index measured now e b e'
    using that n bench_new_ok [of index] by (auto simp: bench_connect_def split: prod.splits sum.splits)
  then show ?thesis
    using net bench_pump_ok [OF net, of _ trig atan2] by (simp add: load_ok_def bench_load_def client_net_ok_def)
qed


text \<open>A connection whose peer welcomes, sends a byte of rubbish, and drops the bot at every tick.\<close>

definition hostile_net :: "(nat, nat) client_net" where
  "hostile_net = \<lparr>cn_connect = \<lambda>address e. (Inr 0, e),
     cn_tick_now = \<lambda>c e. ([Message WELCOME_GAME_MESSAGE_ID [1], Message WORLD_SNAPSHOT_GAME_MESSAGE_ID [9],
       Disconnected ''reset''], c + 1, e),
     cn_send = \<lambda>i payload c e. (if even c then Inl Congested else Inr (), c, e + 1),
     cn_now = \<lambda>e. (e, e), cn_sleep = \<lambda>d e. e + d\<rparr>"


section \<open>A round trip\<close>

lemma find_own_state:
  assumes "bt_ok (wd_players w)" "ids_ok w" "world_player w peer = Some p"
  shows "find (\<lambda>state. ps_player_id state = pl_id p) (ws_players (snapshot w)) = Some (player_state_of p)"
proof -
  have "peer \<in> set (bt_keys (wd_players w))" using assms(3) by (simp add: bt_keys_get world_player_def)
  then have "Some p \<in> set (map (bt_get (wd_players w)) (bt_keys (wd_players w)))"
    using assms(3) by (force simp: world_player_def)
  then have "p \<in> set (bt_values (wd_players w))" unfolding bt_values_get [OF assms(1), symmetric] by auto
  moreover have "find (\<lambda>state. ps_player_id state = pl_id p) (map player_state_of ps) = Some (player_state_of p)"
    if "p \<in> set ps" "distinct (map pl_id ps)" for ps
    using that
  proof (induction ps)
    case (Cons q ps)
    then show ?case by (cases "q = p") (auto simp: player_state_of_def)
  qed simp
  ultimately show ?thesis using distinct_ids [OF assms(1,2)] by (simp add: snapshot_def)
qed

lemma encoded_count: "encode_world_snapshot s = Some bytes \<Longrightarrow> length (ws_players s) \<le> u32_MAX"
  by (simp add: encode_world_snapshot_def WorldSnapshotGameCodec_encode_def write_array_count_def write_len_def split: if_splits)

lemma echoed_state:
  assumes w: "world_ok w" and p: "world_player w peer = Some p" and seq: "pl_last_sequence p \<le> pi_sequence i"
    and pitch: "pi_look_pitch i = tag_pitch k" and k: "k < 512"
  defines "w' \<equiv> world_step TICK_DT (snd (apply_input peer i w))"
  obtains state where "find (\<lambda>state. ps_player_id state = pl_id p) (ws_players (snapshot w')) = Some state"
    "ps_look_pitch state = tag_pitch k"
proof -
  have ok: "world_ok w'" unfolding w'_def by (intro step_ok apply_input_ok w)
  then have ids: "bt_ok (wd_players w')" "ids_ok w'" by (simp_all add: world_ok_def)
  have "world_player w' peer = Some (step_player TICK_DT (take_input i p))"
    unfolding w'_def using p seq w by (simp add: world_ok_def player_step player_apply_input accepts_def)
  then have "find (\<lambda>state. ps_player_id state = pl_id p) (ws_players (snapshot w')) =
      Some (player_state_of (step_player TICK_DT (take_input i p)))"
    using find_own_state [OF ids] by fastforce
  moreover have "ps_look_pitch (player_state_of (step_player TICK_DT (take_input i p))) = tag_pitch k"
    using tag_pitch_accepted [OF k] by (simp add: player_state_of_def pitch)
  ultimately show thesis by (rule that)
qed

text \<open>
  C14: The measurement measures what it claims to. A bot that sent an input tagged \<open>k\<close> at time \<open>sent\<close>
  finds the tag in the snapshot of the tick that applies it, because the server stores the pitch
  unchanged and the codec returns it bit for bit: it records exactly the microseconds since then and
  clears the slot, so that the next snapshot with the same pitch is not counted again.
\<close>

theorem echoed_tag_is_measured:
  assumes "world_ok w" "world_player w peer = Some p" "pl_last_sequence p \<le> pi_sequence i"
    and "pi_look_pitch i = tag_pitch k" "k < TAG_COUNT"
    and "encode_world_snapshot (snapshot (world_step TICK_DT (snd (apply_input peer i w)))) = Some payload"
    and "bench_ok b" "bb_measured b" "bb_player_id b = Some (pl_id p)" "bb_tag_sent b ! k = Some sent"
    and "measuring window now" "wn_measure_start window \<le> sent"
  shows "\<exists>b'. bench_event window now (Message WORLD_SNAPSHOT_GAME_MESSAGE_ID payload) b = Some b'
    \<and> st_rtt_micros (bb_stats b') = st_rtt_micros (bb_stats b) @ [of_nat (as_micros (since now sent))]
    \<and> (\<exists>b''. bench_event window later (Message WORLD_SNAPSHOT_GAME_MESSAGE_ID payload) b' = Some b''
         \<and> st_rtt_micros (bb_stats b'') = st_rtt_micros (bb_stats b'))"
proof -
  let ?snap = "snapshot (world_step TICK_DT (snd (apply_input peer i w)))"
  have k: "k < 512" using assms(5) by (simp add: TAG_COUNT_def)
  obtain state where state: "find (\<lambda>state. ps_player_id state = pl_id p) (ws_players ?snap) = Some state"
    "ps_look_pitch state = tag_pitch k"
    by (rule echoed_state [OF assms(1-4) k])
  have "length (ws_players ?snap) \<le> u32_MAX" using assms(6) by (rule encoded_count)
  from snapshot_back [OF this, of "[]"] have decoded: "decode_world_snapshot payload = Inr ?snap"
    using assms(6) by simp
  have slot: "k < length (bb_tag_sent b)" using assms(5,7,8) by (simp add: bench_ok_def)
  show ?thesis
    using assms(8-12) slot
    by (auto simp: bench_event_def decoded take_sample_def state tag_reads_back [OF k] slice_get_def on_stats_def
        WORLD_SNAPSHOT_GAME_MESSAGE_ID_def WELCOME_GAME_MESSAGE_ID_def Let_def)
qed

text \<open>The tagged input 5, sent at 1 ms and seen again at 35.5 ms.\<close>

definition tagged_input :: PlayerInput where
  "tagged_input = default_player_input\<lparr>pi_sequence := 6, pi_look_pitch := tag_pitch 5\<rparr>"

definition waiting_bot :: "nat bench_bot" where
  "waiting_bot = (bench_bot_new 0 True 0 0)\<lparr>bb_player_id := Some 1, bb_tag_cursor := 6,
     bb_tag_sent := (replicate TAG_COUNT None)[5 := Some 1000000]\<rparr>"

theorem echoed_tag_is_measured_witness:
  "\<exists>payload b. encode_world_snapshot (snapshot (world_step TICK_DT (snd (apply_input 7 tagged_input witness_world)))) = Some payload
    \<and> bench_event \<lparr>wn_measure_start = 0, wn_measure_end = 10 ^ 9\<rparr> 35500000 (Message WORLD_SNAPSHOT_GAME_MESSAGE_ID payload)
        waiting_bot = Some b
    \<and> st_rtt_micros (bb_stats b) = [34500]"
proof -
  let ?w = "world_step TICK_DT (snd (apply_input 7 tagged_input witness_world))"
  have bt: "bt_ok (wd_players ?w)" by (simp add: bt_ok_ops witness_bt_ok)
  have "world_player ?w k \<noteq> None \<longleftrightarrow> k = 7" for k
    using witness_keys [of k] by (auto simp: player_step player_apply_input witness_bt_ok)
  then have "player_count ?w = 1" by (rule single_player [OF bt])
  then have "length (ws_players (snapshot ?w)) \<le> u32_MAX"
    by (simp add: snapshot_def player_count_def bt_len_values u32_MAX_def)
  then obtain payload where payload: "encode_world_snapshot (snapshot ?w) = Some payload" using snapshot_back by blast
  have bot: "bench_ok waiting_bot" "bb_measured waiting_bot" "bb_tag_sent waiting_bot ! 5 = Some 1000000"
    "bb_player_id waiting_bot = Some 1" "st_rtt_micros (bb_stats waiting_bot) = []"
    using bench_new_ok [of 0 True 0 0]
    by (simp_all add: waiting_bot_def bench_ok_def bench_bot_new_def TAG_COUNT_def stats_measured_def default_stats_def)
  show ?thesis
    using echoed_tag_is_measured [OF reachable_world_ok [OF witness_reachable unit_trig_ok] witness_player, of tagged_input 5 payload
        waiting_bot 1000000 "\<lparr>wn_measure_start = 0, wn_measure_end = 10 ^ 9\<rparr>" 35500000 0] payload bot
    by (auto simp: tagged_input_def hostile_input_def TAG_COUNT_def measuring_def since_def as_micros_def)
qed

section \<open>The codec benchmark\<close>

lemma encode_rounds_count:
  "encode_world_snapshot snap = Some payload \<Longrightarrow> encode_rounds snap rounds bytes = Some (bytes + rounds * length payload)"
  by (induction rounds arbitrary: bytes) simp_all

lemma decode_rounds_count:
  "decode_world_snapshot payload = Inr snap \<Longrightarrow> decode_rounds payload rounds n = n + rounds * length (ws_players snap)"
  by (induction rounds arbitrary: n) simp_all

text \<open>
  The codec benchmark exercises the whole codec: for up to \<^verbatim>\<open>u32::MAX\<close> players it never panics,
  each encoded snapshot has 8 bytes and 29 per player, every decoding succeeds and returns every
  player, and the checksum line says so.
\<close>

lemma codec_checksum:
  assumes "players \<le> u32_MAX"
  shows "encode_rounds (codec_snapshot players) rounds 0 = Some (rounds * (8 + 29 * players))
    \<and> (\<exists>payload. encode_world_snapshot (codec_snapshot players) = Some payload \<and> length payload = 8 + 29 * players
         \<and> decode_rounds payload rounds 0 = rounds * players)
    \<and> (\<exists>lines. codec_bench players rounds t u = Some (lines @ [''checksum        '' @ show_nat (rounds * (8 + 29 * players))
         @ '' bytes encoded, '' @ show_nat (rounds * players) @ '' players decoded'']))"
proof -
  let ?snap = "codec_snapshot players"
  have len: "length (ws_players ?snap) = players" by (simp add: codec_snapshot_def)
  then obtain payload where payload: "encode_world_snapshot ?snap = Some payload" "length payload = 8 + 29 * players"
    "decode_world_snapshot payload = Inr ?snap"
    using snapshot_back [of ?snap "[]"] assms by auto
  have rounds: "encode_rounds ?snap rounds 0 = Some (rounds * (8 + 29 * players))"
    "decode_rounds payload rounds 0 = rounds * players"
    using encode_rounds_count [OF payload(1), of rounds 0] decode_rounds_count [OF payload(3), of rounds 0] payload(2) len by simp_all
  then show ?thesis using payload by (simp add: codec_bench_def Let_def)
qed

end
