(* ===== verification/Profile_Text.thy ===== *)
theory Profile_Text
  imports Game Measure
begin

text \<open>
  \<^verbatim>\<open>server/src/main.rs\<close>, \<^verbatim>\<open>Profile::line\<close>: the text of the line that \<open>LogProfile\<close> stands for.
\<close>

definition profile_millis :: "profile \<Rightarrow> duration \<Rightarrow> f64" where
  "profile_millis p spent = f64_div (f64_mul (as_secs_f64 spent) (f64_lit 1000 1)) (f64_of_nat (unat (max (pf_ticks p) 1)))"

definition profile_line :: "profile \<Rightarrow> duration \<Rightarrow> string" where
  "profile_line p elapsed =
     show_f64 1 (f64_div (f64_of_nat (unat (pf_ticks p))) (f64_max (as_secs_f64 elapsed) f64_EPSILON)) @ '' Hz'' @ middle_dot
       @ show_nat (unat (pf_loops p div max (pf_ticks p) 1)) @ '' loops/tick'' @ middle_dot
       @ ''per tick: events '' @ show_f64 2 (profile_millis p (pf_events p)) @ '' ms'' @ middle_dot
       @ ''step '' @ show_f64 2 (profile_millis p (pf_step p)) @ '' ms'' @ middle_dot
       @ ''encode '' @ show_f64 2 (profile_millis p (pf_encode p)) @ '' ms'' @ middle_dot
       @ ''send '' @ show_f64 2 (profile_millis p (pf_send p)) @ '' ms''"

end
