(* ===== verification/Log_Time.thy ===== *)
theory Log_Time
  imports Text_Format Durations
begin

text \<open>\<^verbatim>\<open>server/src/log.rs\<close>: the timestamp of a log line and the two log macros' lines.\<close>

definition MILLIS_PER_DAY :: nat where
  "MILLIS_PER_DAY = 86400000"

definition format_utc_time_of_day :: "nat \<Rightarrow> string" where
  "format_utc_time_of_day unix_millis =
    (let millis_of_day = unix_millis mod MILLIS_PER_DAY
     in show_pad 2 (millis_of_day div 3600000) @ '':'' @ show_pad 2 (millis_of_day div 60000 mod 60) @ '':''
        @ show_pad 2 (millis_of_day div 1000 mod 60) @ ''.'' @ show_pad 3 (millis_of_day mod 1000) @ ''Z'')"

text \<open>\<open>since_epoch\<close> is what the system clock gives; a clock before 1970 counts as zero.\<close>

definition timestamp :: "duration option \<Rightarrow> string" where
  "timestamp since_epoch = format_utc_time_of_day
     (as_millis (case since_epoch of Some d \<Rightarrow> d | None \<Rightarrow> 0) mod 2 ^ 64)"

definition log_info :: "duration option \<Rightarrow> string \<Rightarrow> string" where
  "log_info since_epoch message = ''['' @ timestamp since_epoch @ ''] INFO  '' @ message"

definition log_warn :: "duration option \<Rightarrow> string \<Rightarrow> string" where
  "log_warn since_epoch message = ''['' @ timestamp since_epoch @ ''] WARN  '' @ message"

lemma length_pad2: "n < 100 \<Longrightarrow> length (show_pad 2 n) = 2"
  using length_show_pad [of n 1] by (simp add: numeral_2_eq_2)

lemma length_pad3: "n < 1000 \<Longrightarrow> length (show_pad 3 n) = 3"
  using length_show_pad [of n 2] by (simp add: numeral_3_eq_3)

text \<open>
  C32: The time of day is always thirteen characters \<^verbatim>\<open>HH:MM:SS.mmmZ\<close>, with the hour below 24 and
  the minute and second below 60, and its four fields give back the milliseconds since midnight.
\<close>

theorem time_of_day_reads_back:
  "let s = format_utc_time_of_day t;
       h = read_nat (take 2 s); m = read_nat (take 2 (drop 3 s));
       sec = read_nat (take 2 (drop 6 s)); ms = read_nat (take 3 (drop 9 s))
   in length s = 13 \<and> h < 24 \<and> m < 60 \<and> sec < 60 \<and> ms < 1000 \<and>
      ((h * 60 + m) * 60 + sec) * 1000 + ms = t mod MILLIS_PER_DAY"
proof -
  define d where "d = t mod MILLIS_PER_DAY"
  have d: "d < 86400000" by (simp add: d_def MILLIS_PER_DAY_def)
  let ?h = "d div 3600000" and ?m = "d div 60000 mod 60" and ?s = "d div 1000 mod 60" and ?ms = "d mod 1000"
  have h: "?h < 24" using d by (simp add: div_less_iff_less_mult)
  have len: "length (show_pad 2 ?h) = 2" "length (show_pad 2 ?m) = 2" "length (show_pad 2 ?s) = 2"
    "length (show_pad 3 ?ms) = 3"
    using h by (simp_all add: length_pad2 length_pad3)
  have "((?h * 60 + ?m) * 60 + ?s) * 1000 + ?ms = d"
  proof -
    have e: "d div 1000 div 60 = d div 60000" "d div 60000 div 60 = d div 3600000" by (simp_all add: div_mult2_eq [symmetric])
    have "?h * 60 + ?m = d div 60000" using div_mult_mod_eq [of "d div 60000" 60] unfolding e .
    moreover have "d div 60000 * 60 + ?s = d div 1000" using div_mult_mod_eq [of "d div 1000" 60] unfolding e .
    ultimately show ?thesis using div_mult_mod_eq [of d 1000] by (simp only:)
  qed
  with len h show ?thesis
    by (simp add: format_utc_time_of_day_def Let_def d_def [symmetric])
qed

end
