(* ===== verification/Unit_Tests.thy ===== *)
theory Unit_Tests
  imports World Peers Log_Time Protocol "HOL-Library.Monad_Syntax"
begin

text \<open>
  The program's own unit tests, the functions marked \<^verbatim>\<open>#[test]\<close> in \<^verbatim>\<open>world.rs\<close>, \<^verbatim>\<open>peers.rs\<close>,
  \<^verbatim>\<open>messages.rs\<close> and \<^verbatim>\<open>log.rs\<close>. A test that panics - a failed assertion, an \<^verbatim>\<open>unwrap\<close> of nothing - is
  \<open>None\<close>. What a test asks of the platform is a parameter of it: \<open>trig\<close> the cosine and sine, \<open>now\<close>
  the clock's answer, \<open>show_peer\<close> the \<^verbatim>\<open>Display\<close> of \<^verbatim>\<open>PeerId\<close>. A \<^verbatim>\<open>PeerId\<close> is its number.
\<close>

section \<open>Assertions\<close>

definition check :: "bool \<Rightarrow> unit option" where
  "check b = (if b then Some () else None)"

definition unwrap_ok :: "'e + 'a \<Rightarrow> 'a option" where
  "unwrap_ok r = (case r of Inl e \<Rightarrow> None | Inr x \<Rightarrow> Some x)"

text \<open>\<^verbatim>\<open>==\<close> on floats.\<close>

definition f32_eq :: "f32 \<Rightarrow> f32 \<Rightarrow> bool" where
  "f32_eq a b \<longleftrightarrow> f32_le a b \<and> f32_le b a"

text \<open>\<^verbatim>\<open>for _ in 0..n { ... }\<close> with a body that may panic.\<close>

fun repeat_body :: "nat \<Rightarrow> ('s \<Rightarrow> 's option) \<Rightarrow> 's \<Rightarrow> 's option" where
  "repeat_body 0 f s = Some s"
| "repeat_body (Suc n) f s = do { s \<leftarrow> f s; repeat_body n f s }"

section \<open>\<^verbatim>\<open>world.rs\<close>\<close>

definition PEER_A :: nat where "PEER_A = 1"
definition PEER_B :: nat where "PEER_B = 2"

definition test_input :: "u32 \<Rightarrow> f32 \<Rightarrow> f32 \<Rightarrow> PlayerInput" where
  "test_input sequence move_x move_z =
     default_player_input\<lparr>pi_sequence := sequence, pi_move_x := move_x, pi_move_z := move_z\<rparr>"

definition jumping :: "u32 \<Rightarrow> PlayerInput" where
  "jumping sequence = (test_input sequence 0 0)\<lparr>pi_jump := True\<rparr>"

definition looking :: "u32 \<Rightarrow> f32 \<Rightarrow> f32 \<Rightarrow> PlayerInput" where
  "looking sequence look_yaw look_pitch =
     (test_input sequence 0 0)\<lparr>pi_look_yaw := look_yaw, pi_look_pitch := look_pitch\<rparr>"

definition joined_world :: "trig \<Rightarrow> nat world" where
  "joined_world trig = snd (join trig PEER_A 2 ''a'' world_new)"

definition player_a :: "nat world \<Rightarrow> player option" where
  "player_a w = world_player w PEER_A"

definition close_to :: "f32 \<Rightarrow> f32 \<Rightarrow> bool" where
  "close_to actual expected \<longleftrightarrow> f32_lt (f32_abs (f32_sub actual expected)) (f32_lit 1 1000)"

definition assert_close :: "f32 \<Rightarrow> f32 \<Rightarrow> unit option" where
  "assert_close actual expected = check (close_to actual expected)"

definition applied :: "PlayerInput \<Rightarrow> nat world \<Rightarrow> nat world" where
  "applied i w = snd (apply_input PEER_A i w)"

subsection \<open>Joining and moving\<close>

definition joining_assigns_distinct_ids_and_colors :: "trig \<Rightarrow> unit option" where
  "joining_assigns_distinct_ids_and_colors trig = (
     let (first, w) = join trig PEER_A 2 ''a'' world_new;
         (second, w) = join trig PEER_B 0 ''b'' w
     in do {
       check (first \<noteq> second);
       a \<leftarrow> world_player w PEER_A;
       b \<leftarrow> world_player w PEER_B;
       check (pl_color a \<noteq> pl_color b);
       check (player_count w = 2) })"

definition joining_twice_from_one_peer_keeps_the_same_player :: "trig \<Rightarrow> unit option" where
  "joining_twice_from_one_peer_keeps_the_same_player trig = do {
     first \<leftarrow> map_option pl_id (player_a (joined_world trig));
     let (again, w) = join trig PEER_A 2 ''again'' (joined_world trig);
     check (again = first);
     check (player_count w = 1) }"

definition input_moves_the_player_at_move_speed :: "trig \<Rightarrow> unit option" where
  "input_moves_the_player_at_move_speed trig = do {
     start_x \<leftarrow> map_option pl_position_x (player_a (joined_world trig));
     p \<leftarrow> player_a (world_step (f32_lit 5 10) (applied (test_input 1 f32_one 0) (joined_world trig)));
     assert_close (pl_position_x p) (f32_add start_x (f32_mul MOVE_SPEED (f32_lit 5 10))) }"

text \<open>\<^verbatim>\<open>powi(2)\<close> is one multiplication.\<close>

definition diagonal_input_is_normalized :: "trig \<Rightarrow> unit option" where
  "diagonal_input_is_normalized trig = do {
     before \<leftarrow> player_a (joined_world trig);
     after \<leftarrow> player_a (world_step (f32_lit 1 10) (applied (test_input 1 f32_one f32_one) (joined_world trig)));
     let dx = f32_sub (pl_position_x after) (pl_position_x before);
     let dz = f32_sub (pl_position_z after) (pl_position_z before);
     let travelled = f32_sqrt (f32_add (f32_mul dx dx) (f32_mul dz dz));
     assert_close travelled (f32_mul MOVE_SPEED (f32_lit 1 10)) }"

definition position_is_clamped_to_the_plane :: "trig \<Rightarrow> unit option" where
  "position_is_clamped_to_the_plane trig = do {
     p \<leftarrow> player_a (world_step (f32_lit 100 1) (applied (test_input 1 f32_one (f32_neg f32_one)) (joined_world trig)));
     assert_close (pl_position_x p) PLANE_HALF_SIZE;
     assert_close (pl_position_z p) (f32_neg PLANE_HALF_SIZE) }"

definition non_finite_input_does_not_move_the_player :: "trig \<Rightarrow> unit option" where
  "non_finite_input_does_not_move_the_player trig = do {
     before \<leftarrow> player_a (joined_world trig);
     p \<leftarrow> player_a (world_step f32_one
       (applied (test_input 1 (f32_of NaN) (f32_of (Infty False))) (joined_world trig)));
     assert_close (pl_position_x p) (pl_position_x before);
     assert_close (pl_position_z p) (pl_position_z before) }"

definition stale_input_is_ignored :: "trig \<Rightarrow> unit option" where
  "stale_input_is_ignored trig = (
     let (taken, w) = apply_input PEER_A (test_input 5 f32_one 0) (joined_world trig);
         (stale, w) = apply_input PEER_A (test_input 4 (f32_neg f32_one) 0) w
     in do {
       check taken;
       check (\<not> stale);
       start_x \<leftarrow> map_option pl_position_x (player_a w);
       p \<leftarrow> player_a (world_step (f32_lit 1 10) w);
       check (f32_lt start_x (pl_position_x p)) })"

definition input_from_a_peer_that_never_joined_is_rejected :: "trig \<Rightarrow> unit option" where
  "input_from_a_peer_that_never_joined_is_rejected trig =
     check (\<not> fst (apply_input PEER_B (test_input 1 f32_one 0) (joined_world trig)))"

definition leaving_removes_the_player_from_the_snapshot :: "trig \<Rightarrow> unit option" where
  "leaving_removes_the_player_from_the_snapshot trig = (
     case leave PEER_A (snd (join trig PEER_B 0 ''b'' (joined_world trig))) of (left, w) \<Rightarrow> do {
       left \<leftarrow> left;
       check (length (ws_players (snapshot w)) = 1);
       check (list_all (\<lambda>state. ps_player_id state \<noteq> pl_id left) (ws_players (snapshot w))) })"

definition snapshot_reports_the_current_tick :: "trig \<Rightarrow> unit option" where
  "snapshot_reports_the_current_tick trig = (
     let w = world_step (f32_lit 1 10) (world_step (f32_lit 1 10) (joined_world trig))
     in do { check (ws_tick (snapshot w) = 2); check (world_tick w = 2) })"

subsection \<open>Jumping\<close>

definition a_player_stands_on_the_plane_without_jumping :: "trig \<Rightarrow> unit option" where
  "a_player_stands_on_the_plane_without_jumping trig = do {
     p \<leftarrow> player_a (world_step f32_one (joined_world trig));
     check (f32_eq (pl_position_y p) 0);
     check (is_grounded p) }"

definition holding_jump_on_the_ground_launches_the_player :: "trig \<Rightarrow> unit option" where
  "holding_jump_on_the_ground_launches_the_player trig = do {
     p \<leftarrow> player_a (world_step (f32_lit 5 100) (applied (jumping 1) (joined_world trig)));
     check (f32_lt 0 (pl_position_y p)) }"

definition peak_body :: "nat world \<times> f32 \<Rightarrow> (nat world \<times> f32) option" where
  "peak_body = (\<lambda>(w, highest). let w = world_step (f32_lit 1 1000) w in do {
     p \<leftarrow> player_a w;
     Some (w, f32_max highest (pl_position_y p)) })"

definition a_jump_peaks_near_the_ballistic_height :: "trig \<Rightarrow> unit option" where
  "a_jump_peaks_near_the_ballistic_height trig = (
     let w = world_step (f32_lit 1 1000) (applied (jumping 1) (joined_world trig));
         w = applied (test_input 2 0 0) w
     in do {
       (w, highest) \<leftarrow> repeat_body 1000 peak_body (w, 0);
       let expected = f32_div (f32_mul JUMP_SPEED JUMP_SPEED) (f32_mul (f32_lit 2 1) GRAVITY);
       check (f32_lt (f32_abs (f32_sub highest expected)) (f32_lit 2 100)) })"

definition a_released_jump_lands_and_stays_on_the_plane :: "trig \<Rightarrow> unit option" where
  "a_released_jump_lands_and_stays_on_the_plane trig = (
     let w = world_step (f32_lit 1 100) (applied (jumping 1) (joined_world trig));
         w = applied (test_input 2 0 0) w
     in do {
       w \<leftarrow> repeat_body 200 (\<lambda>w. Some (world_step (f32_lit 1 100) w)) w;
       p \<leftarrow> player_a w;
       check (f32_eq (pl_position_y p) 0) })"

definition bounce_body :: "nat world \<times> nat \<times> bool \<Rightarrow> (nat world \<times> nat \<times> bool) option" where
  "bounce_body = (\<lambda>(w, takeoffs, was_grounded). let w = world_step (f32_lit 1 100) w in do {
     grounded \<leftarrow> map_option is_grounded (player_a w);
     Some (w, if was_grounded \<and> \<not> grounded then takeoffs + 1 else takeoffs, grounded) })"

definition holding_jump_keeps_bouncing :: "trig \<Rightarrow> unit option" where
  "holding_jump_keeps_bouncing trig = do {
     (w, takeoffs, was_grounded) \<leftarrow> repeat_body 200 bounce_body (applied (jumping 1) (joined_world trig), 0, True);
     check (2 \<le> takeoffs) }"

definition holding_jump_in_the_air_does_not_add_speed :: "trig \<Rightarrow> unit option" where
  "holding_jump_in_the_air_does_not_add_speed trig = (
     let w = world_step (f32_lit 1 10) (applied (jumping 1) (joined_world trig))
     in do {
       rising_speed \<leftarrow> map_option pl_vertical_velocity (player_a w);
       p \<leftarrow> player_a (world_step (f32_lit 1 10) w);
       assert_close (pl_vertical_velocity p) (f32_sub rising_speed (f32_mul GRAVITY (f32_lit 1 10))) })"

subsection \<open>Looking\<close>

definition look_yaw_is_wrapped_and_pitch_is_clamped :: "trig \<Rightarrow> unit option" where
  "look_yaw_is_wrapped_and_pitch_is_clamped trig = do {
     p \<leftarrow> player_a (applied (looking 1 (f32_add f32_TAU (f32_lit 5 10)) (f32_lit 3 1)) (joined_world trig));
     assert_close (pl_look_yaw p) (f32_lit 5 10);
     assert_close (pl_look_pitch p) MAX_LOOK_PITCH }"

definition non_finite_look_keeps_the_previous_direction :: "trig \<Rightarrow> unit option" where
  "non_finite_look_keeps_the_previous_direction trig = do {
     p \<leftarrow> player_a (applied (looking 2 (f32_of NaN) (f32_of (Infty True)))
       (applied (looking 1 (f32_lit 5 10) (f32_neg (f32_lit 25 100))) (joined_world trig)));
     assert_close (pl_look_yaw p) (f32_lit 5 10);
     assert_close (pl_look_pitch p) (f32_neg (f32_lit 25 100)) }"

definition snapshot_carries_height_and_look_direction :: "trig \<Rightarrow> unit option" where
  "snapshot_carries_height_and_look_direction trig = (
     let i = (looking 1 (f32_neg f32_one) (f32_lit 75 100))\<lparr>pi_jump := True\<rparr>;
         w = world_step (f32_lit 5 100) (applied i (joined_world trig))
     in do {
       state \<leftarrow> (case ws_players (snapshot w) of [] \<Rightarrow> None | state # states \<Rightarrow> Some state);
       check (f32_lt 0 (ps_position_y state));
       assert_close (ps_look_yaw state) (f32_neg f32_one);
       assert_close (ps_look_pitch state) (f32_lit 75 100) })"

section \<open>\<^verbatim>\<open>peers.rs\<close>\<close>

definition PEER :: nat where "PEER = 7"

definition loopback :: "nat \<Rightarrow> string option" where
  "loopback port = Some (''127.0.0.1:'' @ show_nat port)"

definition a_connected_peer_reports_its_address_until_removed :: "instant \<Rightarrow> unit option" where
  "a_connected_peer_reports_its_address_until_removed now = (
     let d = directory_connect PEER (loopback 50000) now directory_new
     in do {
       check (directory_address_label d PEER = ''127.0.0.1:50000'');
       let (removed, d) = directory_remove PEER d;
       removed \<leftarrow> removed;
       check (record_address_label removed = ''127.0.0.1:50000'');
       check (directory_address_label d PEER = ''unknown address'');
       check (directory_is_empty d) })"

definition accepting_the_handshake_is_recorded :: "instant \<Rightarrow> unit option" where
  "accepting_the_handshake_is_recorded now = do {
     r \<leftarrow> directory_get (accept_handshake PEER (directory_connect PEER None now directory_new)) PEER;
     check (pr_handshake_accepted r) }"

definition connection_time_is_measured_from_connect :: "instant \<Rightarrow> unit option" where
  "connection_time_is_measured_from_connect connected_at = do {
     r \<leftarrow> directory_get (directory_connect PEER None connected_at directory_new) PEER;
     check (connected_for r (connected_at + from_millis 1500) = from_millis 1500) }"

definition roster_lists_every_joined_player_with_its_address :: "(nat \<Rightarrow> string) \<Rightarrow> trig \<Rightarrow> instant \<Rightarrow> unit option" where
  "roster_lists_every_joined_player_with_its_address show_peer trig now = (
     let d = directory_connect PEER (loopback 40000) now directory_new;
         w = snd (join trig PEER UNITY ''bob'' world_new)
     in check (roster show_peer w d =
          ''online 1: #1 unity '' @ [CHR 0x22] @ ''bob'' @ [CHR 0x22] @ '' @127.0.0.1:40000 (peer#7)''))"

definition an_empty_world_has_an_empty_roster :: "(nat \<Rightarrow> string) \<Rightarrow> unit option" where
  "an_empty_world_has_an_empty_roster show_peer = check (roster show_peer world_new directory_new = ''online 0'')"

section \<open>\<^verbatim>\<open>messages.rs\<close>\<close>

text \<open>
  \<^verbatim>\<open>==\<close> on messages is equality of the records: no float in these tests is a NaN or a negative zero.
\<close>

definition INPUT_BYTES_BEFORE_JUMP_AND_LOOK :: nat where
  "INPUT_BYTES_BEFORE_JUMP_AND_LOOK = 12"

definition two_player_snapshot :: WorldSnapshot where
  "two_player_snapshot = \<lparr>ws_tick = 42, ws_players = [
     \<lparr>ps_player_id = 1, ps_client_kind = 2, ps_color = 0xE6194BFF, ps_position_x = f32_lit 15 10,
       ps_position_z = f32_neg (f32_lit 325 100), ps_position_y = f32_lit 75 100, ps_look_yaw = f32_lit 125 100,
       ps_look_pitch = f32_neg (f32_lit 5 10)\<rparr>,
     default_player_state\<lparr>ps_player_id := 2, ps_client_kind := 0, ps_color := 0x3CB44BFF,
       ps_position_x := f32_neg (f32_lit 9 1)\<rparr>]\<rparr>"

definition world_snapshot_survives_a_round_trip :: "unit option" where
  "world_snapshot_survives_a_round_trip = do {
     bytes \<leftarrow> encode_world_snapshot two_player_snapshot;
     decoded \<leftarrow> unwrap_ok (decode_world_snapshot bytes);
     check (decoded = two_player_snapshot) }"

text \<open>The name is Vietnamese, in UTF-8.\<close>

definition utf8_hello :: ClientHello where
  "utf8_hello = \<lparr>ch_client_kind = 2, ch_display_name = ''ng'' @ [CHR 0xC6, CHR 0xB0, CHR 0xE1, CHR 0xBB, CHR 0x9D] @
     ''i ch'' @ [CHR 0xC6, CHR 0xA1] @ ''i''\<rparr>"

definition client_hello_survives_a_round_trip :: "unit option" where
  "client_hello_survives_a_round_trip = do {
     bytes \<leftarrow> encode_client_hello utf8_hello;
     decoded \<leftarrow> unwrap_ok (decode_client_hello bytes);
     check (decoded = utf8_hello) }"

definition input_from_a_client_without_jump_and_look_decodes_with_defaults :: "unit option" where
  "input_from_a_client_without_jump_and_look_decodes_with_defaults = (
     let current = \<lparr>pi_sequence = 7, pi_move_x = f32_one, pi_move_z = f32_neg (f32_lit 5 10), pi_jump = True,
           pi_look_yaw = f32_lit 2 1, pi_look_pitch = f32_one\<rparr>;
         encoded = encode_player_input current
     in do {
       prefix \<leftarrow> (if INPUT_BYTES_BEFORE_JUMP_AND_LOOK \<le> length encoded
         then Some (take INPUT_BYTES_BEFORE_JUMP_AND_LOOK encoded) else None);
       decoded \<leftarrow> unwrap_ok (decode_player_input prefix);
       check (decoded = default_player_input\<lparr>pi_sequence := 7, pi_move_x := f32_one,
         pi_move_z := f32_neg (f32_lit 5 10)\<rparr>) })"

section \<open>\<^verbatim>\<open>log.rs\<close>\<close>

definition formats_the_utc_time_of_day_with_milliseconds :: "unit option" where
  "formats_the_utc_time_of_day_with_milliseconds = check (format_utc_time_of_day 1789462323045 = ''08:52:03.045Z'')"

definition midnight_is_all_zeroes :: "unit option" where
  "midnight_is_all_zeroes = check (format_utc_time_of_day (MILLIS_PER_DAY * 20000) = ''00:00:00.000Z'')"

end
