(* ===== verification/Float_Error.thy ===== *)
theory Float_Error
  imports World_Floats Complex_Main
begin

text \<open>
  The rounding error of \<^verbatim>\<open>f32\<close> arithmetic, in the reals: as long as a result stays within 16 in
  magnitude, each operation is off by less than \<open>2\<^sup>-\<^sup>2\<^sup>0\<close>. The size of the plane, the speeds and the
  heights of the game are all in that range.
\<close>

section \<open>Values\<close>

definition rv :: "f32 \<Rightarrow> real" where
  "rv a = of_int (units (f32_val a)) / of_int unit32"

definition ulp16 :: real where
  "ulp16 = 1 / 2 ^ 20"

text \<open>A float that is finite and close to a real.\<close>

definition near :: "real \<Rightarrow> real \<Rightarrow> f32 \<Rightarrow> bool" where
  "near x err a \<longleftrightarrow> f32_is_finite a \<and> \<bar>rv a - x\<bar> \<le> err"

lemma near_finite: "near x err a \<Longrightarrow> f32_is_finite a"
  by (simp add: near_def)

lemma near_exact: "f32_is_finite a \<Longrightarrow> near (rv a) 0 a"
  by (simp add: near_def)

lemma near_weaken: "near x err a \<Longrightarrow> \<bar>x - y\<bar> + err \<le> err' \<Longrightarrow> near y err' a"
  by (auto simp: near_def)

lemma near_bounds: "near x err a \<Longrightarrow> x - err \<le> rv a" "near x err a \<Longrightarrow> rv a \<le> x + err"
  by (auto simp: near_def)

lemma near_abs: "near x err a \<Longrightarrow> \<bar>rv a\<bar> \<le> \<bar>x\<bar> + err"
  unfolding near_def by linarith

lemma rv_dy: "f32_val a = Fin s (dy m k) \<Longrightarrow> k \<le> 149 \<Longrightarrow> rv a = (if s then - of_int m else of_int m) / 2 ^ (149 - k)"
proof -
  assume a: "f32_val a = Fin s (dy m k)" and k: "k \<le> 149"
  have "of_int unit32 = (2::real) ^ k * 2 ^ (149 - k)"
    using k unfolding unit32_def of_int_power by (simp flip: power_add)
  then show ?thesis by (simp add: rv_def a dy_def)
qed

section \<open>One rounding\<close>

definition grid :: int where
  "grid = 2 ^ 129"

lemma key_ok_grid: "\<bar>j\<bar> \<le> 2 ^ 24 \<Longrightarrow> key_ok F32 (j * grid)"
proof -
  assume j: "\<bar>j\<bar> \<le> 2 ^ 24"
  then have "pdig 24 (\<bar>j\<bar> * 2 ^ 129)" by (intro pdig_mult_power) simp_all
  moreover have "\<bar>j\<bar> * 2 ^ 129 \<le> 2 ^ 24 * 2 ^ 129" using j by (intro mult_right_mono) simp_all
  then have "\<bar>j\<bar> * 2 ^ 129 \<le> flimit F32" by (simp add: flimit_def)
  ultimately show ?thesis by (simp add: key_ok_def grid_def abs_mult)
qed

lemma unit32_grid: "16 * unit32 = 2 ^ 24 * grid" "0 < grid"
  by (simp_all add: unit32_def grid_def)

lemma rnd_near:
  assumes d: "0 < d" and v: "\<bar>v\<bar> \<le> 16 * unit32 * d"
  shows "\<bar>rnd_key F32 v d\<bar> \<le> 16 * unit32"
    "\<bar>of_int (rnd_key F32 v d) / of_int unit32 - of_int v / (of_int d * of_int unit32)\<bar> \<le> ulp16"
proof -
  let ?r = "rnd_key F32 v d"
  show "\<bar>?r\<bar> \<le> 16 * unit32"
    using v key_ok_grid [of "2 ^ 24"] by (intro rnd_key_abs_le [OF d]) (simp_all add: unit32_grid(1))
  define j where "j = v div (grid * d)"
  have gd: "0 < grid * d" using d unit32_grid(2) by simp
  have lo: "j * (grid * d) \<le> v" and hi': "v < (j + 1) * (grid * d)"
    using div_mult_mod_eq [of v "grid * d"] pos_mod_bound [OF gd, of v] pos_mod_sign [OF gd, of v]
    by (simp_all add: j_def algebra_simps)
  have v': "v \<le> 2 ^ 24 * (grid * d)" "- (2 ^ 24) * (grid * d) \<le> v" using v by (simp_all add: unit32_grid(1) mult.assoc)
  have "j * (grid * d) \<le> 2 ^ 24 * (grid * d)" "- (2 ^ 24) * (grid * d) < (j + 1) * (grid * d)" using lo hi' v' by linarith+
  then have j: "j \<le> 2 ^ 24" "- (2 ^ 24) \<le> j"
    unfolding mult_le_cancel_right_pos [OF gd] mult_less_cancel_right_pos [OF gd] by linarith+
  note hi = less_imp_le [OF hi']
  have "key_ok F32 (j * grid)" using j by (intro key_ok_grid) linarith
  then have r_lo: "j * grid \<le> ?r" using lo by (intro rnd_key_ge [OF d]) (simp_all add: mult.assoc)
  have r_hi: "?r \<le> (j + 1) * grid"
  proof (cases "j = 2 ^ 24")
    case False
    then have "key_ok F32 ((j + 1) * grid)" using j by (intro key_ok_grid) linarith
    then show ?thesis using hi by (intro rnd_key_le [OF d]) (simp_all add: mult.assoc)
  next
    case True
    have "?r \<le> 2 ^ 24 * grid"
      using v'(1) key_ok_grid [of "2 ^ 24"] by (intro rnd_key_le [OF d]) (simp_all add: mult.assoc)
    also have "\<dots> \<le> (j + 1) * grid" using unit32_grid(2) by (simp add: True)
    finally show ?thesis .
  qed
  let ?j = "of_int j :: real" and ?g = "of_int grid :: real" and ?d = "of_int d :: real" and ?u = "of_int unit32 :: real"
  have pos: "0 < ?g" "0 < ?d" "0 < ?u" using d unit32_grid(2) by simp_all
  have g: "?g = ulp16 * ?u" by (simp add: ulp16_def grid_def unit32_def)
  have "?j * ?g \<le> of_int ?r" "of_int ?r \<le> (?j + 1) * ?g"
    using r_lo r_hi of_int_le_iff [of "j * grid" ?r, where ?'a = real] of_int_le_iff [of ?r "(j + 1) * grid", where ?'a = real]
    by simp_all
  then have r: "?j * ulp16 \<le> of_int ?r / ?u" "of_int ?r / ?u \<le> (?j + 1) * ulp16"
    using pos by (simp_all add: g pos_le_divide_eq pos_divide_le_eq)
  have "of_int (j * (grid * d)) \<le> (of_int v :: real)" "(of_int v :: real) \<le> of_int ((j + 1) * (grid * d))"
    using lo hi by (simp_all only: of_int_le_iff)
  then have "?j * ulp16 \<le> of_int v / (?d * ?u)" "of_int v / (?d * ?u) \<le> (?j + 1) * ulp16"
    using pos by (simp_all add: g pos_le_divide_eq pos_divide_le_eq algebra_simps)
  with r show "\<bar>of_int ?r / ?u - of_int v / (?d * ?u)\<bar> \<le> ulp16" by (simp add: abs_le_iff algebra_simps)
qed

lemma key_near:
  assumes "fv_key F32 (f32_val a) = rnd_key F32 v d" "f32_val a \<noteq> NaN" "0 < d" "\<bar>x\<bar> \<le> 16"
    and "x = of_int v / (of_int d * of_int unit32)"
  shows "near x ulp16 a"
proof -
  have "\<bar>of_int v\<bar> = \<bar>x\<bar> * (of_int d * of_int unit32 :: real)" using assms(3,5) by (simp add: abs_mult)
  also have "\<dots> \<le> 16 * (of_int d * of_int unit32)" using assms(3,4) by (intro mult_right_mono) simp_all
  finally have "of_int \<bar>v\<bar> \<le> (of_int (16 * unit32 * d) :: real)" by (simp add: algebra_simps)
  then have v: "\<bar>v\<bar> \<le> 16 * unit32 * d" by (simp only: of_int_le_iff)
  have "16 * unit32 < flimit F32" by (simp add: unit32_def flimit_def)
  then have fin: "is_fin (f32_val a)"
    using rnd_near(1) [OF assms(3) v] is_fin_key [OF f32_val_ok assms(2)] by (simp add: assms(1))
  then have "units (f32_val a) = rnd_key F32 v d" using is_fin_units_key [of "f32_val a" F32] assms(1) by simp
  then show ?thesis using rnd_near(2) [OF assms(3) v] fin by (simp add: near_def f32_is_finite_def rv_def assms(5))
qed

section \<open>Arithmetic\<close>

lemma add_near:
  "f32_is_finite a \<Longrightarrow> f32_is_finite b \<Longrightarrow> \<bar>rv a + rv b\<bar> \<le> 16 \<Longrightarrow> near (rv a + rv b) ulp16 (f32_add a b)"
  by (rule key_near [where d = 1 and v = "units (f32_val a) + units (f32_val b)"])
    (simp_all add: f32_val_add fv_add_key fv_add_not_NaN is_fin_not_NaN f32_is_finite_def rv_def add_divide_distrib)

lemma sub_near:
  "f32_is_finite a \<Longrightarrow> f32_is_finite b \<Longrightarrow> \<bar>rv a - rv b\<bar> \<le> 16 \<Longrightarrow> near (rv a - rv b) ulp16 (f32_sub a b)"
  by (rule key_near [where d = 1 and v = "units (f32_val a) - units (f32_val b)"])
    (simp_all add: f32_val_sub fv_sub_key fv_sub_not_NaN f32_is_finite_def rv_def diff_divide_distrib)

lemma mul_near:
  "f32_is_finite a \<Longrightarrow> f32_is_finite b \<Longrightarrow> \<bar>rv a * rv b\<bar> \<le> 16 \<Longrightarrow> near (rv a * rv b) ulp16 (f32_mul a b)"
  by (rule key_near [where d = unit32 and v = "units (f32_val a) * units (f32_val b)"])
    (simp_all add: f32_val_mul fv_mul_key fv_mul_not_NaN f32_is_finite_def rv_def funit_F32)

lemma div_near:
  assumes "f32_is_finite a" "f32_is_finite b" "0 < rv b" "\<bar>rv a / rv b\<bar> \<le> 16"
  shows "near (rv a / rv b) ulp16 (f32_div a b)"
proof -
  obtain s k where b: "f32_val b = Fin s k" using assms(2) by (auto simp: f32_is_finite_def elim: is_finE)
  have "fv_ok F32 (Fin s k)" using f32_val_ok [of b] by (simp add: b)
  then have k: "0 \<le> k" by (auto dest: pdig_nonneg)
  with assms(3) have k: "0 < k" "\<not> s" using unit32_facts(1)
    by (auto simp: rv_def b zero_less_divide_iff simp del: unit32_facts split: if_splits)
  have fin: "is_fin (f32_val a)" using assms(1) by (simp add: f32_is_finite_def)
  have "f32_val (f32_div a b) \<noteq> NaN" using fin k by (cases "f32_val a") (simp_all add: f32_val_div b)
  moreover have "fv_key F32 (f32_val (f32_div a b)) = rnd_key F32 (units (f32_val a) * unit32) k"
    using fv_div_key [OF fin f32_val_ok] f32_val_ok [of b] k by (simp add: f32_val_div b funit_F32)
  ultimately show ?thesis
    using assms(4) k by (intro key_near [where d = k and v = "units (f32_val a) * unit32"]) (simp_all add: rv_def b)
qed

lemma pdig_grid: "0 \<le> j \<Longrightarrow> j \<le> 2 ^ 24 \<Longrightarrow> pdig 24 (j * grid)"
  unfolding grid_def by (rule pdig_mult_power) simp_all

lemma sqrt_near:
  assumes "f32_is_finite a" "0 \<le> rv a" "rv a \<le> 255"
  shows "near (sqrt (rv a)) ulp16 (f32_sqrt a)"
proof -
  obtain s k where a: "f32_val a = Fin s k" using assms(1) by (auto simp: f32_is_finite_def elim: is_finE)
  have k: "0 \<le> k" using f32_val_ok [of a] by (auto simp: a dest: pdig_nonneg)
  show ?thesis
  proof (cases "k = 0")
    case True
    then show ?thesis by (cases s) (simp_all add: near_def f32_is_finite_def rv_def f32_val_sqrt a ulp16_def)
  next
    case False
    with k assms(2) have s: "\<not> s" using unit32_facts(1) by (auto simp: rv_def a zero_le_divide_iff simp del: unit32_facts)
    define n where "n = k * unit32"
    define q where "q = \<lfloor>sqrt (of_int n) / of_int grid\<rfloor>"
    have n: "0 \<le> n" using k by (simp add: n_def)
    have grid: "0 < (of_int grid :: real)" using unit32_grid(2) by simp
    have root: "sqrt (rv a) = sqrt (of_int n) / of_int unit32"
    proof -
      have "rv a = of_int n / (of_int unit32)\<^sup>2" using s by (simp add: rv_def a n_def power2_eq_square)
      then show ?thesis by (simp add: real_sqrt_divide)
    qed
    have "of_int q \<le> sqrt (of_int n) / of_int grid" "sqrt (of_int n) / of_int grid < of_int q + 1" by (simp_all add: q_def)
    then have q: "of_int (q * grid) \<le> sqrt (of_int n)" "sqrt (of_int n) < of_int ((q + 1) * grid)"
      using grid by (simp_all add: pos_le_divide_eq pos_divide_less_eq)
    have q0: "0 \<le> q" using n grid by (simp add: q_def)
    have "sqrt (rv a) < sqrt (16\<^sup>2)" using assms(3) unfolding real_sqrt_less_iff by simp
    then have "sqrt (rv a) < 16" by simp
    then have "sqrt (of_int n) < 16 * of_int unit32" by (simp add: root pos_divide_less_eq)
    also have "\<dots> = of_int (16 * unit32)" by simp
    also have "\<dots> = of_int (2 ^ 24 * grid)" by (simp only: unit32_grid(1))
    finally have "of_int (q * grid) < (of_int (2 ^ 24 * grid) :: real)" using q(1) by linarith
    then have "q * grid < 2 ^ 24 * grid" by (simp only: of_int_less_iff)
    then have q24: "q < 2 ^ 24" by (rule mult_right_less_imp_less) (simp add: grid_def)
    have "of_int (q * grid * (q * grid)) \<le> (of_int n :: real)"
      using mult_mono [OF q(1) q(1)] q0 n unit32_grid(2) by simp
    then have lo: "q * grid * (q * grid) \<le> n" by (simp only: of_int_le_iff)
    have "of_int n \<le> (of_int ((q + 1) * grid * ((q + 1) * grid)) :: real)"
      using mult_mono [OF less_imp_le [OF q(2)] less_imp_le [OF q(2)]] q0 n unit32_grid(2) by simp
    then have hi: "n \<le> (q + 1) * grid * ((q + 1) * grid)" by (simp only: of_int_le_iff)
    define r where "r = round_sqrt 24 n"
    have r: "q * grid \<le> r" "r \<le> (q + 1) * grid"
      unfolding r_def using n lo hi q0 q24 by (auto intro!: round_sqrt_ge round_sqrt_le pdig_grid)
    have "(q + 1) * grid \<le> 2 ^ 24 * grid" using q24 by (intro mult_right_mono) (simp_all add: grid_def)
    then have "r \<le> 2 ^ 24 * grid" using r(2) by linarith
    then have "r < flimit F32" by (simp add: grid_def flimit_def)
    then have val: "f32_val (f32_sqrt a) = Fin False r"
      using False s by (simp add: f32_val_sqrt a fv_mk_small r_def n_def funit_F32)
    have u: "of_int grid = ulp16 * (of_int unit32 :: real)" by (simp add: ulp16_def grid_def unit32_def)
    have "of_int (q * grid) \<le> (of_int r :: real)" "of_int r \<le> (of_int ((q + 1) * grid) :: real)"
      using r by (simp_all only: of_int_le_iff)
    then have "\<bar>of_int r - sqrt (of_int n)\<bar> \<le> (of_int grid :: real)"
      using q by (simp add: abs_le_iff algebra_simps)
    then have "\<bar>of_int r - sqrt (of_int n)\<bar> / of_int unit32 \<le> ulp16" by (simp add: u pos_divide_le_eq)
    moreover have "\<bar>of_int r - sqrt (of_int n)\<bar> / of_int unit32 = \<bar>of_int r / of_int unit32 - sqrt (of_int n) / of_int unit32\<bar>"
      by (simp flip: diff_divide_distrib)
    moreover have "rv (f32_sqrt a) = of_int r / of_int unit32" "f32_is_finite (f32_sqrt a)"
      by (simp_all add: rv_def f32_is_finite_def val)
    ultimately show ?thesis by (simp add: near_def root)
  qed
qed

section \<open>Comparison and selection\<close>

lemma rv_less: "units (f32_val a) < units (f32_val b) \<longleftrightarrow> rv a < rv b" "units (f32_val a) \<le> units (f32_val b) \<longleftrightarrow> rv a \<le> rv b"
  using unit32_facts(1) by (auto simp add: rv_def divide_less_cancel divide_le_cancel simp del: unit32_facts)

lemma f32_lt_rv: "f32_is_finite a \<Longrightarrow> f32_is_finite b \<Longrightarrow> f32_lt a b \<longleftrightarrow> rv a < rv b"
  by (simp add: f32_lt_def fv_lt_def f32_is_finite_def is_fin_not_NaN is_fin_units_key rv_less)

lemma f32_le_rv: "f32_is_finite a \<Longrightarrow> f32_is_finite b \<Longrightarrow> f32_le a b \<longleftrightarrow> rv a \<le> rv b"
  by (simp add: f32_le_def fv_le_def f32_is_finite_def is_fin_not_NaN is_fin_units_key rv_less)

lemma zero_rv [simp]: "f32_is_finite 0" "rv 0 = 0"
  by (simp_all add: f32_is_finite_def rv_def)

lemma neg_rv [simp]: "f32_is_finite (f32_neg a) = f32_is_finite a" "rv (f32_neg a) = - rv a"
  by (simp_all add: f32_is_finite_def rv_def)

lemma abs_rv: "f32_is_finite a \<Longrightarrow> f32_is_finite (f32_abs a) \<and> rv (f32_abs a) = \<bar>rv a\<bar>"
proof -
  assume "f32_is_finite a"
  then obtain s k where a: "f32_val a = Fin s k" by (auto simp: f32_is_finite_def elim: is_finE)
  then have "0 \<le> k" using f32_val_ok [of a] by (auto dest: pdig_nonneg)
  then show ?thesis by (simp add: f32_is_finite_def rv_def f32_val_abs a)
qed

lemma clamp_rv:
  assumes "f32_is_finite a" "f32_is_finite lo" "f32_is_finite hi"
  shows "f32_clamp a lo hi = (if rv a < rv lo then (if rv hi < rv lo then hi else lo) else if rv hi < rv a then hi else a)"
  using assms by (simp add: f32_clamp_def f32_lt_rv Let_def)

end
