(* ===== verification/Ballistics.thy ===== *)
theory Ballistics
  imports Float_Error World_Jump
begin

text \<open>
  A jump with any time step: how far the float trajectory of \<^verbatim>\<open>World::step\<close> is from the parabola of
  the exact arithmetic, and that it comes down.
\<close>

section \<open>Composing errors\<close>

lemma near_add:
  assumes "near x e a" "near y f b" "\<bar>x\<bar> + \<bar>y\<bar> + e + f \<le> 16"
  shows "near (x + y) (e + f + ulp16) (f32_add a b)"
proof -
  have "\<bar>rv a + rv b\<bar> \<le> 16" using assms by (auto simp: near_def)
  then have "near (rv a + rv b) ulp16 (f32_add a b)" using assms by (intro add_near) (auto simp: near_def)
  then show ?thesis using assms by (auto simp: near_def)
qed

lemma near_sub:
  assumes "near x e a" "near y f b" "\<bar>x\<bar> + \<bar>y\<bar> + e + f \<le> 16"
  shows "near (x - y) (e + f + ulp16) (f32_sub a b)"
proof -
  have "\<bar>rv a - rv b\<bar> \<le> 16" using assms by (auto simp: near_def)
  then have "near (rv a - rv b) ulp16 (f32_sub a b)" using assms by (intro sub_near) (auto simp: near_def)
  then show ?thesis using assms by (auto simp: near_def)
qed

lemma near_scale:
  assumes "near x e a" "f32_is_finite b" "0 \<le> rv b" "(\<bar>x\<bar> + e) * rv b \<le> 16"
  shows "near (x * rv b) (e * rv b + ulp16) (f32_mul a b)"
proof -
  have a: "f32_is_finite a" "\<bar>rv a - x\<bar> \<le> e" using assms(1) by (simp_all add: near_def)
  have "\<bar>rv a\<bar> * rv b \<le> (\<bar>x\<bar> + e) * rv b" using a(2) assms(3) by (intro mult_right_mono) auto
  then have "\<bar>rv a * rv b\<bar> \<le> 16" using assms(3,4) by (simp add: abs_mult)
  then have m: "near (rv a * rv b) ulp16 (f32_mul a b)" using assms(2) a(1) by (intro mul_near)
  have "\<bar>rv a * rv b - x * rv b\<bar> = \<bar>rv a - x\<bar> * rv b" using assms(3) by (simp add: abs_mult flip: left_diff_distrib)
  also have "\<dots> \<le> e * rv b" using a(2) assms(3) by (rule mult_right_mono)
  finally show ?thesis using m by (auto simp: near_def)
qed

section \<open>The trajectory in the air\<close>

definition vertical_at :: "f32 \<Rightarrow> bool \<Rightarrow> f32 \<times> f32 \<Rightarrow> f32 \<times> f32" where
  "vertical_at dt jump s = (case s of (y, v) \<Rightarrow>
     let v = f32_sub (if f32_le y 0 \<and> jump then JUMP_SPEED else v) (f32_mul GRAVITY dt)
     in land (f32_add y (f32_mul v dt)) v)"

lemma vertical_step_at: "vertical (step_player dt p) = vertical_at dt (pl_jump_held p) (vertical p)"
  by (simp add: vertical_def vertical_at_def step_player_def is_grounded_def land_def Let_def)

definition glide :: "f32 \<Rightarrow> f32 \<times> f32 \<Rightarrow> f32 \<times> f32" where
  "glide dt s = (case s of (y, v) \<Rightarrow> let v = f32_sub v (f32_mul GRAVITY dt) in (f32_add y (f32_mul v dt), v))"

text \<open>The \<open>k\<close>-th state after the take-off, as long as the player does not come down.\<close>

definition arc :: "f32 \<Rightarrow> nat \<Rightarrow> f32 \<times> f32" where
  "arc dt k = (glide dt ^^ k) (0, JUMP_SPEED)"

lemma arc_Suc: "arc dt (Suc k) = glide dt (arc dt k)"
  by (simp add: arc_def)

text \<open>What the arithmetic of the reals gives, with \<open>h\<close> the step and \<open>g\<close> the speed lost in it, and the error bounds.\<close>

definition speed_at :: "real \<Rightarrow> nat \<Rightarrow> real" where
  "speed_at g k = 7 - real k * g"

definition height_at :: "real \<Rightarrow> real \<Rightarrow> nat \<Rightarrow> real" where
  "height_at h g k = h * (7 * real k - g * (real k * (real k + 1) / 2))"

definition height_err :: "real \<Rightarrow> nat \<Rightarrow> real" where
  "height_err h k = (2 * real k + h * (real k * (real k + 1) / 2)) * ulp16"

lemma height_step: "height_at h g (Suc k) = height_at h g k + speed_at g (Suc k) * h"
  by (simp add: height_at_def speed_at_def field_simps)

lemma err_step: "height_err h (Suc k) = height_err h k + (real (Suc k) * ulp16 * h + ulp16) + ulp16"
  by (simp add: height_err_def field_simps)

lemma jump_speed_rv: "f32_is_finite JUMP_SPEED" "rv JUMP_SPEED = 7"
proof -
  have v: "f32_val JUMP_SPEED = Fin False (dy 14680064 128)" unfolding JUMP_SPEED_bits by (simp add: feval)
  show "f32_is_finite JUMP_SPEED" by (simp add: f32_is_finite_def v)
  show "rv JUMP_SPEED = 7" unfolding rv_dy [OF v, simplified] by simp
qed

text \<open>The range in which the bounds hold: at most 0.8 seconds of flight, in at most 1000 steps.\<close>

definition flight_ok :: "f32 \<Rightarrow> nat \<Rightarrow> bool" where
  "flight_ok dt n \<longleftrightarrow> f32_is_finite dt \<and> 0 \<le> rv dt \<and> real n * rv dt \<le> 4 / 5 \<and> f32_is_finite (f32_mul GRAVITY dt) \<and>
     0 \<le> rv (f32_mul GRAVITY dt) \<and> rv (f32_mul GRAVITY dt) \<le> 5 \<and> real n * rv (f32_mul GRAVITY dt) \<le> 16 \<and> n \<le> 1000"

lemma speed_bound:
  assumes "flight_ok dt n" "k \<le> n"
  shows "\<bar>speed_at (rv (f32_mul GRAVITY dt)) k\<bar> \<le> 9"
proof -
  let ?g = "rv (f32_mul GRAVITY dt)"
  have g: "0 \<le> ?g" "real n * ?g \<le> 16" using assms(1) unfolding flight_ok_def by blast+
  have "real k * ?g \<le> real n * ?g" using g(1) assms(2) by (intro mult_right_mono) simp_all
  moreover have "0 \<le> real k * ?g" using g(1) by simp
  ultimately show ?thesis using g(2) by (simp add: speed_at_def abs_le_iff)
qed

lemma height_bound:
  assumes "flight_ok dt n" "k \<le> n"
  shows "\<bar>height_at (rv dt) (rv (f32_mul GRAVITY dt)) k\<bar> \<le> 9 * (real k * rv dt)"
  using assms(2)
proof (induction k)
  case (Suc k)
  let ?h = "rv dt" and ?g = "rv (f32_mul GRAVITY dt)"
  have h: "0 \<le> ?h" using assms(1) unfolding flight_ok_def by blast
  have "\<bar>speed_at ?g (Suc k) * ?h\<bar> \<le> 9 * ?h"
    using mult_right_mono [OF speed_bound [OF assms(1) Suc.prems] h] h by (simp add: abs_mult)
  then show ?case using Suc by (simp add: height_step algebra_simps)
qed (simp add: height_at_def)

lemma arc_near:
  assumes "flight_ok dt n" "k \<le> n"
  shows "near (speed_at (rv (f32_mul GRAVITY dt)) k) (real k * ulp16) (snd (arc dt k))"
    and "near (height_at (rv dt) (rv (f32_mul GRAVITY dt)) k) (height_err (rv dt) k) (fst (arc dt k))"
proof -
  let ?h = "rv dt" and ?g = "rv (f32_mul GRAVITY dt)"
  have ok: "f32_is_finite dt" "0 \<le> ?h" "real n * ?h \<le> 4 / 5" "f32_is_finite (f32_mul GRAVITY dt)"
    "0 \<le> ?g" "?g \<le> 5" "real n * ?g \<le> 16" "n \<le> 1000" using assms(1) unfolding flight_ok_def by blast+
  have "near (speed_at ?g k) (real k * ulp16) (snd (arc dt k)) \<and>
      near (height_at ?h ?g k) (height_err ?h k) (fst (arc dt k))"
    using assms(2)
  proof (induction k)
    case 0
    then show ?case by (simp add: arc_def speed_at_def height_at_def height_err_def near_def jump_speed_rv)
  next
    case (Suc k)
    obtain y v where yv: "arc dt k = (y, v)" by (cases "arc dt k")
    have IH: "near (speed_at ?g k) (real k * ulp16) v" "near (height_at ?h ?g k) (height_err ?h k) y"
      using Suc by (simp_all add: yv)
    let ?v = "f32_sub v (f32_mul GRAVITY dt)"
    have k1: "real (Suc k) \<le> 1000" using Suc.prems ok(8) by simp
    have small: "real (Suc k) * ulp16 \<le> 1 / 1000" using k1 by (simp add: ulp16_def)
    have ulp: "0 \<le> ulp16" by (simp add: ulp16_def)
    have kh: "real (Suc k) * ?h \<le> 4 / 5"
      using mult_right_mono [of "real (Suc k)" "real n" ?h] ok(2,3) Suc.prems by simp
    have h1: "?h \<le> 4 / 5" using kh mult_right_mono [of 1 "real (Suc k)" ?h] ok(2) by simp
    have "real k * ulp16 \<le> real (Suc k) * ulp16" using ulp by (intro mult_right_mono) simp_all
    then have "near (speed_at ?g k - ?g) (real k * ulp16 + 0 + ulp16) ?v"
      using speed_bound [OF assms(1), of k] Suc.prems ok small
      by (intro near_sub [OF IH(1) near_exact [OF ok(4)]]) simp
    then have v: "near (speed_at ?g (Suc k)) (real (Suc k) * ulp16) ?v"
      by (simp add: speed_at_def algebra_simps)
    have "(\<bar>speed_at ?g (Suc k)\<bar> + real (Suc k) * ulp16) * ?h \<le> 10 * (4 / 5)"
      using speed_bound [OF assms(1) Suc.prems] small h1 ok(2) ulp by (intro mult_mono) simp_all
    then have m: "near (speed_at ?g (Suc k) * ?h) (real (Suc k) * ulp16 * ?h + ulp16) (f32_mul ?v dt)"
      by (intro near_scale [OF v ok(1,2)]) simp
    have "real (Suc k) * ulp16 * ?h \<le> 1 / 1000 * 1" using small h1 ok(2) ulp by (intro mult_mono) simp_all
    moreover have "height_err ?h k \<le> 3 / 1000"
    proof -
      have "?h * (real k * (real k + 1) / 2) \<le> 4 / 5 * 500"
      proof -
        have "?h * (real k * (real k + 1) / 2) = (real (Suc k) * ?h) * (real k / 2)" by (simp add: field_simps)
        also have "\<dots> \<le> 4 / 5 * 500" using kh k1 ok(2) by (intro mult_mono) simp_all
        finally show ?thesis .
      qed
      then have "2 * real k + ?h * (real k * (real k + 1) / 2) \<le> 2400" using k1 by simp
      then have "height_err ?h k \<le> 2400 * ulp16" unfolding height_err_def using ulp by (rule mult_right_mono)
      then show ?thesis by (simp add: ulp16_def)
    qed
    moreover have "\<bar>height_at ?h ?g k\<bar> + \<bar>speed_at ?g (Suc k) * ?h\<bar> \<le> 9 * (4 / 5)"
    proof -
      have "\<bar>speed_at ?g (Suc k) * ?h\<bar> \<le> 9 * ?h"
        using mult_right_mono [OF speed_bound [OF assms(1) Suc.prems] ok(2)] ok(2) by (simp add: abs_mult)
      then show ?thesis using height_bound [OF assms(1), of k] Suc.prems kh by (simp add: algebra_simps)
    qed
    moreover have "ulp16 \<le> 1 / 1000" by (simp add: ulp16_def)
    ultimately have "near (height_at ?h ?g k + speed_at ?g (Suc k) * ?h)
        (height_err ?h k + (real (Suc k) * ulp16 * ?h + ulp16) + ulp16) (f32_add y (f32_mul ?v dt))"
      by (intro near_add [OF IH(2) m]) linarith
    with v show ?case by (simp add: arc_Suc yv glide_def Let_def height_step err_step)
  qed
  then show "near (speed_at ?g k) (real k * ulp16) (snd (arc dt k))"
    "near (height_at ?h ?g k) (height_err ?h k) (fst (arc dt k))" by blast+
qed

section \<open>Take-off and landing\<close>

lemma vertical_at_air: "\<not> f32_le y 0 \<Longrightarrow> vertical_at dt jump (y, v) = (case glide dt (y, v) of (y, v) \<Rightarrow> land y v)"
  by (simp add: vertical_at_def glide_def Let_def)

lemma take_off: "vertical_at dt True (0, 0) = (case arc dt 1 of (y, v) \<Rightarrow> land y v)"
  by (simp add: vertical_at_def arc_def glide_def Let_def f32_le_rv)

text \<open>The state \<open>k\<close> steps after the take-off step, with the jump key held or released since.\<close>

definition flight :: "f32 \<Rightarrow> bool \<Rightarrow> nat \<Rightarrow> f32 \<times> f32" where
  "flight dt jump k = (vertical_at dt jump ^^ k) (vertical_at dt True (0, 0))"

lemma flight_Suc: "flight dt jump (Suc k) = vertical_at dt jump (flight dt jump k)"
  by (simp add: flight_def)

definition airborne :: "f32 \<Rightarrow> nat \<Rightarrow> bool" where
  "airborne dt k \<longleftrightarrow> (\<forall>i \<in> {1..k}. \<not> f32_le (fst (arc dt i)) 0)"

lemma airborne_Suc: "airborne dt (Suc k) \<longleftrightarrow> airborne dt k \<and> \<not> f32_le (fst (arc dt (Suc k))) 0"
  by (simp add: airborne_def atLeastAtMostSuc_conv conj_commute)

lemma flight_step:
  "airborne dt k \<Longrightarrow> flight dt jump k = (case arc dt (Suc k) of (y, v) \<Rightarrow> land y v)"
proof (induction k)
  case 0
  then show ?case using take_off by (simp add: flight_def)
next
  case (Suc k)
  then have "flight dt jump k = arc dt (Suc k)" "\<not> f32_le (fst (arc dt (Suc k))) 0"
    by (simp_all add: airborne_Suc land_def split: prod.splits)
  then show ?case
    by (cases "arc dt (Suc k)") (simp add: flight_Suc arc_Suc [of dt "Suc k"] vertical_at_air)
qed

lemma flight_air: "airborne dt (Suc k) \<Longrightarrow> flight dt jump k = arc dt (Suc k)"
  by (cases "arc dt (Suc k)") (simp add: airborne_Suc flight_step land_def)

lemma flight_lands:
  assumes "f32_le (fst (arc dt (Suc n))) 0"
  obtains l where "l \<le> n" "flight dt jump l = (0, 0)" "\<And>k. k < l \<Longrightarrow> airborne dt (Suc k)" "airborne dt l"
proof -
  define l where "l = (LEAST k. f32_le (fst (arc dt (Suc k))) 0)"
  have down: "f32_le (fst (arc dt (Suc l))) 0" and le: "l \<le> n"
    unfolding l_def by (rule LeastI [of _ n], fact assms) (rule Least_le, fact assms)
  have up: "\<not> f32_le (fst (arc dt i)) 0" if "1 \<le> i" "i \<le> l" for i
    using not_less_Least [of "i - 1" "\<lambda>k. f32_le (fst (arc dt (Suc k))) 0"] that by (simp add: l_def)
  then have air: "airborne dt k" if "k \<le> l" for k using that by (simp add: airborne_def)
  have "flight dt jump l = (0, 0)" using flight_step [OF air, of l] down by (cases "arc dt (Suc l)") (simp add: land_def)
  then show ?thesis using that le air by simp
qed

text \<open>On the ground a released player stays there, and a held one takes off again.\<close>

lemma flight_after_landing:
  assumes "flight dt jump l = (0, 0)"
  shows "vertical_at dt False (0, 0) = (0, 0) \<Longrightarrow> \<not> jump \<Longrightarrow> flight dt jump (l + k) = (0, 0)"
    and "jump \<Longrightarrow> flight dt jump (Suc l) = vertical_at dt True (0, 0)"
proof -
  show "flight dt jump (l + k) = (0, 0)" if "vertical_at dt False (0, 0) = (0, 0)" "\<not> jump"
    using that assms by (induction k) (simp_all add: flight_Suc)
  show "jump \<Longrightarrow> flight dt jump (Suc l) = vertical_at dt True (0, 0)" using assms by (simp add: flight_Suc)
qed

lemma flight_cases:
  assumes "f32_le (fst (arc dt n)) 0" "0 < n" "vertical_at dt False (0, 0) = (0, 0)"
  shows "flight dt False i = (0, 0) \<or> (airborne dt (Suc i) \<and> Suc i \<le> n \<and> flight dt False i = arc dt (Suc i))"
proof (cases "airborne dt (Suc i)")
  case True
  then have "\<not> n \<le> Suc i" using assms(1,2) by (auto simp: airborne_def)
  with True show ?thesis by (simp add: flight_air)
next
  case False
  then obtain j where j: "j \<le> i" "f32_le (fst (arc dt (Suc j))) 0"
    by (auto simp: airborne_def) (metis Suc_le_D Suc_le_mono)
  obtain l where "l \<le> j" "flight dt False l = (0, 0)" using flight_lands [OF j(2)] by metis
  then show ?thesis using flight_after_landing(1) [of dt False l "i - l"] assms(3) j(1) by simp
qed

text \<open>No height of a flight exceeds that of the parabola's vertex.\<close>

lemma height_below_vertex:
  assumes "0 < g" "0 \<le> h"
  shows "height_at h g k \<le> h * (49 / (2 * g))"
proof -
  have "49 / (2 * g) - (7 * real k - g * (real k * (real k + 1) / 2)) = (7 - g * real k)\<^sup>2 / (2 * g) + g * real k / 2"
    using assms(1) by (simp add: field_simps power2_eq_square)
  also have "0 \<le> (7 - g * real k)\<^sup>2 / (2 * g) + g * real k / 2" using assms(1) by simp
  finally show ?thesis unfolding height_at_def using assms(2) by (intro mult_left_mono) simp_all
qed

text \<open>While it rises, the player is in the air.\<close>

lemma rising_airborne:
  assumes "flight_ok dt n" "m \<le> n" "0 < rv dt" "rv (f32_mul GRAVITY dt) * (real m + 1) \<le> 8"
    and "(2 + rv dt * ((real m + 1) / 2)) * ulp16 < 3 * rv dt"
  shows "airborne dt m"
  unfolding airborne_def
proof
  fix i assume i: "i \<in> {1..m}"
  let ?h = "rv dt" and ?g = "rv (f32_mul GRAVITY dt)"
  have g: "0 \<le> ?g" using assms(1) unfolding flight_ok_def by blast
  have i': "1 \<le> real i" "real i \<le> real m" using i by simp_all
  have "?g * (real i + 1) \<le> ?g * (real m + 1)" using g i' by (intro mult_left_mono) simp_all
  then have "3 \<le> 7 - ?g * (real i + 1) / 2" using assms(4) by simp
  then have "real i * ?h * 3 \<le> real i * ?h * (7 - ?g * (real i + 1) / 2)" using assms(3) i' by (intro mult_left_mono) simp_all
  also have "\<dots> = height_at ?h ?g i" by (simp add: height_at_def field_simps)
  finally have high: "real i * (3 * ?h) \<le> height_at ?h ?g i" by simp
  have "?h * ((real i + 1) / 2) \<le> ?h * ((real m + 1) / 2)" using assms(3) i' by (intro mult_left_mono) simp_all
  then have "(2 + ?h * ((real i + 1) / 2)) * ulp16 \<le> (2 + ?h * ((real m + 1) / 2)) * ulp16"
    by (intro mult_right_mono) (simp_all add: ulp16_def)
  then have "(2 + ?h * ((real i + 1) / 2)) * ulp16 < 3 * ?h" using assms(5) by linarith
  then have "real i * ((2 + ?h * ((real i + 1) / 2)) * ulp16) < real i * (3 * ?h)" using i' by (intro mult_strict_left_mono) simp_all
  also have "real i * ((2 + ?h * ((real i + 1) / 2)) * ulp16) = height_err ?h i" by (simp add: height_err_def field_simps)
  finally have "height_err ?h i < height_at ?h ?g i" using high by linarith
  moreover have "near (height_at ?h ?g i) (height_err ?h i) (fst (arc dt i))"
    using arc_near(2) [OF assms(1), of i] i assms(2) by simp
  ultimately have "0 < rv (fst (arc dt i))" "f32_is_finite (fst (arc dt i))"
    using near_bounds(1) near_finite by fastforce+
  then show "\<not> f32_le (fst (arc dt i)) 0" by (simp add: f32_le_rv)
qed

end
