(* ===== verification/World_Tests.thy ===== *)
theory World_Tests
  imports Unit_Tests Ballistics World_Laws
begin

text \<open>The unit tests of \<^verbatim>\<open>world.rs\<close> hold of the model, for any cosine and sine within their range.\<close>

declare fv_add.simps(1) [simp del] fv_mul.simps(1) [simp del] fv_div.simps(1) [simp del] fv_rem.simps(1) [simp del]
  isqrt.simps [simp del]

section \<open>A world of one player\<close>

definition solo :: "player \<Rightarrow> u32 \<Rightarrow> nat world" where
  "solo p t = \<lparr>wd_players = [(PEER_A, p)], wd_next_player_id = 1, wd_tick = t\<rparr>"

definition player_one :: "trig \<Rightarrow> player" where
  "player_one trig = new_player trig 1 2 ''a''"

lemma solo_simps:
  "joined_world trig = solo (player_one trig) 0"
  "player_a (solo p t) = Some p"
  "world_step dt (solo p t) = solo (step_player dt p) (t + 1)"
  "apply_input PEER_A i (solo p t) = (if pi_sequence i < pl_last_sequence p then (False, solo p t) else (True, solo (take_input i p) t))"
  "applied i (solo p t) = (if pi_sequence i < pl_last_sequence p then solo p t else solo (take_input i p) t)"
  by (simp_all add: solo_def joined_world_def join_def world_new_def bt_empty_def bt_get_def player_one_def player_a_def
      world_player_def world_step_def bt_map_values_def apply_input_def applied_def)

lemma player_one_simps [simp]:
  "pl_id (player_one trig) = 1" "pl_position_y (player_one trig) = 0" "pl_vertical_velocity (player_one trig) = 0"
  "pl_look_yaw (player_one trig) = 0" "pl_look_pitch (player_one trig) = 0" "pl_last_sequence (player_one trig) = 0"
  "pl_jump_held (player_one trig) = False" "pl_move_x (player_one trig) = 0" "pl_move_z (player_one trig) = 0"
  by (simp_all add: player_one_def new_player_def split: prod.split)

lemma spawn_rv:
  assumes "trig_ok trig"
  shows "f32_is_finite (pl_position_x (player_one trig))" "\<bar>rv (pl_position_x (player_one trig))\<bar> \<le> 4"
    "f32_is_finite (pl_position_z (player_one trig))" "\<bar>rv (pl_position_z (player_one trig))\<bar> \<le> 4"
proof -
  let ?angle = "f32_mul (f32_of_nat (unat (1 :: u32))) SPAWN_ANGLE_STEP"
  have v: "f32_val SPAWN_RADIUS = Fin False (dy 12582912 127)" by (simp add: SPAWN_RADIUS_def feval)
  have r: "f32_is_finite SPAWN_RADIUS" "rv SPAWN_RADIUS = 3"
    unfolding rv_dy [OF v, simplified] by (simp_all add: f32_is_finite_def v)
  have prod: "f32_is_finite (f32_mul SPAWN_RADIUS c) \<and> \<bar>rv (f32_mul SPAWN_RADIUS c)\<bar> \<le> 4" if c: "in_unit c" for c
  proof -
    have "\<bar>units (f32_val c)\<bar> \<le> unit32" "f32_is_finite c" using c by (simp_all add: in_unit_iff f32_is_finite_def)
    then have "\<bar>rv c\<bar> \<le> 1" by (simp add: rv_def abs_divide pos_divide_le_eq del: of_int_abs flip: of_int_abs)
    then have "\<bar>rv SPAWN_RADIUS * rv c\<bar> \<le> 3" by (simp add: r(2) abs_mult)
    moreover from this have "near (rv SPAWN_RADIUS * rv c) ulp16 (f32_mul SPAWN_RADIUS c)"
      using r(1) \<open>f32_is_finite c\<close> by (intro mul_near) simp_all
    ultimately show ?thesis
      using near_abs [of "rv SPAWN_RADIUS * rv c" ulp16] near_finite by (fastforce simp: ulp16_def)
  qed
  have "in_unit (trig_cos trig ?angle)" "in_unit (trig_sin trig ?angle)"
    using assms spawn_angle_finite [of 1] by (simp_all add: trig_ok_def)
  from prod [OF this(1)] prod [OF this(2)]
  show "f32_is_finite (pl_position_x (player_one trig))" "\<bar>rv (pl_position_x (player_one trig))\<bar> \<le> 4"
    "f32_is_finite (pl_position_z (player_one trig))" "\<bar>rv (pl_position_z (player_one trig))\<bar> \<le> 4"
    by (simp_all add: player_one_def new_player_def spawn_position_def Let_def)
qed

lemma check_simps [simp]: "check True = Some ()" "(check b = Some ()) = b"
  by (simp_all add: check_def)

lemma close_rv:
  assumes "f32_is_finite a" "f32_is_finite b" "\<bar>rv a - rv b\<bar> \<le> 9 / 10000"
  shows "assert_close a b = Some ()"
proof -
  have d: "near (rv a - rv b) ulp16 (f32_sub a b)" using assms by (intro sub_near) simp_all
  have abs: "f32_is_finite (f32_abs (f32_sub a b))" "rv (f32_abs (f32_sub a b)) = \<bar>rv (f32_sub a b)\<bar>"
    using abs_rv [OF near_finite [OF d]] by simp_all
  have v: "f32_val (f32_lit 1 1000) = Fin False (dy 8589935 116)" by (simp add: feval)
  have lit: "f32_is_finite (f32_lit 1 1000)" "rv (f32_lit 1 1000) = 8589935 / 2 ^ 33"
    using rv_dy [OF v] by (simp_all add: f32_is_finite_def v)
  have "\<bar>rv (f32_sub a b)\<bar> \<le> 9 / 10000 + ulp16" using near_abs [OF d] assms(3) by linarith
  then have "\<bar>rv (f32_sub a b)\<bar> < rv (f32_lit 1 1000)" by (simp add: lit(2) ulp16_def)
  then show ?thesis by (simp add: assert_close_def close_to_def f32_lt_rv abs lit(1))
qed

lemma close_refl: "f32_is_finite a \<Longrightarrow> assert_close a a = Some ()"
  by (simp add: close_rv)

section \<open>Joining\<close>

lemma joining_passes: "joining_assigns_distinct_ids_and_colors trig = Some ()"
  by (simp add: joining_assigns_distinct_ids_and_colors_def join_def world_new_def bt_empty_def bt_get_def PEER_A_def PEER_B_def
      world_player_def player_count_def bt_len_def new_player_def palette_index_def PALETTE_def case_prod_unfold)

lemma joining_twice_passes: "joining_twice_from_one_peer_keeps_the_same_player trig = Some ()"
  by (simp add: joining_twice_from_one_peer_keeps_the_same_player_def solo_simps)
    (simp add: solo_def join_def bt_get_def player_count_def bt_len_def)

lemma never_joined_passes: "input_from_a_peer_that_never_joined_is_rejected trig = Some ()"
  by (simp add: input_from_a_peer_that_never_joined_is_rejected_def solo_simps)
    (simp add: solo_def apply_input_def bt_get_def PEER_A_def PEER_B_def)

lemma leaving_passes: "leaving_removes_the_player_from_the_snapshot trig = Some ()"
  by (simp add: leaving_removes_the_player_from_the_snapshot_def solo_simps)
    (simp add: solo_def join_def leave_def bt_get_def PEER_A_def PEER_B_def snapshot_def bt_values_def player_state_of_def
      new_player_def case_prod_unfold)

lemma snapshot_tick_passes: "snapshot_reports_the_current_tick trig = Some ()"
  by (simp add: snapshot_reports_the_current_tick_def solo_simps Let_def) (simp add: solo_def snapshot_def world_tick_def)

section \<open>Moving\<close>

lemma const_rv:
  "f32_is_finite f32_one" "rv f32_one = 1" "f32_is_finite MOVE_SPEED" "rv MOVE_SPEED = 5"
  "f32_is_finite PLANE_HALF_SIZE" "rv PLANE_HALF_SIZE = 10"
  "f32_is_finite (f32_lit 5 10)" "rv (f32_lit 5 10) = 1 / 2"
  "f32_is_finite (f32_lit 1 10)" "rv (f32_lit 1 10) = 13421773 / 2 ^ 27"
  "f32_is_finite (f32_lit 100 1)" "rv (f32_lit 100 1) = 100"
proof -
  have v: "f32_val f32_one = Fin False (dy 8388608 126)" "f32_val MOVE_SPEED = Fin False (dy 10485760 128)"
    "f32_val PLANE_HALF_SIZE = Fin False (dy 10485760 129)" "f32_val (f32_lit 5 10) = Fin False (dy 8388608 125)"
    "f32_val (f32_lit 1 10) = Fin False (dy 13421773 122)" "f32_val (f32_lit 100 1) = Fin False (dy 13107200 132)"
    by (simp_all add: f32_one_def MOVE_SPEED_def PLANE_HALF_SIZE_def feval)
  from rv_dy [OF v(1)] rv_dy [OF v(2)] rv_dy [OF v(3)] rv_dy [OF v(4)] rv_dy [OF v(5)] rv_dy [OF v(6)]
  show "rv f32_one = 1" "rv MOVE_SPEED = 5" "rv PLANE_HALF_SIZE = 10" "rv (f32_lit 5 10) = 1 / 2"
    "rv (f32_lit 1 10) = 13421773 / 2 ^ 27" "rv (f32_lit 100 1) = 100" by simp_all
  show "f32_is_finite f32_one" "f32_is_finite MOVE_SPEED" "f32_is_finite PLANE_HALF_SIZE" "f32_is_finite (f32_lit 5 10)"
    "f32_is_finite (f32_lit 1 10)" "f32_is_finite (f32_lit 100 1)" by (simp_all add: f32_is_finite_def v)
qed

lemma sqrt_one: "f32_sqrt f32_one = f32_one"
proof -
  have "round_sqrt 24 (unit32 * unit32) = unit32"
    by (intro antisym round_sqrt_le round_sqrt_ge) simp_all
  then show ?thesis
    using f32_of_val [of f32_one] by (simp add: f32_sqrt_def val_one funit_F32 fv_mk_small)
qed

lemma axis_simps:
  "axis f32_one = f32_one" "axis (f32_neg f32_one) = f32_neg f32_one" "axis 0 = 0" "axis (f32_of NaN) = 0"
  "axis (f32_of (Infty s)) = 0"
  by (simp_all add: axis_def clamp_rv const_rv) (simp_all add: f32_is_finite_def)

lemma one_bits: "f32_one = 0x3F800000"
  by (simp add: f32_one_def feval)

lemma direction_simps:
  "bounded_direction f32_one 0 = (f32_one, 0)" "bounded_direction (f32_neg f32_one) 0 = (f32_neg f32_one, 0)"
  "bounded_direction 0 0 = (0, 0)" "bounded_direction (f32_of NaN) (f32_of (Infty s)) = (0, 0)"
proof -
  have "f32_add (f32_mul f32_one f32_one) (f32_mul 0 0) = f32_one"
    "f32_add (f32_mul (f32_neg f32_one) (f32_neg f32_one)) (f32_mul 0 0) = f32_one"
    "f32_add (f32_mul 0 0) (f32_mul 0 0) = 0"
    by (simp_all add: one_bits feval)
  moreover have "f32_sqrt 0 = 0" by (simp add: f32_sqrt_def feval)
  ultimately show "bounded_direction f32_one 0 = (f32_one, 0)" "bounded_direction (f32_neg f32_one) 0 = (f32_neg f32_one, 0)"
    "bounded_direction 0 0 = (0, 0)" "bounded_direction (f32_of NaN) (f32_of (Infty s)) = (0, 0)"
    by (simp_all add: bounded_direction_def axis_simps sqrt_one f32_lt_rv const_rv Let_def)
qed

text \<open>One step on an axis, from where a player can spawn.\<close>

lemma move_axis_near:
  assumes x: "f32_is_finite x" "\<bar>rv x\<bar> \<le> 4" and d: "near a e (f32_mul (f32_mul move MOVE_SPEED) dt)" "\<bar>a\<bar> + e \<le> 5"
  shows "move_axis dt x move = f32_add x (f32_mul (f32_mul move MOVE_SPEED) dt)"
    "near (rv x + a) (e + ulp16) (move_axis dt x move)"
proof -
  have n: "near (rv x + a) (0 + e + ulp16) (f32_add x (f32_mul (f32_mul move MOVE_SPEED) dt))"
    using x d by (intro near_add near_exact) simp_all
  have "\<bar>rv (f32_add x (f32_mul (f32_mul move MOVE_SPEED) dt))\<bar> \<le> 10"
    using near_abs [OF n] x(2) d(2) by (simp add: ulp16_def)
  then show eq: "move_axis dt x move = f32_add x (f32_mul (f32_mul move MOVE_SPEED) dt)"
    using near_finite [OF n] by (auto simp: move_axis_def clamp_rv const_rv)
  show "near (rv x + a) (e + ulp16) (move_axis dt x move)" using n by (simp add: eq)
qed

lemma step_position:
  "pl_position_x (step_player dt p) = move_axis dt (pl_position_x p) (pl_move_x p)"
  "pl_position_z (step_player dt p) = move_axis dt (pl_position_z p) (pl_move_z p)"
  by (simp_all add: step_player_def Let_def)

lemma take_moves:
  "pl_move_x (take_input i p) = fst (bounded_direction (pi_move_x i) (pi_move_z i))"
  "pl_move_z (take_input i p) = snd (bounded_direction (pi_move_x i) (pi_move_z i))"
  "pl_position_x (take_input i p) = pl_position_x p" "pl_position_z (take_input i p) = pl_position_z p"
  "pl_position_y (take_input i p) = pl_position_y p" "pl_vertical_velocity (take_input i p) = pl_vertical_velocity p"
  "pl_jump_held (take_input i p) = pi_jump i" "pl_last_sequence (take_input i p) = pi_sequence i"
  by (simp_all add: take_input_def Let_def split: prod.split)

lemma input_simps:
  "pi_sequence (test_input n x z) = n" "pi_move_x (test_input n x z) = x" "pi_move_z (test_input n x z) = z"
  "pi_jump (test_input n x z) = False" "pi_sequence (jumping n) = n" "pi_move_x (jumping n) = 0" "pi_move_z (jumping n) = 0"
  "pi_jump (jumping n)" "pi_sequence (looking n y p) = n" "pi_look_yaw (looking n y p) = y" "pi_look_pitch (looking n y p) = p"
  by (simp_all add: test_input_def jumping_def looking_def default_player_input_def)

lemma input_moves_passes:
  assumes "trig_ok trig"
  shows "input_moves_the_player_at_move_speed trig = Some ()"
proof -
  note spawn = spawn_rv [OF assms]
  let ?x = "pl_position_x (player_one trig)" and ?d = "f32_mul (f32_mul f32_one MOVE_SPEED) (f32_lit 5 10)"
  have eq: "f32_mul f32_one MOVE_SPEED = MOVE_SPEED" by (simp add: one_bits MOVE_SPEED_def feval)
  have d: "near (5 * (1 / 2)) ulp16 ?d"
    using mul_near [of MOVE_SPEED "f32_lit 5 10"] by (simp add: eq const_rv)
  note move = move_axis_near [OF spawn(1,2) d]
  have "f32_is_finite (move_axis (f32_lit 5 10) ?x f32_one)" using move(2) near_finite by (simp add: ulp16_def)
  then have "assert_close (move_axis (f32_lit 5 10) ?x f32_one) (f32_add ?x (f32_mul MOVE_SPEED (f32_lit 5 10))) = Some ()"
    using move(1) by (simp add: eq close_refl ulp16_def)
  then show ?thesis
    by (simp add: input_moves_the_player_at_move_speed_def solo_simps input_simps step_position take_moves direction_simps)
qed

text \<open>The diagonal: the square root of two, and the direction.\<close>

lemma isqrt_eq: "0 \<le> r \<Longrightarrow> r * r \<le> n \<Longrightarrow> n < (r + 1) * (r + 1) \<Longrightarrow> isqrt n = r"
proof -
  assume r: "0 \<le> r" "r * r \<le> n" "n < (r + 1) * (r + 1)"
  then have "0 \<le> n" using zero_le_square [of r] by linarith
  note spec = isqrt_spec [OF this]
  have "isqrt n * isqrt n < (r + 1) * (r + 1)" "r * r < (isqrt n + 1) * (isqrt n + 1)" using spec r by linarith+
  then have "isqrt n < r + 1" "r < isqrt n + 1"
    using r(1) isqrt_nonneg [of n] square_less_imp [of "r + 1" "isqrt n"] square_less_imp [of "isqrt n + 1" r] by auto
  then show ?thesis by simp
qed

lemma sqrt_two: "f32_sqrt 0x40000000 = 0x3FB504F3"
proof -
  have "isqrt (2 ^ 299) = 1009216521945237994791381332037992686769626072" by (rule isqrt_eq) simp_all
  moreover have "isqrt (2 ^ 47) = 11863283" by (rule isqrt_eq) simp_all
  ultimately have r: "round_sqrt 24 (2 ^ 299) = dy 11863283 126"
    by (simp add: round_sqrt_def Let_def dy_def)
  have "f32_val 0x40000000 = Fin False (2 ^ 150)" by (simp add: feval dy_def)
  then have "f32_sqrt 0x40000000 = f32_of (fv_mk F32 False (round_sqrt 24 (2 ^ 299)))" by (simp add: f32_sqrt_def funit_def)
  also have "\<dots> = 0x3FB504F3" unfolding r by (simp add: fv_mk_mk_dy feval)
  finally show ?thesis .
qed

lemma diagonal:
  "bounded_direction f32_one f32_one = (0x3F3504F3, 0x3F3504F3)"
  "bounded_direction f32_one (f32_neg f32_one) = (0x3F3504F3, 0xBF3504F3)"
proof -
  have "f32_add (f32_mul f32_one f32_one) (f32_mul f32_one f32_one) = 0x40000000"
    "f32_add (f32_mul f32_one f32_one) (f32_mul (f32_neg f32_one) (f32_neg f32_one)) = 0x40000000"
    "f32_lt f32_one 0x3FB504F3" "f32_div f32_one 0x3FB504F3 = 0x3F3504F3" "f32_div (f32_neg f32_one) 0x3FB504F3 = 0xBF3504F3"
    by (simp_all add: one_bits feval)
  then show "bounded_direction f32_one f32_one = (0x3F3504F3, 0x3F3504F3)"
    "bounded_direction f32_one (f32_neg f32_one) = (0x3F3504F3, 0xBF3504F3)"
    by (simp_all add: bounded_direction_def axis_simps sqrt_two Let_def)
qed

lemma near_square:
  assumes "near x e a" "\<bar>x\<bar> + e \<le> 1" "0 \<le> e"
  shows "near (x * x) (2 * e + ulp16) (f32_mul a a)"
proof -
  have a: "f32_is_finite a" "\<bar>rv a - x\<bar> \<le> e" "\<bar>rv a\<bar> \<le> 1"
    using assms near_abs [OF assms(1)] by (simp_all add: near_def)
  have "\<bar>rv a * rv a\<bar> \<le> 1 * 1" using a(3) mult_mono [of "\<bar>rv a\<bar>" 1 "\<bar>rv a\<bar>" 1] by (simp add: abs_mult)
  then have m: "near (rv a * rv a) ulp16 (f32_mul a a)" using a(1) by (intro mul_near) simp_all
  have "\<bar>rv a * rv a - x * x\<bar> = \<bar>rv a - x\<bar> * \<bar>rv a + x\<bar>" by (simp add: algebra_simps flip: abs_mult)
  also have "\<dots> \<le> e * 2" using a assms by (intro mult_mono) simp_all
  finally show ?thesis by (intro near_weaken [OF m]) simp
qed

lemma sqrt_quarter: "0 \<le> x \<Longrightarrow> \<bar>sqrt x - 1 / 2\<bar> \<le> 2 * \<bar>x - 1 / 4\<bar>"
proof -
  assume x: "0 \<le> x"
  have "x - 1 / 4 = (sqrt x - 1 / 2) * (sqrt x + 1 / 2)" using x by (simp add: algebra_simps)
  then have "\<bar>x - 1 / 4\<bar> = \<bar>sqrt x - 1 / 2\<bar> * (sqrt x + 1 / 2)" using x by (simp add: abs_mult)
  moreover have "\<bar>sqrt x - 1 / 2\<bar> * (1 / 2) \<le> \<bar>sqrt x - 1 / 2\<bar> * (sqrt x + 1 / 2)"
    using x by (intro mult_left_mono) simp_all
  ultimately show ?thesis by simp
qed

lemma half_near:
  assumes "near (1 / 4) e a" "e \<le> 1 / 4"
  shows "near (1 / 2) (2 * e + ulp16) (f32_sqrt a)"
proof -
  have a: "f32_is_finite a" "\<bar>rv a - 1 / 4\<bar> \<le> e" using assms(1) by (simp_all add: near_def)
  then have range: "0 \<le> rv a" "rv a \<le> 255" using assms(2) by linarith+
  have "\<bar>sqrt (rv a) - 1 / 2\<bar> \<le> 2 * e" by (rule order_trans [OF sqrt_quarter [OF range(1)]]) (use a(2) in simp)
  then show ?thesis by (intro near_weaken [OF sqrt_near [OF a(1) range]]) simp
qed

lemma diagonal_passes:
  assumes "trig_ok trig"
  shows "diagonal_input_is_normalized trig = Some ()"
proof -
  let ?dt = "f32_lit 1 10" and ?m = "0x3F3504F3 :: f32"
  have v: "f32_val (f32_mul (f32_mul ?m MOVE_SPEED) ?dt) = Fin False (dy 11863283 124)"
    by (simp add: MOVE_SPEED_def feval)
  define b where "b = (11863283 / 2 ^ 25 :: real)"
  have d: "near b 0 (f32_mul (f32_mul ?m MOVE_SPEED) ?dt)"
    using rv_dy [OF v] by (simp add: near_def f32_is_finite_def v b_def)
  have moved: "near b (2 * ulp16) (f32_sub (move_axis ?dt x ?m) x)" if x: "f32_is_finite x" "\<bar>rv x\<bar> \<le> 4" for x
  proof -
    have "near (rv x + b) (0 + ulp16) (move_axis ?dt x ?m)"
      using d by (intro move_axis_near(2) [OF x]) (simp_all add: b_def)
    then have "near (rv x + b - rv x) (0 + ulp16 + 0 + ulp16) (f32_sub (move_axis ?dt x ?m) x)"
      using x by (intro near_sub near_exact) (simp_all add: b_def ulp16_def)
    then show ?thesis by simp
  qed
  let ?x = "pl_position_x (player_one trig)" and ?z = "pl_position_z (player_one trig)"
  let ?dx = "f32_sub (move_axis ?dt ?x ?m) ?x" and ?dz = "f32_sub (move_axis ?dt ?z ?m) ?z"
  let ?sum = "f32_add (f32_mul ?dx ?dx) (f32_mul ?dz ?dz)"
  note spawn = spawn_rv [OF assms]
  have sq: "near (b * b) (2 * (2 * ulp16) + ulp16) (f32_mul ?dx ?dx)" "near (b * b) (2 * (2 * ulp16) + ulp16) (f32_mul ?dz ?dz)"
    using near_square [OF moved [OF spawn(1,2)]] near_square [OF moved [OF spawn(3,4)]] by (simp_all add: b_def ulp16_def)
  have "near (1 / 4) (1 / 10000) ?sum"
    by (intro near_weaken [OF near_add [OF sq]]) (simp_all add: b_def ulp16_def)
  from half_near [OF this] have travelled: "near (1 / 2) (3 / 10000) (f32_sqrt ?sum)"
    by (rule near_weaken) (simp_all add: ulp16_def)
  have "f32_mul MOVE_SPEED ?dt = 0x3F000000" by (simp add: MOVE_SPEED_def feval)
  moreover have "f32_val 0x3F000000 = Fin False (dy 8388608 125)" by (simp add: feval)
  ultimately have speed: "f32_is_finite (f32_mul MOVE_SPEED ?dt)" "rv (f32_mul MOVE_SPEED ?dt) = 1 / 2"
    using rv_dy [of "0x3F000000" False 8388608 125] by (simp_all add: f32_is_finite_def)
  have "\<bar>rv (f32_sqrt ?sum) - rv (f32_mul MOVE_SPEED ?dt)\<bar> \<le> 9 / 10000"
    unfolding speed(2) by (rule order_trans [OF conjunct2 [OF travelled [unfolded near_def]]]) simp
  then have "assert_close (f32_sqrt ?sum) (f32_mul MOVE_SPEED ?dt) = Some ()"
    by (rule close_rv [OF near_finite [OF travelled] speed(1)])
  then show ?thesis
    by (simp add: diagonal_input_is_normalized_def solo_simps input_simps step_position take_moves diagonal Let_def)
qed

text \<open>A sum beyond the plane is cut off at its edge.\<close>

lemma add_far:
  assumes "f32_is_finite a" "f32_is_finite b"
  shows "16 \<le> rv a + rv b \<Longrightarrow> f32_clamp (f32_add a b) (f32_neg PLANE_HALF_SIZE) PLANE_HALF_SIZE = PLANE_HALF_SIZE"
    and "rv a + rv b \<le> - 16 \<Longrightarrow> f32_clamp (f32_add a b) (f32_neg PLANE_HALF_SIZE) PLANE_HALF_SIZE = f32_neg PLANE_HALF_SIZE"
proof -
  let ?v = "units (f32_val a) + units (f32_val b)"
  have fin: "is_fin (f32_val a)" "is_fin (f32_val b)" using assms by (simp_all add: f32_is_finite_def)
  have key: "fv_key F32 (f32_val (f32_add a b)) = rnd_key F32 ?v 1" "f32_val (f32_add a b) \<noteq> NaN"
    using fin by (simp_all add: f32_val_add fv_add_key fv_add_not_NaN is_fin_not_NaN)
  have plane: "f32_val PLANE_HALF_SIZE = Fin False (dy 10485760 129)" by (simp add: PLANE_HALF_SIZE_def feval)
  have v: "of_int ?v = (rv a + rv b) * of_int unit32" by (simp add: rv_def field_simps)
  have less: "dy 10485760 129 < 2 ^ 24 * grid" "- (2 ^ 24 * grid) < - dy 10485760 129" by (simp_all add: dy_def grid_def)
  show "f32_clamp (f32_add a b) (f32_neg PLANE_HALF_SIZE) PLANE_HALF_SIZE = PLANE_HALF_SIZE" if "16 \<le> rv a + rv b"
  proof -
    have "16 * of_int unit32 \<le> (of_int ?v :: real)" unfolding v using that by (intro mult_right_mono) simp_all
    then have "of_int (16 * unit32) \<le> (of_int ?v :: real)" by simp
    then have "2 ^ 24 * grid \<le> ?v" by (simp only: of_int_le_iff unit32_grid(1))
    then have "2 ^ 24 * grid \<le> rnd_key F32 ?v 1" by (intro rnd_key_ge key_ok_grid) simp_all
    then have "dy 10485760 129 < rnd_key F32 ?v 1" "\<not> rnd_key F32 ?v 1 < - dy 10485760 129"
      using less by (simp_all add: grid_def dy_def)
    then show ?thesis by (simp add: f32_clamp_def f32_lt_def fv_lt_def key plane)
  qed
  show "f32_clamp (f32_add a b) (f32_neg PLANE_HALF_SIZE) PLANE_HALF_SIZE = f32_neg PLANE_HALF_SIZE" if "rv a + rv b \<le> - 16"
  proof -
    have "(of_int ?v :: real) \<le> - 16 * of_int unit32" unfolding v using that by (intro mult_right_mono) simp_all
    then have "(of_int ?v :: real) \<le> of_int (- (16 * unit32))" by simp
    then have "?v \<le> - (2 ^ 24) * grid" by (simp only: of_int_le_iff unit32_grid(1) mult_minus_left)
    then have "rnd_key F32 ?v 1 \<le> - (2 ^ 24) * grid" by (intro rnd_key_le key_ok_grid) simp_all
    then have "rnd_key F32 ?v 1 < - dy 10485760 129" using less by (simp add: grid_def dy_def)
    moreover have "\<not> dy 10485760 129 < - dy 10485760 129" by (simp add: dy_def)
    ultimately show ?thesis by (simp add: f32_clamp_def f32_lt_def fv_lt_def key plane)
  qed
qed

lemma clamped_passes:
  assumes "trig_ok trig"
  shows "position_is_clamped_to_the_plane trig = Some ()"
proof -
  let ?dt = "f32_lit 100 1"
  have v: "f32_val (f32_mul (f32_mul 0x3F3504F3 MOVE_SPEED) ?dt) = Fin False (dy 11585238 134)"
    "f32_val (f32_mul (f32_mul 0xBF3504F3 MOVE_SPEED) ?dt) = Fin True (dy 11585238 134)"
    by (simp_all add: MOVE_SPEED_def feval)
  have d: "f32_is_finite (f32_mul (f32_mul 0x3F3504F3 MOVE_SPEED) ?dt)" "f32_is_finite (f32_mul (f32_mul 0xBF3504F3 MOVE_SPEED) ?dt)"
    "350 \<le> rv (f32_mul (f32_mul 0x3F3504F3 MOVE_SPEED) ?dt)" "rv (f32_mul (f32_mul 0xBF3504F3 MOVE_SPEED) ?dt) \<le> - 350"
    using rv_dy [OF v(1)] rv_dy [OF v(2)] by (simp_all add: f32_is_finite_def v)
  note spawn = spawn_rv [OF assms]
  have "move_axis ?dt (pl_position_x (player_one trig)) 0x3F3504F3 = PLANE_HALF_SIZE"
    "move_axis ?dt (pl_position_z (player_one trig)) 0xBF3504F3 = f32_neg PLANE_HALF_SIZE"
    unfolding move_axis_def using spawn d by (intro add_far; linarith)+
  then show ?thesis
    by (simp add: position_is_clamped_to_the_plane_def solo_simps input_simps step_position take_moves diagonal close_refl const_rv)
qed

text \<open>A player that does not move stays exactly where it is.\<close>

lemma still_near:
  assumes "f32_is_finite x" "\<bar>rv x\<bar> \<le> 4"
  shows "assert_close (move_axis f32_one x 0) x = Some ()"
proof -
  have "f32_mul (f32_mul 0 MOVE_SPEED) f32_one = 0" by (simp add: MOVE_SPEED_def one_bits feval)
  then have "near 0 0 (f32_mul (f32_mul 0 MOVE_SPEED) f32_one)" by (simp add: near_def)
  from move_axis_near(2) [OF assms this] show ?thesis
    using assms(1) by (intro close_rv) (simp_all add: near_def ulp16_def)
qed

lemma non_finite_passes: "trig_ok trig \<Longrightarrow> non_finite_input_does_not_move_the_player trig = Some ()"
  using spawn_rv [of trig]
  by (simp add: non_finite_input_does_not_move_the_player_def solo_simps input_simps step_position take_moves direction_simps still_near)

lemma stale_passes:
  assumes "trig_ok trig"
  shows "stale_input_is_ignored trig = Some ()"
proof -
  note spawn = spawn_rv [OF assms]
  let ?x = "pl_position_x (player_one trig)" and ?dt = "f32_lit 1 10"
  have v: "f32_val (f32_mul (f32_mul f32_one MOVE_SPEED) ?dt) = Fin False (dy 8388608 125)"
    by (simp add: MOVE_SPEED_def one_bits feval)
  then have "near (1 / 2) 0 (f32_mul (f32_mul f32_one MOVE_SPEED) ?dt)"
    using rv_dy [OF v] by (simp add: near_def f32_is_finite_def)
  from move_axis_near(2) [OF spawn(1,2) this] have "near (rv ?x + 1 / 2) (0 + ulp16) (move_axis ?dt ?x f32_one)" by simp
  then have "rv ?x < rv (move_axis ?dt ?x f32_one)" "f32_is_finite (move_axis ?dt ?x f32_one)"
    using near_bounds(1) near_finite by (fastforce simp: ulp16_def)+
  then have "f32_lt ?x (move_axis ?dt ?x f32_one)" using spawn(1) by (simp add: f32_lt_rv)
  then show ?thesis
    by (simp add: stale_input_is_ignored_def solo_simps input_simps step_position take_moves direction_simps)
qed

section \<open>Looking\<close>

lemma take_looks:
  "pl_look_yaw (take_input i p) = (if f32_is_finite (pi_look_yaw i) then wrap_angle (pi_look_yaw i) else pl_look_yaw p)"
  "pl_look_pitch (take_input i p) = (if f32_is_finite (pi_look_pitch i)
     then f32_clamp (pi_look_pitch i) (f32_neg MAX_LOOK_PITCH) MAX_LOOK_PITCH else pl_look_pitch p)"
  by (simp_all add: take_input_def Let_def split: prod.split)

lemma step_looks: "pl_look_yaw (step_player dt p) = pl_look_yaw p" "pl_look_pitch (step_player dt p) = pl_look_pitch p"
  by (simp_all add: step_player_def Let_def)

lemma look_bits: "f32_lit 5 10 = 0x3F000000" "f32_lit 3 1 = 0x40400000" "MAX_LOOK_PITCH = 0x3FC00000"
  "f32_neg (f32_lit 25 100) = 0xBE800000" "f32_neg f32_one = 0xBF800000" "f32_lit 75 100 = 0x3F400000"
  "f32_lit 1 1000 = 0x3A83126F" "f32_add f32_TAU 0x3F000000 = 0x40D90FDB"
  by (simp_all add: MAX_LOOK_PITCH_def one_bits feval feval_check(2))

lemma look_finite: "f32_is_finite 0x40D90FDB" "f32_is_finite 0x40400000" "f32_is_finite 0x3F000000" "f32_is_finite 0xBE800000"
  "f32_is_finite 0xBF800000" "f32_is_finite 0x3F400000" "f32_is_finite 0x3FC00000" "\<not> f32_is_finite (f32_of NaN)" "\<not> f32_is_finite (f32_of (Infty s))"
  by (simp_all add: feval)

lemma wrap_bits: "wrap_angle 0x40D90FDB = 0x3EFFFFF8" "wrap_angle 0x3F000000 = 0x3F000000" "wrap_angle 0xBF800000 = 0xBF800000"
  by (simp_all add: wrap_angle_def feval_check(1,2) feval)

lemma close_bits: "assert_close 0x3EFFFFF8 0x3F000000 = Some ()" "assert_close a a = Some () \<longleftrightarrow> close_to a a"
  by (simp_all add: assert_close_def close_to_def look_bits feval)

lemma clamp_bits:
  "f32_clamp 0x40400000 (f32_neg 0x3FC00000) 0x3FC00000 = 0x3FC00000"
  "f32_clamp 0xBE800000 (f32_neg 0x3FC00000) 0x3FC00000 = 0xBE800000"
  "f32_clamp 0x3F400000 (f32_neg 0x3FC00000) 0x3FC00000 = 0x3F400000"
  by (simp_all add: feval)

lemma look_passes: "look_yaw_is_wrapped_and_pitch_is_clamped trig = Some ()"
  by (simp add: look_yaw_is_wrapped_and_pitch_is_clamped_def solo_simps input_simps take_looks look_bits look_finite wrap_bits
      clamp_bits close_bits(1) close_refl)

lemma non_finite_look_passes: "non_finite_look_keeps_the_previous_direction trig = Some ()"
  by (simp add: non_finite_look_keeps_the_previous_direction_def solo_simps input_simps take_moves take_looks look_bits look_finite
      wrap_bits clamp_bits close_refl)

end
