(* ===== verification/Jump_Tests.thy ===== *)
theory Jump_Tests
  imports World_Tests
begin

text \<open>The unit tests of \<^verbatim>\<open>world.rs\<close> about jumps: the trajectories of \<^theory_text>\<open>Ballistics\<close> at the steps of the tests.\<close>

declare fv_add.simps(1) [simp del] fv_mul.simps(1) [simp del] fv_div.simps(1) [simp del] fv_rem.simps(1) [simp del]

lemma vertical_fields: "pl_position_y p = fst (vertical p)" "pl_vertical_velocity p = snd (vertical p)"
  "is_grounded p = f32_le (fst (vertical p)) 0"
  by (simp_all add: vertical_def is_grounded_def)

lemma player_one_vertical: "vertical (player_one trig) = (0, 0)" "vertical (take_input i p) = vertical p"
  by (simp_all add: vertical_def take_moves)

definition settle :: "f32 \<Rightarrow> f32 \<Rightarrow> f32 \<Rightarrow> f32 \<times> f32" where
  "settle dt y v = land (f32_add y (f32_mul v dt)) v"

lemma vertical_at_eval:
  "vertical_at dt jump (y, v) = settle dt y (f32_sub (if f32_le y 0 \<and> jump then 0x40E00000 else v) (f32_mul GRAVITY dt))"
  by (simp add: vertical_at_def settle_def JUMP_SPEED_bits Let_def)

section \<open>One or two steps\<close>

lemma gravity_bits:
  "f32_mul GRAVITY 0x3F800000 = 0x41A00000" "f32_mul GRAVITY 0x3D4CCCCD = 0x3F800000" "f32_mul GRAVITY 0x3DCCCCCD = 0x40000000"
  "f32_mul GRAVITY 0x3A83126F = 0x3CA3D70B" "f32_mul GRAVITY 0x3C23D70A = 0x3E4CCCCC"
  by (simp_all add: GRAVITY_def feval)

lemma dt_bits: "f32_lit 5 100 = 0x3D4CCCCD" "f32_lit 1 10 = 0x3DCCCCCD" "f32_lit 1 1000 = 0x3A83126F" "f32_lit 1 100 = 0x3C23D70A"
  by (simp_all add: feval)

lemma vertical_bits:
  "vertical_at 0x3F800000 False (0, 0) = (0, 0)" "vertical_at 0x3D4CCCCD True (0, 0) = (0x3E99999A, 0x40C00000)"
  "vertical_at 0x3DCCCCCD True (0, 0) = (0x3F000000, 0x40A00000)"
  "vertical_at 0x3DCCCCCD True (0x3F000000, 0x40A00000) = (0x3F4CCCCD, 0x40400000)"
  "vertical_at 0x3A83126F False (0, 0) = (0, 0)" "vertical_at 0x3C23D70A False (0, 0) = (0, 0)"
  unfolding vertical_at_eval gravity_bits by (simp_all add: settle_def land_def feval)

lemma step_vertical: "vertical (step_player dt p) = vertical_at dt (pl_jump_held p) (vertical p)"
  "pl_jump_held (step_player dt p) = pl_jump_held p" "pl_last_sequence (step_player dt p) = pl_last_sequence p"
  by (rule vertical_step_at) (simp_all add: step_player_def Let_def)

lemmas jump_simps = solo_simps input_simps vertical_fields player_one_vertical step_vertical take_moves dt_bits one_bits
  vertical_bits

lemma positive_bits: "f32_lt 0 0x3E99999A" "f32_le 0 0" "f32_neg 0x3F800000 = 0xBF800000"
  by (simp_all add: feval)

lemma stands_passes: "a_player_stands_on_the_plane_without_jumping trig = Some ()"
  by (simp add: a_player_stands_on_the_plane_without_jumping_def jump_simps f32_eq_def positive_bits)

lemma launch_passes: "holding_jump_on_the_ground_launches_the_player trig = Some ()"
  by (simp add: holding_jump_on_the_ground_launches_the_player_def jump_simps positive_bits)

lemma air_speed_passes: "holding_jump_in_the_air_does_not_add_speed trig = Some ()"
proof -
  have "f32_sub 0x40A00000 (f32_mul GRAVITY 0x3DCCCCCD) = 0x40400000" unfolding gravity_bits by (simp add: feval)
  then show ?thesis
    by (simp add: holding_jump_in_the_air_does_not_add_speed_def jump_simps close_refl look_finite)
qed

lemma snapshot_passes: "snapshot_carries_height_and_look_direction trig = Some ()"
  by (simp add: snapshot_carries_height_and_look_direction_def jump_simps Let_def)
    (simp add: snapshot_def solo_def bt_values_def player_state_of_def jump_simps take_looks step_looks look_bits look_finite
      wrap_bits clamp_bits close_refl positive_bits)

section \<open>Loops\<close>

lemma repeat_body_rule:
  assumes "\<And>k s. k < n \<Longrightarrow> I k s \<Longrightarrow> \<exists>s'. f s = Some s' \<and> I (Suc k) s'" "I 0 s"
  shows "\<exists>s'. repeat_body n f s = Some s' \<and> I n s'"
proof -
  have "\<exists>s'. repeat_body m f s = Some s' \<and> I n s'" if "m + k = n" "I k s" for m k s
    using that
  proof (induction m arbitrary: k s)
    case (Suc m)
    then obtain s' where "f s = Some s'" "I (Suc k) s'" using assms(1) [of k s] by auto
    then show ?case using Suc.IH [of "Suc k" s'] Suc.prems by simp
  qed simp
  from this [of n 0] assms(2) show ?thesis by simp
qed

text \<open>The world \<open>k\<close> steps after a take-off, and the flights of the tests.\<close>

definition flying :: "f32 \<Rightarrow> bool \<Rightarrow> nat \<Rightarrow> nat world \<Rightarrow> bool" where
  "flying dt jump k w \<longleftrightarrow> (\<exists>p t. w = solo p t \<and> pl_jump_held p = jump \<and> vertical p = flight dt jump k)"

lemma flying_step: "flying dt jump k w \<Longrightarrow> flying dt jump (Suc k) (world_step dt w)"
proof -
  assume "flying dt jump k w"
  then obtain p t where "w = solo p t" "pl_jump_held p = jump" "vertical p = flight dt jump k" by (auto simp: flying_def)
  then show ?thesis
    unfolding flying_def by (intro exI [of _ "step_player dt p"] exI [of _ "t + 1"]) (simp add: solo_simps step_vertical flight_Suc)
qed

lemma flying_player: "flying dt jump k w \<Longrightarrow> \<exists>p. player_a w = Some p \<and> vertical p = flight dt jump k"
  by (auto simp: flying_def solo_simps)

lemma released_flying:
  "flying dt False 0 (applied (test_input 2 0 0) (world_step dt (applied (jumping 1) (joined_world trig))))"
proof -
  let ?p = "take_input (test_input 2 0 0) (step_player dt (take_input (jumping 1) (player_one trig)))"
  have "applied (test_input 2 0 0) (world_step dt (applied (jumping 1) (joined_world trig))) = solo ?p 1"
    by (simp add: solo_simps input_simps take_moves step_vertical)
  moreover have "pl_jump_held ?p = False" "vertical ?p = flight dt False 0"
    by (simp_all add: take_moves input_simps player_one_vertical step_vertical flight_def)
  ultimately show ?thesis unfolding flying_def by blast
qed

lemma dt_rv:
  "f32_is_finite 0x3A83126F" "rv 0x3A83126F = 8589935 / 2 ^ 33" "f32_is_finite 0x3CA3D70B" "rv 0x3CA3D70B = 10737419 / 2 ^ 29"
  "f32_is_finite 0x3C23D70A" "rv 0x3C23D70A = 5368709 / 2 ^ 29" "f32_is_finite 0x3E4CCCCC" "rv 0x3E4CCCCC = 3355443 / 2 ^ 24"
proof -
  have v: "f32_val 0x3A83126F = Fin False (dy 8589935 116)" "f32_val 0x3CA3D70B = Fin False (dy 10737419 120)"
    "f32_val 0x3C23D70A = Fin False (dy 10737418 119)" "f32_val 0x3E4CCCCC = Fin False (dy 13421772 123)"
    by (simp_all add: feval)
  from rv_dy [OF v(1)] rv_dy [OF v(2)] rv_dy [OF v(3)] rv_dy [OF v(4)]
  show "rv 0x3A83126F = 8589935 / 2 ^ 33" "rv 0x3CA3D70B = 10737419 / 2 ^ 29" "rv 0x3C23D70A = 5368709 / 2 ^ 29"
    "rv 0x3E4CCCCC = 3355443 / 2 ^ 24" by simp_all
  show "f32_is_finite 0x3A83126F" "f32_is_finite 0x3CA3D70B" "f32_is_finite 0x3C23D70A" "f32_is_finite 0x3E4CCCCC"
    by (simp_all add: f32_is_finite_def v)
qed

lemma flights_ok: "flight_ok 0x3A83126F 720" "flight_ok 0x3C23D70A 75"
  by (simp_all add: flight_ok_def gravity_bits dt_rv)

text \<open>Both flights are over when the bounds end.\<close>

lemma comes_down:
  assumes "flight_ok dt n" "height_at (rv dt) (rv (f32_mul GRAVITY dt)) n + height_err (rv dt) n \<le> 0"
  shows "f32_le (fst (arc dt n)) 0"
  using arc_near(2) [OF assms(1) le_refl] assms(2) near_bounds(2) near_finite by (fastforce simp: f32_le_rv)

lemma flights_end: "f32_le (fst (arc 0x3A83126F 720)) 0" "f32_le (fst (arc 0x3C23D70A 75)) 0"
  by (rule comes_down [OF flights_ok(1)], simp add: gravity_bits dt_rv height_at_def height_err_def ulp16_def)
    (rule comes_down [OF flights_ok(2)], simp add: gravity_bits dt_rv height_at_def height_err_def ulp16_def)

lemma lands_passes: "a_released_jump_lands_and_stays_on_the_plane trig = Some ()"
proof -
  let ?dt = "0x3C23D70A :: f32"
  let ?w = "applied (test_input 2 0 0) (world_step ?dt (applied (jumping 1) (joined_world trig)))"
  obtain w where w: "repeat_body 200 (\<lambda>w. Some (world_step ?dt w)) ?w = Some w" "flying ?dt False 200 w"
    using repeat_body_rule [where I = "flying ?dt False" and f = "\<lambda>w. Some (world_step ?dt w)" and n = 200]
      released_flying [of ?dt trig] flying_step by blast
  obtain p where p: "player_a w = Some p" "vertical p = flight ?dt False 200" using flying_player [OF w(2)] by blast
  have "flight ?dt False 200 = (0, 0)"
    using flight_cases [OF flights_end(2) _ vertical_bits(6), of 200] by simp
  then show ?thesis
    using w(1) p by (simp add: a_released_jump_lands_and_stays_on_the_plane_def dt_bits vertical_fields f32_eq_def positive_bits)
qed

text \<open>The peak: no height of the flight is above the vertex, and the 349th comes close to it.\<close>

lemma peak_heights:
  defines "dt \<equiv> 0x3A83126F :: f32"
  shows "f32_is_finite (fst (flight dt False i))" "rv (fst (flight dt False i)) \<le> 1235 / 1000"
    and "1215 / 1000 \<le> rv (fst (flight dt False 348))"
proof -
  let ?h = "rv dt" and ?g = "rv (f32_mul GRAVITY dt)"
  have hg: "?h = 8589935 / 2 ^ 33" "?g = 10737419 / 2 ^ 29" by (simp_all add: dt_def gravity_bits dt_rv)
  have ok: "flight_ok dt 720" by (simp add: dt_def flights_ok)
  have "f32_is_finite (fst (flight dt False i)) \<and> rv (fst (flight dt False i)) \<le> 1235 / 1000"
    using flight_cases [OF flights_end(1) _ vertical_bits(5), of i, folded dt_def]
  proof
    assume "airborne dt (Suc i) \<and> Suc i \<le> 720 \<and> flight dt False i = arc dt (Suc i)"
    then have i: "Suc i \<le> 720" and eq: "flight dt False i = arc dt (Suc i)" by blast+
    note near = arc_near(2) [OF ok i]
    have "height_at ?h ?g (Suc i) \<le> ?h * (49 / (2 * ?g))" by (rule height_below_vertex) (simp_all add: hg)
    also have "\<dots> \<le> 123 / 100" by (simp add: hg)
    finally have top: "height_at ?h ?g (Suc i) \<le> 123 / 100" .
    have "real (Suc i) * (real (Suc i) + 1) \<le> 720 * 721" using i by (intro mult_mono) simp_all
    then have "?h * (real (Suc i) * (real (Suc i) + 1) / 2) \<le> ?h * (720 * 721 / 2)"
      by (intro mult_left_mono) (simp_all add: hg)
    also have "\<dots> \<le> 1000" by (simp add: hg)
    finally have "2 * real (Suc i) + ?h * (real (Suc i) * (real (Suc i) + 1) / 2) \<le> 3000" using i by simp
    then have "height_err ?h (Suc i) \<le> 3000 * ulp16"
      unfolding height_err_def by (intro mult_right_mono) (simp_all add: ulp16_def)
    then have "height_err ?h (Suc i) \<le> 5 / 1000" by (simp add: ulp16_def)
    then show ?thesis using near_bounds(2) [OF near] near_finite [OF near] top by (simp add: eq)
  qed simp_all
  then show "f32_is_finite (fst (flight dt False i))" "rv (fst (flight dt False i)) \<le> 1235 / 1000" by blast+
  have "airborne dt 349" by (rule rising_airborne [OF ok]) (simp_all add: hg ulp16_def)
  then have "flight dt False 348 = arc dt 349" using flight_air [of dt 348] by simp
  moreover have "1215 / 1000 \<le> height_at ?h ?g 349 - height_err ?h 349"
    by (simp add: hg height_at_def height_err_def ulp16_def)
  ultimately show "1215 / 1000 \<le> rv (fst (flight dt False 348))"
    using near_bounds(1) [OF arc_near(2) [OF ok, of 349]] by simp
qed

lemma max_rv: "f32_is_finite a \<Longrightarrow> f32_is_finite b \<Longrightarrow> f32_is_finite (f32_max a b) \<and> rv (f32_max a b) = max (rv a) (rv b)"
  by (auto simp: f32_max_def f32_lt_rv f32_finite_not_nan)

lemma peak_passes: "a_jump_peaks_near_the_ballistic_height trig = Some ()"
proof -
  let ?dt = "0x3A83126F :: f32"
  let ?w = "applied (test_input 2 0 0) (world_step ?dt (applied (jumping 1) (joined_world trig)))"
  let ?I = "\<lambda>k (w, highest). flying ?dt False k w \<and> f32_is_finite highest \<and> rv highest \<le> 1235 / 1000 \<and>
    (348 \<le> k \<longrightarrow> 1215 / 1000 \<le> rv highest)"
  have step: "\<exists>s'. peak_body s = Some s' \<and> ?I (Suc k) s'" if I: "?I k s" for k s
  proof -
    obtain w highest where s: "s = (w, highest)" by (cases s)
    have fly: "flying ?dt False (Suc k) (world_step ?dt w)" using I by (simp add: s flying_step)
    obtain p where p: "player_a (world_step ?dt w) = Some p" "vertical p = flight ?dt False (Suc k)"
      using flying_player [OF fly] by blast
    let ?y = "fst (flight ?dt False (Suc k))"
    have y: "f32_is_finite ?y" "rv ?y \<le> 1235 / 1000" by (rule peak_heights)+
    have "max (rv highest) (rv ?y) \<le> 1235 / 1000" using I y by (intro max.boundedI) (simp_all add: s)
    moreover have "1215 / 1000 \<le> max (rv highest) (rv ?y)" if "348 \<le> Suc k"
    proof (cases "Suc k = 348")
      case True
      then show ?thesis using peak_heights(3) by (simp add: le_max_iff_disj)
    next
      case False
      with that I show ?thesis by (simp add: s le_max_iff_disj)
    qed
    ultimately show ?thesis
      using I fly p y max_rv [of highest ?y] by (simp add: s peak_body_def dt_bits vertical_fields Let_def)
  qed
  have "?I 0 (?w, 0)" using released_flying [of ?dt trig] by simp
  then obtain w highest where run: "repeat_body 1000 peak_body (?w, 0) = Some (w, highest)"
    and highest: "f32_is_finite highest" "rv highest \<le> 1235 / 1000" "1215 / 1000 \<le> rv highest"
    using repeat_body_rule [where I = ?I and f = peak_body and n = 1000 and s = "(?w, 0)"] step by auto
  have e: "f32_div (f32_mul JUMP_SPEED JUMP_SPEED) (f32_mul (f32_lit 2 1) GRAVITY) = 0x3F9CCCCD"
    by (simp add: JUMP_SPEED_def GRAVITY_def feval)
  have v: "f32_val 0x3F9CCCCD = Fin False (dy 10276045 126)" "f32_val (f32_lit 2 100) = Fin False (dy 10737418 120)"
    by (simp_all add: feval)
  have r: "f32_is_finite 0x3F9CCCCD" "rv 0x3F9CCCCD = 10276045 / 2 ^ 23" "f32_is_finite (f32_lit 2 100)"
    "rv (f32_lit 2 100) = 10737418 / 2 ^ 29"
    using rv_dy [OF v(1)] rv_dy [OF v(2)] by (simp_all add: f32_is_finite_def v)
  have diff: "near (rv highest - rv 0x3F9CCCCD) ulp16 (f32_sub highest 0x3F9CCCCD)"
    using highest r by (intro sub_near) simp_all
  have abs: "f32_is_finite (f32_abs (f32_sub highest 0x3F9CCCCD))"
    "rv (f32_abs (f32_sub highest 0x3F9CCCCD)) = \<bar>rv (f32_sub highest 0x3F9CCCCD)\<bar>"
    using abs_rv [OF near_finite [OF diff]] by simp_all
  have "\<bar>rv (f32_sub highest 0x3F9CCCCD)\<bar> \<le> 15 / 1000"
    using near_bounds [OF diff] highest by (simp add: r(2) ulp16_def abs_le_iff)
  then have "f32_lt (f32_abs (f32_sub highest 0x3F9CCCCD)) (f32_lit 2 100)"
    by (simp add: f32_lt_rv abs r)
  then show ?thesis
    using run by (simp add: a_jump_peaks_near_the_ballistic_height_def dt_bits e Let_def)
qed

text \<open>A held jump key: after landing the player takes off again.\<close>

lemma bounce_passes: "holding_jump_keeps_bouncing trig = Some ()"
proof -
  let ?dt = "0x3C23D70A :: f32" and ?w = "applied (jumping 1) (joined_world trig)"
  define state where "state k = (vertical_at ?dt True ^^ k) (0, 0)" for k
  have flight: "flight ?dt True k = state (Suc k)" for k by (simp add: flight_def state_def funpow_swap1)
  have ok: "flight_ok ?dt 75" by (rule flights_ok)
  have "airborne ?dt 1" by (rule rising_airborne [OF ok]) (simp_all add: gravity_bits dt_rv ulp16_def)
  then have up: "\<not> f32_le (fst (state 1)) 0" using flight [of 0] flight_air [of ?dt 0 True] by (simp add: airborne_def)
  obtain l where l: "l \<le> 74" "state (Suc l) = (0, 0)"
    using flight_lands [of ?dt 74 True] flights_end(2) by (auto simp: flight)
  have again: "state (Suc (Suc l)) = state 1" using l(2) by (simp add: state_def)
  let ?I = "\<lambda>k (w, takeoffs, was_grounded). (\<exists>p t. w = solo p t \<and> pl_jump_held p \<and> vertical p = state k) \<and>
    was_grounded = f32_le (fst (state k)) 0 \<and> (1 \<le> k \<longrightarrow> 1 \<le> takeoffs) \<and> (l + 2 \<le> k \<longrightarrow> 2 \<le> takeoffs)"
  have step: "\<exists>s'. bounce_body s = Some s' \<and> ?I (Suc k) s'" if I: "?I k s" for k s
  proof -
    obtain w n g where s: "s = (w, n, g)" by (cases s)
    obtain p t where p: "w = solo p t" "pl_jump_held p" "vertical p = state k" using I by (auto simp: s)
    let ?p = "step_player ?dt p"
    have p': "pl_jump_held ?p" "vertical ?p = state (Suc k)" using p by (simp_all add: step_vertical state_def)
    let ?n = "if g \<and> \<not> f32_le (fst (state (Suc k))) 0 then n + 1 else n"
    have body: "bounce_body s = Some (solo ?p (t + 1), ?n, f32_le (fst (state (Suc k))) 0)"
      by (simp add: s bounce_body_def dt_bits p(1) solo_simps vertical_fields p'(2) Let_def)
    have "1 \<le> ?n"
    proof (cases "k = 0")
      case True
      then have "g" using I by (simp add: s state_def positive_bits)
      with True up show ?thesis by simp
    qed (use I in \<open>simp add: s\<close>)
    moreover have "2 \<le> ?n" if "l + 2 \<le> Suc k"
    proof (cases "l + 2 = Suc k")
      case True
      then have k: "k = Suc l" by simp
      then have "g" "1 \<le> n" using I l(2) by (simp_all add: s positive_bits)
      then show ?thesis using up again by (simp add: k)
    next
      case False
      with that I show ?thesis by (simp add: s)
    qed
    ultimately show ?thesis using body p' by auto
  qed
  have "?I 0 (?w, 0, True)"
    by (simp add: solo_simps input_simps state_def positive_bits)
      (rule exI [of _ "take_input (jumping 1) (player_one trig)"], auto simp: player_one_vertical take_moves input_simps)
  then obtain w n g where run: "repeat_body 200 bounce_body (?w, 0, True) = Some (w, n, g)" and n: "2 \<le> n"
    using repeat_body_rule [where I = ?I and f = bounce_body and n = 200 and s = "(?w, 0, True)"] step l(1) by auto
  show ?thesis by (simp add: holding_jump_keeps_bouncing_def run n)
qed

end
