(* ===== verification/Jump_Props.thy ===== *)
theory Jump_Props
  imports Jump_Tests World_Reach
begin

text \<open>How far a jump is from the parabola of exact arithmetic, for any time step.\<close>

lemma height_err_small:
  assumes "flight_ok dt n" "k \<le> n"
  shows "height_err (rv dt) k \<le> 3 / 1000"
proof -
  have ok: "0 \<le> rv dt" "real n * rv dt \<le> 4 / 5" "n \<le> 1000" using assms(1) unfolding flight_ok_def by blast+
  have k: "real k \<le> real n" "real n \<le> 1000" using assms(2) ok(3) by simp_all
  have "real k * rv dt \<le> real n * rv dt" using k(1) ok(1) by (rule mult_right_mono)
  then have "(real k * rv dt) * ((real k + 1) / 2) \<le> 4 / 5 * 501" using k ok by (intro mult_mono) simp_all
  then have "2 * real k + rv dt * (real k * (real k + 1) / 2) \<le> 3000" using k by (simp add: field_simps)
  then have "height_err (rv dt) k \<le> 3000 * ulp16" unfolding height_err_def by (intro mult_right_mono) (simp_all add: ulp16_def)
  then show ?thesis by (simp add: ulp16_def)
qed

lemma steps_vertical:
  assumes "vertical p = (0, 0)" "pl_jump_held p"
  shows "vertical ((step_player dt ^^ Suc k) p) = flight dt True k \<and> pl_jump_held ((step_player dt ^^ Suc k) p)"
proof (induction k)
  case 0
  then show ?case using assms by (simp add: step_vertical flight_def)
next
  case (Suc k)
  have "(step_player dt ^^ Suc (Suc k)) p = step_player dt ((step_player dt ^^ Suc k) p)" by simp
  with Suc show ?case by (simp only: step_vertical flight_Suc)
qed

lemma flight_airborne:
  "(\<And>i. i \<le> k \<Longrightarrow> \<not> f32_le (fst (flight dt jump i)) 0) \<Longrightarrow> airborne dt (Suc k)"
proof (induction k)
  case 0
  then show ?case
    using flight_step [of dt 0 jump] by (cases "arc dt 1") (auto simp: airborne_def land_def positive_bits split: if_splits)
next
  case (Suc k)
  then have air: "airborne dt (Suc k)" by simp
  then show ?case
    using flight_step [OF air, of jump] Suc.prems [of "Suc k"]
    by (cases "arc dt (Suc (Suc k))") (auto simp: airborne_Suc land_def positive_bits split: if_splits)
qed



end
