(* ===== verification/Unit_Test_Props.thy ===== *)
theory Unit_Test_Props
  imports Jump_Tests Protocol_Props World_Reach
begin

text \<open>The program's unit tests, all of them, pass on the model.\<close>

lemma digit_simps:
  "digit 0 = CHR ''0''" "digit 1 = CHR ''1''" "digit (Suc 0) = CHR ''1''" "digit 2 = CHR ''2''" "digit 3 = CHR ''3''" "digit 4 = CHR ''4''"
  "digit 5 = CHR ''5''" "digit 6 = CHR ''6''" "digit 7 = CHR ''7''" "digit 8 = CHR ''8''" "digit 9 = CHR ''9''"
  by code_simp+

lemma show_numeral: "show_nat (numeral k) = (if numeral k < (10 :: nat) then [digit (numeral k)]
    else show_nat (numeral k div 10) @ [digit (numeral k mod 10)])"
  "show_nat 0 = ''0''" "show_nat 1 = ''1''" "show_nat (Suc 0) = ''1''"
  by (rule show_nat.simps) (simp_all add: show_nat.simps digit_simps)

lemma address_passes: "a_connected_peer_reports_its_address_until_removed now = Some ()"
proof -
  have "show_nat 50000 = ''50000''" by (simp add: show_numeral digit_simps)
  then show ?thesis
    by (simp add: a_connected_peer_reports_its_address_until_removed_def directory_connect_def directory_new_def bt_empty_def
        directory_address_label_def bt_get_def address_label_def loopback_def directory_remove_def record_address_label_def
        directory_is_empty_def Let_def)
qed

lemma handshake_passes: "accepting_the_handshake_is_recorded now = Some ()"
  by (simp add: accepting_the_handshake_is_recorded_def directory_connect_def directory_new_def bt_empty_def directory_get_def
      bt_get_def accept_handshake_def)

lemma connection_time_passes: "connection_time_is_measured_from_connect now = Some ()"
  by (simp add: connection_time_is_measured_from_connect_def directory_connect_def directory_new_def bt_empty_def directory_get_def
      bt_get_def connected_for_def since_def)

lemma roster_passes:
  assumes "show_peer PEER = ''peer#7''"
  shows "roster_lists_every_joined_player_with_its_address show_peer trig now = Some ()"
proof -
  have digits: "show_nat 1 = ''1''" "show_nat 40000 = ''40000''" by (simp_all add: show_numeral digit_simps)
  show ?thesis
    by (simp add: roster_lists_every_joined_player_with_its_address_def directory_connect_def directory_new_def bt_empty_def
        join_def world_new_def bt_get_def roster_def roster_entry_def world_peers_def bt_keys_def world_player_def
        List.map_filter_def describe_player_def new_player_def directory_address_label_def address_label_def loopback_def
        kind_name_def BOT_def UNITY_def GODOT_def UNREAL_def KAIJU_def digits show_numeral digit_simps assms case_prod_unfold Let_def)
qed

lemma empty_roster_passes: "an_empty_world_has_an_empty_roster show_peer = Some ()"
  by (simp add: an_empty_world_has_an_empty_roster_def roster_def world_peers_def world_new_def bt_empty_def bt_keys_def
      List.map_filter_def)

lemma snapshot_round_trip_passes: "world_snapshot_survives_a_round_trip = Some ()"
proof -
  obtain bytes where "encode_world_snapshot two_player_snapshot = Some bytes"
    "decode_world_snapshot bytes = Inr two_player_snapshot"
    using snapshot_back [of two_player_snapshot "[]"] by (auto simp: two_player_snapshot_def u32_MAX_def)
  then show ?thesis by (simp add: world_snapshot_survives_a_round_trip_def unwrap_ok_def)
qed

lemma hello_round_trip_passes: "client_hello_survives_a_round_trip = Some ()"
proof -
  have "utf8_ok (bytes_of_string (ch_display_name utf8_hello))"
    by (simp add: utf8_hello_def bytes_of_string_def byte_of_char_def byte_in_def cont_byte_def second3_def)
  then obtain bytes where "encode_client_hello utf8_hello = Some bytes" "decode_client_hello bytes = Inr utf8_hello"
    using client_hello_back [of utf8_hello "[]"] by (auto simp: utf8_hello_def u32_MAX_def)
  then show ?thesis by (simp add: client_hello_survives_a_round_trip_def unwrap_ok_def)
qed

lemma short_input_passes: "input_from_a_client_without_jump_and_look_decodes_with_defaults = Some ()"
proof -
  let ?i = "\<lparr>pi_sequence = 7, pi_move_x = f32_one, pi_move_z = f32_neg (f32_lit 5 10), pi_jump = True,
    pi_look_yaw = f32_lit 2 1, pi_look_pitch = f32_one\<rparr>"
  have "length (encode_player_input ?i) = 21" by (simp add: encode_bytes)
  moreover have "decode_player_input (take 12 (encode_player_input ?i)) = Inr (default_player_input\<lparr>pi_sequence := 7,
      pi_move_x := f32_one, pi_move_z := f32_neg (f32_lit 5 10)\<rparr>)"
    using player_input_cut [of ?i 12]
    by (simp add: decoded_or_cut_def player_input_layout_def default_player_input_def split: sum.splits)
  ultimately show ?thesis
    by (simp add: input_from_a_client_without_jump_and_look_decodes_with_defaults_def INPUT_BYTES_BEFORE_JUMP_AND_LOOK_def
        unwrap_ok_def Let_def)
qed

lemma log_passes: "formats_the_utc_time_of_day_with_milliseconds = Some ()" "midnight_is_all_zeroes = Some ()"
proof -
  have "format_utc_time_of_day 1789462323045 = ''08:52:03.045Z''" 
    by (simp add: format_utc_time_of_day_def MILLIS_PER_DAY_def show_pad_def pad_zero_def show_numeral digit_simps Let_def)
  then show "formats_the_utc_time_of_day_with_milliseconds = Some ()"
    by (simp add: formats_the_utc_time_of_day_with_milliseconds_def)
  have "format_utc_time_of_day (MILLIS_PER_DAY * 20000) = ''00:00:00.000Z''"
    by (simp add: format_utc_time_of_day_def MILLIS_PER_DAY_def show_pad_def pad_zero_def show_numeral Let_def)
      (simp add: numeral_2_eq_2)
  then show "midnight_is_all_zeroes = Some ()" by (simp add: midnight_is_all_zeroes_def)
qed

text \<open>
  C7: Every one of the crate's unit tests passes on the model, for any cosine and sine that stay
  within 1 in magnitude and any reading of the clock. The simulation's tests cover membership,
  movement, the edge of the plane, rejected inputs, jumps up to a thousand steps and the look
  angles; the others the peer directory and its roster, the codecs and the log's time of day.
\<close>

theorem unit_tests_pass:
  assumes "trig_ok trig" "show_peer PEER = ''peer#7''"
  shows "list_all (\<lambda>test. test trig = Some ())
      [joining_assigns_distinct_ids_and_colors, joining_twice_from_one_peer_keeps_the_same_player,
       input_moves_the_player_at_move_speed, diagonal_input_is_normalized, position_is_clamped_to_the_plane,
       non_finite_input_does_not_move_the_player, stale_input_is_ignored, input_from_a_peer_that_never_joined_is_rejected,
       leaving_removes_the_player_from_the_snapshot, snapshot_reports_the_current_tick,
       a_player_stands_on_the_plane_without_jumping, holding_jump_on_the_ground_launches_the_player,
       a_jump_peaks_near_the_ballistic_height, a_released_jump_lands_and_stays_on_the_plane, holding_jump_keeps_bouncing,
       holding_jump_in_the_air_does_not_add_speed, look_yaw_is_wrapped_and_pitch_is_clamped,
       non_finite_look_keeps_the_previous_direction, snapshot_carries_height_and_look_direction]
    \<and> list_all (\<lambda>test. test now = Some ())
      [a_connected_peer_reports_its_address_until_removed, accepting_the_handshake_is_recorded,
       connection_time_is_measured_from_connect, roster_lists_every_joined_player_with_its_address show_peer trig]
    \<and> list_all (\<lambda>test. test = Some ())
      [an_empty_world_has_an_empty_roster show_peer, world_snapshot_survives_a_round_trip, client_hello_survives_a_round_trip,
       input_from_a_client_without_jump_and_look_decodes_with_defaults, formats_the_utc_time_of_day_with_milliseconds,
       midnight_is_all_zeroes]"
  using assms
  by (simp add: joining_passes joining_twice_passes input_moves_passes diagonal_passes clamped_passes non_finite_passes
      stale_passes never_joined_passes leaving_passes snapshot_tick_passes stands_passes launch_passes peak_passes lands_passes
      bounce_passes air_speed_passes look_passes non_finite_look_passes snapshot_passes address_passes handshake_passes
      connection_time_passes roster_passes empty_roster_passes snapshot_round_trip_passes hello_round_trip_passes
      short_input_passes log_passes)

theorem unit_tests_pass_witness:
  "a_jump_peaks_near_the_ballistic_height unit_trig = Some () \<and>
   roster_lists_every_joined_player_with_its_address (\<lambda>peer. ''peer#'' @ show_nat peer) unit_trig 5 = Some ()"
proof -
  have "''peer#'' @ show_nat PEER = ''peer#7''" by (simp add: PEER_def show_numeral digit_simps)
  from unit_tests_pass [where show_peer = "\<lambda>peer. ''peer#'' @ show_nat peer" and now = 5, OF unit_trig_ok this]
  show ?thesis by simp
qed

end
