(* ===== verification/Spec2Isabelle.thy ===== *)
theory Spec2Isabelle
  imports World_Props Session_Props Schema Report_Props Bench_Props Profile_Text Jump_Props Unit_Test_Props
begin

text \<open>
  A model of the Rust crate of \<^verbatim>\<open>fomoxa-example-game\<close>, \<^verbatim>\<open>src/server\<close>: the game server (\<^verbatim>\<open>main.rs\<close>) with
  everything it is made of, and the two programs that play against it, the load generator
  (\<^verbatim>\<open>bin/bench.rs\<close> with \<^verbatim>\<open>measure.rs\<close>) and the bot of the smoke test (\<^verbatim>\<open>bin/bot.rs\<close>).

  The program. Clients connect over \<^verbatim>\<open>fomoxa_net\<close>, which compares fingerprints of the message models,
  and then exchange four messages: a \<^verbatim>\<open>ClientHello\<close> makes a connection a player, a \<^verbatim>\<open>Welcome\<close> answers
  it, a \<^verbatim>\<open>PlayerInput\<close> sets what the player wants, and 30 times a second the world makes a step and a
  \<^verbatim>\<open>WorldSnapshot\<close> goes to every player.

  The theories, in the order of the code they model:

  \<^item> \<^verbatim>\<open>Prelude\<close>: integer types, strings as UTF-8 bytes, shared lemmas. \<^verbatim>\<open>Utf8\<close>, \<^verbatim>\<open>Text_Format\<close>,
    \<^verbatim>\<open>Float_Text\<close>, \<^verbatim>\<open>Durations\<close> and \<^verbatim>\<open>BTree_Map\<close>: what the source uses of Rust's standard library. A
    \<^verbatim>\<open>BTreeMap\<close> is the list of its entries in the order of the keys; the locale \<open>ordered_map\<close> states
    its laws and is interpreted on it.
  \<^item> \<^verbatim>\<open>Float_Round\<close>, \<^verbatim>\<open>Float_Ops\<close>, \<^verbatim>\<open>Float_Facts\<close>, \<^verbatim>\<open>Float_Sqrt\<close>, \<^verbatim>\<open>Float_Bits\<close>, \<^verbatim>\<open>Rust_Float\<close>,
    \<^verbatim>\<open>Rust_F64\<close>, \<^verbatim>\<open>Float_Eval\<close>: IEEE binary32 and binary64 with round to nearest even, on bit patterns;
    a finite value is an integral multiple of the smallest subnormal. Every NaN a computation makes
    is the canonical one (Rust leaves its payload open; no code here reads it).
  \<^item> \<^verbatim>\<open>Wire\<close>: \<^verbatim>\<open>generated/runtime.rs\<close>, the byte writer and reader, their errors and limits. \<^verbatim>\<open>Wire_Laws\<close>:
    the locale \<open>wire_type\<close> of a primitive that reads back, interpreted on all of them.
  \<^item> \<^verbatim>\<open>Protocol\<close>: \<^verbatim>\<open>models/protocol.rs\<close>, the five codecs \<^verbatim>\<open>generated/*_game.rs\<close> and \<^verbatim>\<open>messages.rs\<close>.
    \<^verbatim>\<open>Protocol_Laws\<close> describes a codec as a list of fields and proves once what a list of fields reads;
    \<^verbatim>\<open>Protocol_Props\<close> holds round trips, truncation and error behaviour.
  \<^item> \<^verbatim>\<open>Handshake\<close>: \<^verbatim>\<open>generated/handshake.rs\<close>, the table of fingerprints, its binary search and the
    comparison with a peer's table. \<^verbatim>\<open>Schema\<close>: \<^verbatim>\<open>schema.rs\<close> and the constants of the codecs.
  \<^item> \<^verbatim>\<open>World\<close>: \<^verbatim>\<open>world.rs\<close>, players, joining, leaving, input, the step, the snapshot. \<^verbatim>\<open>World_Floats\<close>,
    \<^verbatim>\<open>World_Norm\<close> and \<^verbatim>\<open>World_Jump\<close> bound its arithmetic, \<^verbatim>\<open>World_Laws\<close> and \<^verbatim>\<open>World_Reach\<close> give the
    invariant \<open>world_ok\<close>, the worlds that can be reached, and the abstract world (a function from peers
    to players) that the operations refine; the properties are in \<^verbatim>\<open>World_Props\<close>.
  \<^item> \<^verbatim>\<open>Client_Kind\<close>, \<^verbatim>\<open>Peers\<close>, \<^verbatim>\<open>Cli\<close>, \<^verbatim>\<open>Log_Time\<close>: \<^verbatim>\<open>client_kind.rs\<close>, \<^verbatim>\<open>peers.rs\<close>, \<^verbatim>\<open>cli.rs\<close>, \<^verbatim>\<open>log.rs\<close>.
  \<^item> \<^verbatim>\<open>Game\<close>: \<^verbatim>\<open>main.rs\<close>, one definition per handler and per half of a turn of the loop; \<^verbatim>\<open>Profile_Text\<close>
    is the profile line. \<^verbatim>\<open>Game_Laws\<close>: the effect of each part and the invariant \<open>game_ok\<close> that ties
    world, directory and pending welcomes together. \<^verbatim>\<open>Game_Props\<close>: the loop keeps running, membership
    follows the events. \<^verbatim>\<open>Game_Send\<close>: what is sent, over a recording environment.
  \<^item> \<^verbatim>\<open>Measure\<close>, \<^verbatim>\<open>Measure_Report\<close>: \<^verbatim>\<open>measure.rs\<close>, the options, the pitch tags, the workers, and the
    samples, percentiles and report. \<^verbatim>\<open>Measure_Tags\<close>, \<^verbatim>\<open>Measure_Props\<close>, \<^verbatim>\<open>Report_Props\<close>: the tags read
    back, the options are usable, every bot is accounted for, the figures are what they say.
  \<^item> \<^verbatim>\<open>Client_Net\<close>: what the two bots see of the network. \<^verbatim>\<open>Bench\<close> and \<^verbatim>\<open>Bench_Props\<close>: \<^verbatim>\<open>bin/bench.rs\<close>;
    no server makes a bot panic, and a tagged input makes the round trip through codec, world and
    snapshot. \<^verbatim>\<open>Bot\<close> and \<^verbatim>\<open>Bot_Props\<close>: \<^verbatim>\<open>bin/bot.rs\<close>; what the bot remembers, and its verdict.
  \<^item> \<^verbatim>\<open>Session\<close>, \<^verbatim>\<open>Session_Props\<close>: the server and the bot composed. A client hears the messages that the
    server's sends delivered to it, in their order; \<open>session_ok\<close> is the invariant of that conversation
    through events, welcomes, ticks and turns. No bot is told anything false over any link, and over a
    reliable one it sees itself after the next step.
  \<^item> \<^verbatim>\<open>Float_Error\<close>, \<^verbatim>\<open>Ballistics\<close>: the rounding error of the float operations in the reals (\<open>near\<close>), and a
    jump with any time step against the parabola; \<^verbatim>\<open>Jump_Props\<close> states it of the code.
  \<^item> \<^verbatim>\<open>Unit_Tests\<close>: the crate's \<^verbatim>\<open>#[test]\<close> functions, as definitions. \<^verbatim>\<open>World_Tests\<close>, \<^verbatim>\<open>Jump_Tests\<close> and
    \<^verbatim>\<open>Unit_Test_Props\<close> prove that each of them passes on the model.

  Parameters. \<^verbatim>\<open>fomoxa_net\<close> is not in the repository: the server sees it as the record \<open>environment\<close>,
  the bots as \<open>client_net\<close>, functions on a state of their own that also hold the clock and the sleep;
  nothing is assumed of what they return, except where a theorem names it (a clock that goes
  forward, at most \<open>burst\<close> events in a turn, the order of the events of a connection). \<^verbatim>\<open>cos\<close>, \<^verbatim>\<open>sin\<close>
  and \<^verbatim>\<open>atan2\<close> are parameters too, because Rust leaves their precision open; \<open>trig_ok\<close> says that the
  first two stay in [-1, 1]. The texts of \<^verbatim>\<open>/proc\<close> and the command line are arguments.

  Integers keep their width and wrap where the code adds without a check, as the release build the
  README runs does; counters of \<^verbatim>\<open>usize\<close> and \<^verbatim>\<open>u64\<close> that no run can exhaust, lengths, indices and
  instants are \<open>nat\<close>. A panic is \<open>None\<close>. Loops over a deadline are \<open>partial_function\<close>s, and that they
  return is proved from the clock; \<open>turns n\<close> makes \<open>n\<close> turns of the server's endless loop, for any \<open>n\<close>.
  Player identities are \<^verbatim>\<open>u32\<close> and not reused, so what rests on their being distinct holds for fewer
  than \<open>2\<^sup>3\<^sup>2\<close> joins.

  Not modelled: binding the listener, spawning and joining threads (each worker owns its bots; the
  sampler thread only fills the lists that \<open>run\<close> is given), reading \<^verbatim>\<open>/proc\<close> and writing the JSON file,
  \<^verbatim>\<open>lib.rs\<close> and the \<^verbatim>\<open>mod.rs\<close> files, which only name modules; the clients in C++, C#, GDScript and Go, the
  tools and the documents are other programs.
\<close>

end
